(* ===== verification/Rate_Limit.thy ===== *)
theory Rate_Limit
  imports Prelude
begin

text \<open>
  The two sliding-window rate limiters of the gateway:
  \<^verbatim>\<open>GatewayHandler.isRateLimited\<close> (pkg/proxy/handler.go, per client and route, with
  an optional Redis back end) and \<^verbatim>\<open>adminRateLimiter.Limit\<close> with its wrapper
  \<^verbatim>\<open>withAdminRateLimit\<close> (main.go, per client address). Both keep, per key, the times
  of the admitted requests. The locale \<open>sliding_window\<close> states the contract of one
  admission step; the window bound is proved there once and holds for both limiters by
  interpretation.
\<close>

section \<open>The limiter of the proxy\<close>

text \<open>
  \<^verbatim>\<open>GatewayHandler.ratLimiters\<close> maps a key to the history of its limiter. Redis is a
  service outside the repository: the commands the code sends are values, and what the
  server answers (the cardinality, or nothing when the pipeline failed) is a parameter,
  together with the clock and the random number the code reads on that branch.
\<close>

type_synonym rate_limiters = "string \<rightharpoonup> time list"

datatype redis_cmd =
    ZRemRangeByScore string int
  | ZCard string
  | ZAdd string int string
  | Expire string duration

record redis_conn =
  redis_now :: time
  redis_rand :: int
  redis_zcard :: "int option"

definition rateLimit_key :: "string \<Rightarrow> string \<Rightarrow> string" where
  "rateLimit_key clientIP routePrefix = clientIP @ '':'' @ routePrefix"

definition isRateLimited_redis :: "redis_conn \<Rightarrow> string \<Rightarrow> int \<Rightarrow> bool option \<times> redis_cmd list" where
  "isRateLimited_redis rd key limit =
     (let nowMs = go_div (redis_now rd) 1000000;
          cutoffMs = nowMs - 60000;
          redisKey = ''servgate:ratelimit:'' @ key;
          member = fmt_d nowMs @ ''-'' @ fmt_d (redis_rand rd);
          pipe1 = [ZRemRangeByScore redisKey cutoffMs, ZCard redisKey]
      in case redis_zcard rd of
           None \<Rightarrow> (None, pipe1)
         | Some count \<Rightarrow>
             if limit \<le> count then (Some True, pipe1)
             else (Some False, pipe1 @ [ZAdd redisKey nowMs member, Expire redisKey (60 * time_Second)]))"

definition isRateLimited_local :: "time \<Rightarrow> int \<Rightarrow> time list \<Rightarrow> bool \<times> time list" where
  "isRateLimited_local now limit history =
     (let cutoff = now - 1 * time_Minute;
          valid = filter (\<lambda>t. cutoff < t) history
      in if limit \<le> int (length valid) then (True, valid) else (False, valid @ [now]))"

definition isRateLimited ::
  "redis_conn option \<Rightarrow> time \<Rightarrow> rate_limiters \<Rightarrow> string \<Rightarrow> string \<Rightarrow> int \<Rightarrow>
     bool \<times> rate_limiters \<times> redis_cmd list" where
  "isRateLimited redisClient now lims clientIP routePrefix limit =
     (if limit \<le> 0 then (False, lims, [])
      else
        let key = rateLimit_key clientIP routePrefix;
            (verdict, cmds) = (case redisClient of None \<Rightarrow> (None, []) | Some rd \<Rightarrow> isRateLimited_redis rd key limit)
        in case verdict of
             Some b \<Rightarrow> (b, lims, cmds)
           | None \<Rightarrow>
               let (b, history') = isRateLimited_local now limit (mget [] lims key)
               in (b, lims(key \<mapsto> history'), cmds))"

section \<open>The limiter of the admin API\<close>

definition adminRateLimiter_Limit :: "time \<Rightarrow> rate_limiters \<Rightarrow> string \<Rightarrow> int \<Rightarrow> bool \<times> rate_limiters" where
  "adminRateLimiter_Limit now hist ip limit =
     (let cutoff = now - 1 * time_Minute;
          history = mget [] hist ip;
          valid = filter (\<lambda>t. cutoff < t) history
      in if limit \<le> int (length valid) then (True, hist(ip \<mapsto> valid))
         else let valid' = valid @ [now] in (False, hist(ip \<mapsto> valid')))"

section \<open>The contract of one admission step\<close>

text \<open>
  \<open>window_admit\<close> runs an admission step over the arrivals of one key, each with the limit
  it carries and its time, and collects the times of the admitted ones; \<open>in_window\<close> are
  the admitted ones of one minute.
\<close>

definition window_admit ::
  "(time \<Rightarrow> int \<Rightarrow> time list \<Rightarrow> bool \<times> time list) \<Rightarrow> time list \<times> time list \<Rightarrow> int \<times> time \<Rightarrow> time list \<times> time list" where
  "window_admit step st a =
     (case a of (limit, now) \<Rightarrow>
        let (limited, h') = step now limit (snd st)
        in (if limited then fst st else fst st @ [now], h'))"

definition in_window :: "time \<Rightarrow> time list \<Rightarrow> time list" where
  "in_window w ts = filter (\<lambda>t. w < t \<and> t \<le> w + time_Minute) ts"

locale sliding_window =
  fixes step :: "time \<Rightarrow> int \<Rightarrow> time list \<Rightarrow> bool \<times> time list"
  assumes verdict: "fst (step now limit h) \<longleftrightarrow> limit \<le> int (length (filter (\<lambda>t. now - time_Minute < t) h))"
    and history_limited: "fst (step now limit h) \<Longrightarrow> snd (step now limit h) = filter (\<lambda>t. now - time_Minute < t) h"
    and history_admitted: "\<not> fst (step now limit h) \<Longrightarrow>
      snd (step now limit h) = filter (\<lambda>t. now - time_Minute < t) h @ [now]"
begin

definition window_inv :: "time \<Rightarrow> time list \<times> time list \<Rightarrow> bool" where
  "window_inv prev st \<longleftrightarrow>
     (\<forall>t \<in> set (fst st). t \<le> prev) \<and>
     filter (\<lambda>t. prev - time_Minute < t) (snd st) = filter (\<lambda>t. prev - time_Minute < t) (fst st)"

definition window_full :: "int \<Rightarrow> time list \<times> time list \<Rightarrow> bool" where
  "window_full bound st \<longleftrightarrow> (\<forall>w. int (length (in_window w (fst st))) \<le> bound)"

lemma window_inv_filter:
  assumes "window_inv prev st" and "prev \<le> now"
  shows "filter (\<lambda>t. now - time_Minute < t) (snd st) = filter (\<lambda>t. now - time_Minute < t) (fst st)"
proof -
  have "filter (\<lambda>t. now - time_Minute < t) xs =
        filter (\<lambda>t. now - time_Minute < t) (filter (\<lambda>t. prev - time_Minute < t) xs)" for xs
    using assms(2) by (simp only: filter_filter) (rule filter_cong, auto)
  with assms(1) show ?thesis by (metis window_inv_def)
qed

lemma window_inv_step:
  assumes "window_inv prev st" "prev \<le> now"
  shows "window_inv now (window_admit step st (limit, now))"
proof (cases "fst (step now limit (snd st))")
  case True
  then show ?thesis
    using assms window_inv_filter[OF assms] history_limited[OF True]
    by (force simp: window_inv_def window_admit_def split_beta Let_def)
next
  case False
  have "0 < time_Minute" by (simp add: time_units)
  then show ?thesis
    using False assms window_inv_filter[OF assms] history_admitted[OF False]
    by (force simp: window_inv_def window_admit_def split_beta Let_def)
qed

lemma window_full_admit:
  assumes "window_inv prev st" "prev \<le> now" "\<not> fst (step now limit (snd st))"
    and "limit \<le> bound" "window_full bound st"
  shows "int (length (in_window w (fst st @ [now]))) \<le> bound"
proof (cases "w < now \<and> now \<le> w + time_Minute")
  case False
  with assms(5) show ?thesis by (auto simp: window_full_def in_window_def)
next
  case True
  let ?recent = "filter (\<lambda>t. now - time_Minute < t) (fst st)"
  have "in_window w (fst st) = filter (\<lambda>t. w < t \<and> t \<le> w + time_Minute) ?recent"
    using True unfolding in_window_def by (simp only: filter_filter) (rule filter_cong, auto)
  then have "length (in_window w (fst st)) \<le> length ?recent" by (metis length_filter_le)
  moreover have "int (length ?recent) < limit"
    using assms(3) by (simp add: verdict window_inv_filter[OF assms(1,2)])
  ultimately show ?thesis using True assms(4) by (simp add: in_window_def)
qed

lemma window_full_step:
  assumes "window_inv prev st" "prev \<le> now" "limit \<le> bound" "window_full bound st"
  shows "window_full bound (window_admit step st (limit, now))"
  using assms(4) window_full_admit[OF assms(1,2) _ assms(3,4)]
  by (simp add: window_full_def window_admit_def split_beta Let_def)

lemma window_inv_run:
  assumes "window_inv prev st" "sorted (prev # map snd as)"
  shows "window_inv (List.last (prev # map snd as)) (foldl (window_admit step) st as)"
  using assms
proof (induction as arbitrary: prev st)
  case (Cons a as)
  then have "window_inv (snd a) (window_admit step st a)" and "sorted (snd a # map snd as)"
    using window_inv_step[of prev st "snd a" "fst a"] by auto
  from Cons.IH[OF this] show ?case by simp
qed simp

lemma window_inv_init:
  assumes "sorted (map snd as @ [now])"
  shows "\<exists>prev \<le> now. window_inv prev (foldl (window_admit step) ([], []) as)"
proof (cases as)
  case Nil
  then show ?thesis by (auto simp: window_inv_def)
next
  case (Cons a as')
  have "window_inv (snd a) ([], [])" by (simp add: window_inv_def)
  moreover have "sorted (snd a # map snd as)" using assms Cons by (simp add: sorted_append)
  ultimately have "window_inv (List.last (snd a # map snd as)) (foldl (window_admit step) ([], []) as)"
    by (rule window_inv_run)
  moreover have "List.last (snd a # map snd as) \<le> now"
    using assms Cons last_in_set[of "map snd as"] by (auto simp: sorted_append)
  ultimately show ?thesis by blast
qed

lemma window_bound:
  assumes "sorted (map snd as)" "0 \<le> bound" "\<forall>a \<in> set as. fst a \<le> bound"
  shows "int (length (in_window w (fst (foldl (window_admit step) ([], []) as)))) \<le> bound"
proof -
  have "window_full bound (foldl (window_admit step) ([], []) as)"
    using assms
  proof (induction as rule: rev_induct)
    case Nil
    then show ?case by (simp add: window_full_def in_window_def)
  next
    case (snoc a as)
    then have "sorted (map snd as @ [snd a])" by simp
    from window_inv_init[OF this] obtain prev
      where "prev \<le> snd a" "window_inv prev (foldl (window_admit step) ([], []) as)" by blast
    with snoc show ?case
      using window_full_step[of prev _ "snd a" "fst a" bound] by (simp add: sorted_append)
  qed
  then show ?thesis by (simp add: window_full_def)
qed

lemma window_exact:
  assumes "sorted (map snd as @ [now])"
  shows "fst (step now limit (snd (foldl (window_admit step) ([], []) as))) \<longleftrightarrow>
    limit \<le> int (length (filter (\<lambda>t. now - time_Minute < t) (fst (foldl (window_admit step) ([], []) as))))"
proof -
  obtain prev where "prev \<le> now" "window_inv prev (foldl (window_admit step) ([], []) as)"
    using window_inv_init[OF assms] by blast
  with window_inv_filter show ?thesis by (simp add: verdict)
qed

end

section \<open>A limiter with many keys\<close>

text \<open>
  An arrival is a request, its limit and its time. \<open>keyed_admit\<close> serves one arrival from
  the table of histories and records the admitted ones. Not every arrival is decided by the
  histories (the proxy does not count a request without a limit or one that Redis decides):
  \<open>counted\<close> says which are. \<open>key_arrivals\<close> are the counted arrivals of one key with
  their limits, \<open>key_times\<close> their times.
\<close>

definition keyed_admit ::
  "(time \<Rightarrow> rate_limiters \<Rightarrow> 'q \<Rightarrow> int \<Rightarrow> bool \<times> rate_limiters) \<Rightarrow>
   rate_limiters \<times> ('q \<times> int \<times> time) list \<Rightarrow> 'q \<times> int \<times> time \<Rightarrow> rate_limiters \<times> ('q \<times> int \<times> time) list" where
  "keyed_admit serve st a =
     (case a of (q, limit, now) \<Rightarrow>
        let (limited, m') = serve now (fst st) q limit
        in (m', if limited then snd st else snd st @ [a]))"

definition key_arrivals ::
  "('q \<Rightarrow> string) \<Rightarrow> ('q \<Rightarrow> int \<Rightarrow> bool) \<Rightarrow> string \<Rightarrow> ('q \<times> int \<times> time) list \<Rightarrow> (int \<times> time) list" where
  "key_arrivals key counted k as = map snd (filter (\<lambda>(q, l, t). key q = k \<and> counted q l) as)"

definition key_times ::
  "('q \<Rightarrow> string) \<Rightarrow> ('q \<Rightarrow> int \<Rightarrow> bool) \<Rightarrow> string \<Rightarrow> ('q \<times> int \<times> time) list \<Rightarrow> time list" where
  "key_times key counted k as = map snd (key_arrivals key counted k as)"

definition key_limit :: "('q \<Rightarrow> string) \<Rightarrow> string \<Rightarrow> int \<Rightarrow> ('q \<times> int \<times> time) list \<Rightarrow> bool" where
  "key_limit key k limit as \<longleftrightarrow> list_all (\<lambda>(q, l, t). key q = k \<longrightarrow> l \<le> limit) as"

lemma key_limit_arrivals: "key_limit key k limit as \<Longrightarrow> \<forall>a \<in> set (key_arrivals key counted k as). fst a \<le> limit"
  by (fastforce simp: key_limit_def key_arrivals_def list_all_iff)

locale keyed_limiter = sliding_window step
  for step :: "time \<Rightarrow> int \<Rightarrow> time list \<Rightarrow> bool \<times> time list" +
  fixes serve :: "time \<Rightarrow> rate_limiters \<Rightarrow> 'q \<Rightarrow> int \<Rightarrow> bool \<times> rate_limiters"
    and key :: "'q \<Rightarrow> string"
    and counted :: "'q \<Rightarrow> int \<Rightarrow> bool"
  assumes serve_counted: "counted q limit \<Longrightarrow> serve now m q limit =
      (fst (step now limit (mget [] m (key q))), m(key q \<mapsto> snd (step now limit (mget [] m (key q)))))"
    and serve_uncounted: "\<not> counted q limit \<Longrightarrow> snd (serve now m q limit) = m"
begin

lemma keyed_admit_counted:
  assumes "key q = k" "counted q l"
  shows "(key_times key counted k (snd (keyed_admit serve st (q, l, t))), mget [] (fst (keyed_admit serve st (q, l, t))) k) =
    window_admit step (key_times key counted k (snd st), mget [] (fst st) k) (l, t)"
  using assms
  by (simp add: keyed_admit_def window_admit_def serve_counted split_beta Let_def key_times_def key_arrivals_def)

lemma keyed_admit_other:
  assumes "\<not> (key q = k \<and> counted q l)"
  shows "(key_times key counted k (snd (keyed_admit serve st (q, l, t))), mget [] (fst (keyed_admit serve st (q, l, t))) k) =
    (key_times key counted k (snd st), mget [] (fst st) k)"
  using assms
  by (cases "counted q l")
    (auto simp: keyed_admit_def serve_counted serve_uncounted split_beta Let_def key_times_def key_arrivals_def)

lemma keyed_projection:
  "(key_times key counted k (snd (foldl (keyed_admit serve) (Map.empty, []) as)),
    mget [] (fst (foldl (keyed_admit serve) (Map.empty, []) as)) k) =
   foldl (window_admit step) ([], []) (key_arrivals key counted k as)"
proof (induction as rule: rev_induct)
  case (snoc a as)
  obtain q l t where a: "a = (q, l, t)" by (cases a)
  show ?case
  proof (cases "key q = k \<and> counted q l")
    case True
    then have "key_arrivals key counted k (as @ [a]) = key_arrivals key counted k as @ [(l, t)]"
      by (simp add: a key_arrivals_def)
    with True snoc show ?thesis using keyed_admit_counted[of q k l] by (simp add: a)
  next
    case False
    then have "key_arrivals key counted k (as @ [a]) = key_arrivals key counted k as"
      by (auto simp: a key_arrivals_def)
    with snoc show ?thesis using keyed_admit_other[OF False] by (simp add: a)
  qed
qed (simp add: key_times_def key_arrivals_def)

lemma keyed_projections:
  "key_times key counted k (snd (foldl (keyed_admit serve) (Map.empty, []) as)) =
     fst (foldl (window_admit step) ([], []) (key_arrivals key counted k as))"
  "mget [] (fst (foldl (keyed_admit serve) (Map.empty, []) as)) k =
     snd (foldl (window_admit step) ([], []) (key_arrivals key counted k as))"
  using keyed_projection[of k as] by (metis fst_conv, metis snd_conv)

lemma keyed_window_bound:
  assumes "key_limit key k bound as" "0 \<le> bound" "sorted (key_times key counted k as)"
  shows "int (length (in_window w (key_times key counted k (snd (foldl (keyed_admit serve) (Map.empty, []) as))))) \<le> bound"
  using window_bound[OF assms(3)[unfolded key_times_def] assms(2) key_limit_arrivals[OF assms(1)]]
  by (simp add: keyed_projections)

lemma keyed_verdict:
  assumes "counted q limit" "sorted (key_times key counted (key q) as @ [now])"
  shows "fst (serve now (fst (foldl (keyed_admit serve) (Map.empty, []) as)) q limit) \<longleftrightarrow>
     limit \<le> int (length (filter (\<lambda>t. now - time_Minute < t)
       (key_times key counted (key q) (snd (foldl (keyed_admit serve) (Map.empty, []) as)))))"
  using window_exact[OF assms(2)[unfolded key_times_def]] assms(1)
  by (simp add: serve_counted keyed_projections)

end

section \<open>Both limiters satisfy the contract\<close>

interpretation proxy_window: sliding_window isRateLimited_local
  by unfold_locales (auto simp: isRateLimited_local_def Let_def split: if_splits)

text \<open>The admin limiter, seen at one key, is such a step too.\<close>

definition admin_step :: "time \<Rightarrow> int \<Rightarrow> time list \<Rightarrow> bool \<times> time list" where
  "admin_step now limit h =
     (let (b, m) = adminRateLimiter_Limit now [[] \<mapsto> h] [] limit in (b, mget [] m []))"

interpretation admin_window: sliding_window admin_step
  by unfold_locales (auto simp: admin_step_def adminRateLimiter_Limit_def Let_def split: if_splits)

lemma adminRateLimiter_Limit_step:
  "adminRateLimiter_Limit now hist ip limit =
     (fst (admin_step now limit (mget [] hist ip)), hist(ip \<mapsto> snd (admin_step now limit (mget [] hist ip))))"
  by (simp add: admin_step_def adminRateLimiter_Limit_def Let_def)

text \<open>
  A request of the proxy limiter carries what Redis does for it (no client, a pipeline that
  fails, or an answer), the client address and the route prefix. \<open>redis_answer\<close> is the
  answer that decides the request, if there is one; the histories decide the others, when
  they have a positive limit.
\<close>

type_synonym proxy_request = "redis_conn option \<times> string \<times> string"

definition redis_answer :: "redis_conn option \<Rightarrow> int option" where
  "redis_answer rd = (case rd of None \<Rightarrow> None | Some c \<Rightarrow> redis_zcard c)"

definition proxy_serve :: "time \<Rightarrow> rate_limiters \<Rightarrow> proxy_request \<Rightarrow> int \<Rightarrow> bool \<times> rate_limiters" where
  "proxy_serve now lims q limit =
     (case q of (rd, ip, pfx) \<Rightarrow> let (b, lims', _) = isRateLimited rd now lims ip pfx limit in (b, lims'))"

definition proxy_key :: "proxy_request \<Rightarrow> string" where
  "proxy_key q = (case q of (rd, ip, pfx) \<Rightarrow> rateLimit_key ip pfx)"

definition proxy_local :: "proxy_request \<Rightarrow> int \<Rightarrow> bool" where
  "proxy_local q limit \<longleftrightarrow> 0 < limit \<and> redis_answer (fst q) = None"

lemma isRateLimited_cases:
  "isRateLimited rd now lims ip pfx limit =
     (if limit \<le> 0 then (False, lims, [])
      else case redis_answer rd of
        Some n \<Rightarrow> (limit \<le> n, lims, snd (isRateLimited_redis (the rd) (rateLimit_key ip pfx) limit))
      | None \<Rightarrow> let (b, h) = isRateLimited_local now limit (mget [] lims (rateLimit_key ip pfx))
          in (b, lims(rateLimit_key ip pfx \<mapsto> h),
              case rd of None \<Rightarrow> [] | Some c \<Rightarrow> snd (isRateLimited_redis c (rateLimit_key ip pfx) limit)))"
  by (auto simp: isRateLimited_def isRateLimited_redis_def redis_answer_def Let_def split_beta split: option.splits)

interpretation proxy_limiter: keyed_limiter isRateLimited_local proxy_serve proxy_key proxy_local
  by unfold_locales
    (auto simp: proxy_serve_def proxy_key_def proxy_local_def isRateLimited_cases Let_def split_beta split: option.splits)

interpretation admin_limiter: keyed_limiter admin_step adminRateLimiter_Limit "\<lambda>ip. ip" "\<lambda>_ _. True"
  by unfold_locales (auto simp: adminRateLimiter_Limit_step)

section \<open>Properties\<close>

text \<open>C3: in every run of arrivals, whatever Redis does for each of them, take the arrivals of
  one key that the gateway decides itself: those that carry a positive limit and for which there
  is no Redis client or its pipeline fails (a limit of zero or less admits everything, and an
  answer of Redis is followed as it is). If these come in time order and no arrival of the key
  carries a limit above \<open>limit\<close> (0 or more), at most \<open>limit\<close> of them are admitted in any window of
  one minute, whatever the other keys and the other arrivals do.\<close>

theorem proxy_rate_limit_window:
  assumes "key_limit proxy_key k limit arrivals" and "0 \<le> limit"
    and "sorted (key_times proxy_key proxy_local k arrivals)"
  shows "int (length (in_window w (key_times proxy_key proxy_local k
    (snd (foldl (keyed_admit proxy_serve) (Map.empty, []) arrivals))))) \<le> limit"
  using assms by (rule proxy_limiter.keyed_window_bound)

theorem proxy_rate_limit_window_witness:
  "int (length (in_window (-1) (key_times proxy_key proxy_local (rateLimit_key ''ip'' ''/a'')
    (snd (foldl (keyed_admit proxy_serve) (Map.empty, [])
      [((None, ''ip'', ''/a''), 2, 0), ((None, ''ip'', ''/b''), 9, 1),
       ((Some \<lparr>redis_now = 2, redis_rand = 7, redis_zcard = None\<rparr>, ''ip'', ''/a''), 2, 2),
       ((Some \<lparr>redis_now = 2, redis_rand = 8, redis_zcard = Some 0\<rparr>, ''ip'', ''/a''), 2, 2),
       ((None, ''ip'', ''/a''), 1, 3)]))))) \<le> 2"
  by (rule proxy_rate_limit_window)
    (simp_all add: key_limit_def proxy_key_def rateLimit_key_def key_times_def key_arrivals_def proxy_local_def redis_answer_def)

text \<open>C15: after any run of arrivals, whatever Redis did for each of them, a request is refused
  exactly when its limit is positive and is reached by the count that decides it: the
  cardinality Redis answers, when it answers; otherwise (no client, or a failed pipeline) the
  number of admitted requests of its key in the minute before it, of those the gateway decided
  itself. The second case supposes that the arrivals of the key decided by the gateway and the
  request come in time order; the limits they carry may differ.\<close>

theorem proxy_rate_limit_exact:
  assumes "sorted (key_times proxy_key proxy_local (rateLimit_key ip pfx) arrivals @ [now])"
  shows "fst (isRateLimited rd now (fst (foldl (keyed_admit proxy_serve) (Map.empty, []) arrivals)) ip pfx limit) \<longleftrightarrow>
    0 < limit \<and>
    limit \<le> (case redis_answer rd of
        Some n \<Rightarrow> n
      | None \<Rightarrow> int (length (filter (\<lambda>t. now - time_Minute < t)
          (key_times proxy_key proxy_local (rateLimit_key ip pfx)
            (snd (foldl (keyed_admit proxy_serve) (Map.empty, []) arrivals))))))"
proof (cases "proxy_local (rd, ip, pfx) limit")
  case True
  have "proxy_key (rd, ip, pfx) = rateLimit_key ip pfx" by (simp add: proxy_key_def)
  moreover have "fst (proxy_serve now m (rd, ip, pfx) limit) = fst (isRateLimited rd now m ip pfx limit)" for m
    by (simp add: proxy_serve_def split_beta)
  ultimately show ?thesis
    using proxy_limiter.keyed_verdict[OF True, of arrivals now] assms True by (simp add: proxy_local_def)
next
  case False
  then show ?thesis by (auto simp: proxy_local_def isRateLimited_cases split: option.splits)
qed

theorem proxy_rate_limit_exact_witness:
  "fst (isRateLimited None 5 (fst (foldl (keyed_admit proxy_serve) (Map.empty, [])
     [((None, ''ip'', ''/a''), 1, 0)])) ''ip'' ''/a'' 1) \<longleftrightarrow>
   0 < (1::int) \<and>
   1 \<le> (case redis_answer None of Some n \<Rightarrow> n
     | None \<Rightarrow> int (length (filter (\<lambda>t. 5 - time_Minute < t)
         (key_times proxy_key proxy_local (rateLimit_key ''ip'' ''/a'')
           (snd (foldl (keyed_admit proxy_serve) (Map.empty, []) [((None, ''ip'', ''/a''), 1, 0)]))))))"
  by (rule proxy_rate_limit_exact)
    (simp add: key_times_def key_arrivals_def proxy_key_def proxy_local_def redis_answer_def)

text \<open>With Redis configured, an answer of the server decides alone and leaves the local
  histories untouched (a new member is added only when the request is admitted); when the
  server cannot be reached the verdict and the histories are those of the local limiter.\<close>

theorem isRateLimited_redis_cases:
  assumes "0 < limit"
  shows "case redis_zcard rd of
      Some n \<Rightarrow> \<exists>cmds. isRateLimited (Some rd) now lims ip pfx limit = (limit \<le> n, lims, cmds) \<and>
        (limit \<le> n \<longleftrightarrow> \<not> list_ex (\<lambda>c. case c of ZAdd _ _ _ \<Rightarrow> True | _ \<Rightarrow> False) cmds)
    | None \<Rightarrow> \<exists>cmds b lims'. isRateLimited (Some rd) now lims ip pfx limit = (b, lims', cmds) \<and>
        isRateLimited None now lims ip pfx limit = (b, lims', [])"
  using assms by (auto simp: isRateLimited_def isRateLimited_redis_def Let_def split_beta split: option.splits)

theorem isRateLimited_redis_cases_witness:
  "\<exists>cmds. isRateLimited (Some \<lparr>redis_now = 0, redis_rand = 7, redis_zcard = Some 3\<rparr>) 0 Map.empty ''ip'' ''/a'' 3 =
      (True, Map.empty, cmds)"
  using isRateLimited_redis_cases[of 3 "\<lparr>redis_now = 0, redis_rand = 7, redis_zcard = Some 3\<rparr>" 0 Map.empty "''ip''" "''/a''"]
  by auto

text \<open>The cardinality is read in one pipeline and the member added in a later one, so nothing
  orders the read of one request after the write of another: any number of requests that are
  all answered with a cardinality below the limit are all admitted, whatever that does to the
  bound of the window.\<close>

lemma redis_requests_all_admitted:
  assumes "list_all (\<lambda>c. redis_zcard c = Some (limit - 1)) conns"
  shows "list_all (\<lambda>c. \<not> fst (isRateLimited (Some c) now lims ip pfx limit)) conns"
  using assms by (auto simp: list_all_iff isRateLimited_cases redis_answer_def)

text \<open>The admin API's limiter has the same bound, per client address and endpoint.\<close>

theorem admin_rate_limit_window:
  assumes "key_limit (\<lambda>ip. ip) ip limit arrivals" and "0 \<le> limit"
    and "sorted (key_times (\<lambda>ip. ip) (\<lambda>_ _. True) ip arrivals)"
  shows "int (length (in_window w (key_times (\<lambda>ip. ip) (\<lambda>_ _. True) ip
    (snd (foldl (keyed_admit adminRateLimiter_Limit) (Map.empty, []) arrivals))))) \<le> limit"
  using assms by (rule admin_limiter.keyed_window_bound)

theorem admin_rate_limit_window_witness:
  "int (length (in_window (-1) (key_times (\<lambda>ip. ip) (\<lambda>_ _. True) ''10.0.0.1''
    (snd (foldl (keyed_admit adminRateLimiter_Limit) (Map.empty, []) [(''10.0.0.1'', 60, 0), (''10.0.0.1'', 60, 5)]))))) \<le> 60"
  by (rule admin_rate_limit_window) (simp_all add: key_limit_def key_times_def key_arrivals_def)

end
