(* ===== verification/Backpressure.thy ===== *)
theory Backpressure
  imports Prelude
begin

text \<open>
  \<^verbatim>\<open>BackpressureLimiter\<close> (pkg/proxy/handler.go): a semaphore channel bounds the
  requests in flight on a route, a queue channel bounds the requests that wait for a slot.
  A channel of empty structs is its capacity and its number of buffered elements. One
  call of \<^verbatim>\<open>Acquire\<close> with the later call of the release function it returns runs
  through the phases of \<open>acquire_phase\<close>; \<open>acquire_step\<close> is the channel operation that
  leaves a phase, and \<open>limiter_step\<close> interleaves the calls of any number of goroutines.
\<close>

section \<open>State and operations\<close>

record BackpressureLimiter =
  sem_cap :: nat
  sem_len :: nat
  queue_cap :: nat
  queue_len :: nat
  bp_timeout :: duration

text \<open>
  \<^verbatim>\<open>make(chan struct{}, n)\<close> panics when \<open>n\<close> is negative. The result \<open>Inr None\<close>
  is the nil pointer, returned when no limit is configured.
\<close>

definition NewBackpressureLimiter :: "int \<Rightarrow> int \<Rightarrow> int \<Rightarrow> go_panic + BackpressureLimiter option" where
  "NewBackpressureLimiter maxConcurrent maxQueue timeoutMs =
     (if maxConcurrent \<le> 0 then Inr None
      else
        let timeout = (if 0 < timeoutMs then wrap64 (timeoutMs * time_Millisecond) else 5000 * time_Millisecond)
        in if maxQueue < 0 then Inl MakeChanSize
           else Inr (Some \<lparr>sem_cap = nat maxConcurrent, sem_len = 0, queue_cap = nat maxQueue, queue_len = 0,
                           bp_timeout = timeout\<rparr>))"

datatype acquire_error = QueueTimeout | QueueFull | CtxDone

text \<open>
  \<open>Start\<close>: about to try the semaphore. \<open>Tried\<close>: found it full, about to try the queue.
  \<open>Waiting\<close>: enqueued, in the second \<^verbatim>\<open>select\<close>. \<open>Leaving r\<close>: the second
  \<^verbatim>\<open>select\<close> has chosen, the deferred receive from the queue is due. \<open>Holding\<close>: the
  call returned a release function that has not been called. \<open>Failed\<close>: the call returned
  an error. \<open>Released\<close>: the release function has run.
\<close>

datatype acquire_phase =
    Start
  | Tried
  | Waiting
  | Leaving "acquire_error option"
  | Holding
  | Failed acquire_error
  | Released

datatype acquire_event = TrySem | TryQueue | GetSlot | TimerFires | CtxCancelled | LeaveQueue | CallRelease

fun acquire_step ::
  "BackpressureLimiter \<Rightarrow> acquire_phase \<Rightarrow> acquire_event \<Rightarrow> (BackpressureLimiter \<times> acquire_phase) option" where
  "acquire_step l Start TrySem =
     (if sem_len l < sem_cap l then Some (l\<lparr>sem_len := sem_len l + 1\<rparr>, Holding) else Some (l, Tried))"
| "acquire_step l Tried TryQueue =
     (if queue_len l < queue_cap l then Some (l\<lparr>queue_len := queue_len l + 1\<rparr>, Waiting)
      else Some (l, Failed QueueFull))"
| "acquire_step l Waiting GetSlot =
     (if sem_len l < sem_cap l then Some (l\<lparr>sem_len := sem_len l + 1\<rparr>, Leaving None) else None)"
| "acquire_step l Waiting TimerFires = Some (l, Leaving (Some QueueTimeout))"
| "acquire_step l Waiting CtxCancelled = Some (l, Leaving (Some CtxDone))"
| "acquire_step l (Leaving r) LeaveQueue =
     (if 0 < queue_len l
      then Some (l\<lparr>queue_len := queue_len l - 1\<rparr>, case r of None \<Rightarrow> Holding | Some e \<Rightarrow> Failed e)
      else None)"
| "acquire_step l Holding CallRelease =
     (if 0 < sem_len l then Some (l\<lparr>sem_len := sem_len l - 1\<rparr>, Released) else None)"
| "acquire_step l p e = None"

text \<open>The response of \<^verbatim>\<open>ServeHTTP\<close> to a failed \<^verbatim>\<open>Acquire\<close>: status and error code.\<close>

definition acquire_error_status :: "acquire_error \<Rightarrow> int \<times> string" where
  "acquire_error_status e =
     (if e = QueueFull then (429, ''ERR_QUEUE_FULL'') else (503, ''ERR_BACKPRESSURE_TIMEOUT''))"

section \<open>Interleavings\<close>

record limiter_sys =
  bp_lim :: BackpressureLimiter
  bp_calls :: "acquire_phase list"

inductive limiter_step :: "limiter_sys \<Rightarrow> limiter_sys \<Rightarrow> bool" where
  arrive: "limiter_step s (s\<lparr>bp_calls := bp_calls s @ [Start]\<rparr>)"
| move: "i < length (bp_calls s) \<Longrightarrow> acquire_step (bp_lim s) (bp_calls s ! i) e = Some (l', p') \<Longrightarrow>
    limiter_step s (s\<lparr>bp_lim := l', bp_calls := (bp_calls s)[i := p']\<rparr>)"

inductive limiter_reach :: "BackpressureLimiter \<Rightarrow> limiter_sys \<Rightarrow> bool" for l0 where
  init: "limiter_reach l0 \<lparr>bp_lim = l0, bp_calls = []\<rparr>"
| step: "limiter_reach l0 s \<Longrightarrow> limiter_step s t \<Longrightarrow> limiter_reach l0 t"

definition has_slot :: "acquire_phase \<Rightarrow> bool" where
  "has_slot p \<longleftrightarrow> p = Holding \<or> p = Leaving None"

fun in_queue :: "acquire_phase \<Rightarrow> bool" where
  "in_queue Waiting = True"
| "in_queue (Leaving _) = True"
| "in_queue _ = False"

definition phase_count :: "(acquire_phase \<Rightarrow> bool) \<Rightarrow> acquire_phase list \<Rightarrow> nat" where
  "phase_count P ps = length (filter P ps)"

text \<open>The channels hold exactly one element per call that occupies them.\<close>

definition limiter_inv :: "BackpressureLimiter \<Rightarrow> limiter_sys \<Rightarrow> bool" where
  "limiter_inv l0 s \<longleftrightarrow>
     sem_cap (bp_lim s) = sem_cap l0 \<and> queue_cap (bp_lim s) = queue_cap l0 \<and>
     sem_len (bp_lim s) = phase_count has_slot (bp_calls s) \<and> sem_len (bp_lim s) \<le> sem_cap l0 \<and>
     queue_len (bp_lim s) = phase_count in_queue (bp_calls s) \<and> queue_len (bp_lim s) \<le> queue_cap l0"

lemma phase_count_snoc [simp]: "phase_count P (ps @ [p]) = phase_count P ps + (if P p then 1 else 0)"
  by (simp add: phase_count_def)

lemma phase_count_update:
  "i < length ps \<Longrightarrow> phase_count P (ps[i := p]) + (if P (ps ! i) then 1 else 0) = phase_count P ps + (if P p then 1 else 0)"
proof (induction ps arbitrary: i)
  case (Cons a ps)
  then show ?case by (cases i) (auto simp: phase_count_def)
qed simp

lemma acquire_step_effect:
  assumes "acquire_step l p e = Some (l', p')"
  shows "sem_cap l' = sem_cap l" "queue_cap l' = queue_cap l"
    "sem_len l' + (if has_slot p then 1 else 0) = sem_len l + (if has_slot p' then 1 else 0)"
    "queue_len l' + (if in_queue p then 1 else 0) = queue_len l + (if in_queue p' then 1 else 0)"
    "sem_len l \<le> sem_cap l \<Longrightarrow> sem_len l' \<le> sem_cap l'"
    "queue_len l \<le> queue_cap l \<Longrightarrow> queue_len l' \<le> queue_cap l'"
  using assms
  by (cases "(l, p, e)" rule: acquire_step.cases;
      auto simp: has_slot_def split: if_splits option.splits)+

lemma limiter_step_inv:
  assumes "limiter_step s t" "limiter_inv l0 s"
  shows "limiter_inv l0 t"
  using assms(1)
proof (cases rule: limiter_step.cases)
  case arrive
  with assms(2) show ?thesis by (simp add: limiter_inv_def has_slot_def)
next
  case (move i e l' p')
  let ?ps = "bp_calls s" and ?l = "bp_lim s"
  have "phase_count has_slot (?ps[i := p']) = sem_len l'" "phase_count in_queue (?ps[i := p']) = queue_len l'"
    using phase_count_update[OF move(2), of has_slot p'] phase_count_update[OF move(2), of in_queue p']
      acquire_step_effect(3,4)[OF move(3)] assms(2) by (auto simp: limiter_inv_def)
  with acquire_step_effect(1,2,5,6)[OF move(3)] assms(2) move(1) show ?thesis
    by (auto simp: limiter_inv_def)
qed

lemma limiter_reach_inv:
  assumes "limiter_reach l0 s" "sem_len l0 = 0" "queue_len l0 = 0"
  shows "limiter_inv l0 s"
  using assms(1)
proof (induction rule: limiter_reach.induct)
  case init
  with assms(2,3) show ?case by (simp add: limiter_inv_def phase_count_def)
next
  case (step s t)
  then show ?case by (blast intro: limiter_step_inv)
qed

lemma New_empty:
  "NewBackpressureLimiter mc mq tm = Inr (Some l) \<Longrightarrow>
     sem_len l = 0 \<and> queue_len l = 0 \<and> int (sem_cap l) = mc \<and> int (queue_cap l) = mq \<and> 0 < mc"
  by (auto simp: NewBackpressureLimiter_def Let_def split: if_splits)

lemma phase_count_mono: "(\<And>p. P p \<Longrightarrow> Q p) \<Longrightarrow> phase_count P ps \<le> phase_count Q ps"
  unfolding phase_count_def by (induction ps) auto

lemma phase_count_pos: "p \<in> set ps \<Longrightarrow> P p \<Longrightarrow> 0 < phase_count P ps"
  by (auto simp: phase_count_def filter_empty_conv)

section \<open>Properties\<close>

text \<open>C4: whatever the interleaving of arrivals, timeouts, cancellations and releases, a
  limiter built from a route's configuration never has more than
  \<^verbatim>\<open>MaxConcurrentRequests\<close> requests holding a slot nor more than
  \<^verbatim>\<open>MaxQueueSize\<close> requests waiting.\<close>

theorem limiter_bounds:
  assumes "NewBackpressureLimiter maxConcurrent maxQueue timeoutMs = Inr (Some l)"
    and "limiter_reach l s"
  shows "int (phase_count (\<lambda>p. p = Holding) (bp_calls s)) \<le> maxConcurrent \<and>
         int (phase_count (\<lambda>p. p = Waiting) (bp_calls s)) \<le> maxQueue"
proof -
  note new = New_empty[OF assms(1)]
  then have inv: "limiter_inv l s" by (intro limiter_reach_inv[OF assms(2)]) auto
  have "phase_count (\<lambda>p. p = Holding) (bp_calls s) \<le> phase_count has_slot (bp_calls s)"
    by (rule phase_count_mono) (simp add: has_slot_def)
  moreover have "phase_count (\<lambda>p. p = Waiting) (bp_calls s) \<le> phase_count in_queue (bp_calls s)"
    by (rule phase_count_mono) simp
  ultimately show ?thesis using inv new by (auto simp: limiter_inv_def)
qed

theorem limiter_bounds_witness:
  "\<exists>l s. NewBackpressureLimiter 1 1 0 = Inr (Some l) \<and> limiter_reach l s \<and> bp_calls s = [Holding, Tried] \<and>
     int (phase_count (\<lambda>p. p = Holding) (bp_calls s)) \<le> 1 \<and> int (phase_count (\<lambda>p. p = Waiting) (bp_calls s)) \<le> 1"
proof -
  let ?l = "\<lparr>sem_cap = 1, sem_len = 0, queue_cap = 1, queue_len = 0, bp_timeout = 5000 * time_Millisecond\<rparr>"
  let ?s0 = "\<lparr>bp_lim = ?l, bp_calls = []\<rparr>"
  let ?s2 = "?s0\<lparr>bp_calls := [Start, Start]\<rparr>"
  let ?s3 = "?s2\<lparr>bp_lim := ?l\<lparr>sem_len := 1\<rparr>, bp_calls := [Holding, Start]\<rparr>"
  let ?s4 = "?s3\<lparr>bp_calls := [Holding, Tried]\<rparr>"
  have new: "NewBackpressureLimiter 1 1 0 = Inr (Some ?l)" by (simp add: NewBackpressureLimiter_def)
  have s1: "limiter_reach ?l (?s0\<lparr>bp_calls := [Start]\<rparr>)"
    using limiter_reach.step[OF limiter_reach.init limiter_step.arrive, of ?l] by simp
  have s2: "limiter_reach ?l ?s2"
    using limiter_reach.step[OF s1 limiter_step.arrive] by simp
  have s3: "limiter_reach ?l ?s3"
    using limiter_reach.step[OF s2 limiter_step.move[of 0 ?s2 TrySem "?l\<lparr>sem_len := 1\<rparr>" Holding]] by simp
  have s4: "limiter_reach ?l ?s4"
    using limiter_reach.step[OF s3 limiter_step.move[of 1 ?s3 TrySem "?l\<lparr>sem_len := 1\<rparr>" Tried]] by simp
  show ?thesis
  proof (intro exI conjI)
    show "NewBackpressureLimiter 1 1 0 = Inr (Some ?l)" by (rule new)
    show "limiter_reach ?l ?s4" by (rule s4)
    show "bp_calls ?s4 = [Holding, Tried]" by simp
    show "int (phase_count (\<lambda>p. p = Holding) (bp_calls ?s4)) \<le> 1"
      using limiter_bounds[OF new s4] by simp
    show "int (phase_count (\<lambda>p. p = Waiting) (bp_calls ?s4)) \<le> 1"
      using limiter_bounds[OF new s4] by simp
  qed
qed

text \<open>C14: no call gets stuck. In every reachable state each call that has not finished has
  an enabled step; in particular the receive in the release function and the deferred
  receive from the queue never block.\<close>

theorem limiter_progress:
  assumes "NewBackpressureLimiter maxConcurrent maxQueue timeoutMs = Inr (Some l)"
    and "limiter_reach l s" and "p \<in> set (bp_calls s)" and "p \<noteq> Released" and "\<forall>e. p \<noteq> Failed e"
  shows "\<exists>e r. acquire_step (bp_lim s) p e = Some r"
proof -
  have inv: "limiter_inv l s"
    using limiter_reach_inv[OF assms(2)] New_empty[OF assms(1)] by simp
  show ?thesis
  proof (cases p)
    case Start
    then show ?thesis by (intro exI[of _ TrySem]) simp
  next
    case Tried
    then show ?thesis by (intro exI[of _ TryQueue]) simp
  next
    case Waiting
    then show ?thesis by (intro exI[of _ TimerFires]) simp
  next
    case (Leaving r)
    with inv phase_count_pos[OF assms(3), of in_queue] show ?thesis
      by (intro exI[of _ LeaveQueue]) (simp add: limiter_inv_def)
  next
    case Holding
    with inv phase_count_pos[OF assms(3), of has_slot] show ?thesis
      by (intro exI[of _ CallRelease]) (simp add: limiter_inv_def has_slot_def)
  qed (use assms in auto)
qed

theorem limiter_progress_witness:
  "\<exists>l e r. NewBackpressureLimiter 1 1 0 = Inr (Some l) \<and> acquire_step l Start e = Some r"
proof -
  let ?l = "\<lparr>sem_cap = 1, sem_len = 0, queue_cap = 1, queue_len = 0, bp_timeout = 5000 * time_Millisecond\<rparr>"
  have new: "NewBackpressureLimiter 1 1 0 = Inr (Some ?l)" by (simp add: NewBackpressureLimiter_def)
  have "limiter_reach ?l \<lparr>bp_lim = ?l, bp_calls = [Start]\<rparr>"
    using limiter_reach.step[OF limiter_reach.init limiter_step.arrive, of ?l] by simp
  from limiter_progress[OF new this, of Start] new show ?thesis by (intro exI[of _ ?l]) auto
qed

end
