(* ===== verification/Float64.thy ===== *)
theory Float64
  imports Complex_Main Prelude
begin

text \<open>
  Go's \<^verbatim>\<open>float64\<close>, as far as the gateway computes with it: a value is the rational
  number it denotes, and the result of an operation is the exact result rounded to the
  nearest number with a 53-bit significand, ties to the even significand. Overflow to
  infinity and the subnormal range are left out: the values the gateway forms (counts,
  rates, percentile indices, numbers of JSON documents) stay in the normal range.
\<close>

function bit_len :: "int \<Rightarrow> int" where
  "bit_len i = (if i \<le> 0 then 0 else bit_len (i div 2) + 1)"
  by pat_completeness auto
termination
  by (relation "measure nat") auto

declare bit_len.simps [simp del]

definition pow2 :: "int \<Rightarrow> rat" where
  "pow2 e = (if 0 \<le> e then 2 ^ nat e else 1 / 2 ^ nat (- e))"

definition round_half_even :: "rat \<Rightarrow> int" where
  "round_half_even m =
     (let f = \<lfloor>m\<rfloor>; d = m - of_int f
      in if d < 1 / 2 then f else if 1 / 2 < d then f + 1 else if even f then f else f + 1)"

definition f64_exp :: "rat \<Rightarrow> int" where
  "f64_exp x =
     (let (a, b) = quotient_of x; k = bit_len a - bit_len b
      in (if pow2 k \<le> x then k else k - 1) - 52)"

definition f64_round :: "rat \<Rightarrow> rat" where
  "f64_round x =
     (if x = 0 then 0
      else let e = f64_exp \<bar>x\<bar> in sgn x * of_int (round_half_even (\<bar>x\<bar> / pow2 e)) * pow2 e)"

definition f64_of_int :: "int \<Rightarrow> rat" where
  "f64_of_int i = f64_round (of_int i)"

definition f64_mul :: "rat \<Rightarrow> rat \<Rightarrow> rat" where
  "f64_mul a b = f64_round (a * b)"

definition f64_div :: "rat \<Rightarrow> rat \<Rightarrow> rat" where
  "f64_div a b = f64_round (a / b)"

text \<open>Conversion of a float to \<^verbatim>\<open>int\<close> drops the fraction.\<close>

definition f64_trunc :: "rat \<Rightarrow> int" where
  "f64_trunc x = (if 0 \<le> x then \<lfloor>x\<rfloor> else - \<lfloor>- x\<rfloor>)"

lemma pow2_pos [simp]: "0 < pow2 e"
  by (simp add: pow2_def)

lemma round_half_even_int [simp]: "round_half_even (of_int i) = i"
  by (simp add: round_half_even_def)

lemma f64_round_0 [simp]: "f64_round 0 = 0"
  by (simp add: f64_round_def)

lemma f64_of_int_0 [simp]: "f64_of_int 0 = 0"
  by (simp add: f64_of_int_def)

lemma f64_round_nonneg: "0 \<le> x \<Longrightarrow> 0 \<le> f64_round x"
  by (simp add: f64_round_def Let_def round_half_even_def zero_le_mult_iff less_imp_le)

text \<open>Rounding keeps the sign and moves a value by at most half a unit of its last place.\<close>

lemma round_half_even_close: "\<bar>of_int (round_half_even m) - m\<bar> \<le> 1 / 2"
  unfolding round_half_even_def Let_def by (auto simp: abs_if floor_correct) linarith+

lemma f64_round_error: "\<bar>f64_round x - x\<bar> \<le> pow2 (f64_exp \<bar>x\<bar>) / 2"
proof (cases "x = 0")
  case False
  let ?p = "pow2 (f64_exp \<bar>x\<bar>)" and ?m = "\<bar>x\<bar> / pow2 (f64_exp \<bar>x\<bar>)"
  have "x = sgn x * ?p * ?m"
    by (simp add: sgn_mult_abs less_imp_neq[OF pow2_pos, symmetric])
  moreover have "f64_round x = sgn x * ?p * of_int (round_half_even ?m)"
    using False by (simp add: f64_round_def Let_def mult_ac)
  ultimately have "f64_round x - x = sgn x * ?p * (of_int (round_half_even ?m) - ?m)"
    by (metis right_diff_distrib)
  then have "\<bar>f64_round x - x\<bar> = ?p * \<bar>of_int (round_half_even ?m) - ?m\<bar>"
    using False by (simp add: abs_mult abs_of_pos[OF pow2_pos])
  also have "\<dots> \<le> ?p * (1 / 2)"
    using round_half_even_close[of ?m] by (intro mult_left_mono) (auto simp: less_imp_le)
  finally show ?thesis by simp
qed (simp add: less_imp_le)

text \<open>The exponent is the one of the leading bit, so the relative error is at most \<open>1 / 2 ^ 53\<close>.\<close>

lemma pow2_add: "pow2 (e + f) = pow2 e * pow2 f"
proof -
  have pi: "pow2 e = power_int 2 e" for e
    by (simp add: pow2_def power_int_def field_simps)
  show ?thesis by (simp add: pi power_int_add)
qed

lemma pow2_mono: "e \<le> f \<Longrightarrow> pow2 e \<le> pow2 f"
  using pow2_add[of e "f - e"] by (simp add: pow2_def[of "f - e"])

lemma bit_len_nonneg: "0 \<le> bit_len i"
  by (induction i rule: bit_len.induct) (subst bit_len.simps, simp)

lemma bit_len_bounds: "0 < i \<Longrightarrow> pow2 (bit_len i - 1) \<le> of_int i \<and> of_int i < pow2 (bit_len i)"
proof (induction i rule: bit_len.induct)
  case (1 i)
  have eq: "bit_len i = bit_len (i div 2) + 1"
    using "1.prems" by (subst bit_len.simps) simp
  show ?case
  proof (cases "i = 1")
    case True
    have "bit_len i = 1" by (simp add: True bit_len.simps)
    then show ?thesis by (simp add: True pow2_def)
  next
    case False
    with "1.prems" have "0 < i div 2" by simp
    with "1.IH" "1.prems" have IH: "pow2 (bit_len (i div 2) - 1) \<le> of_int (i div 2)"
      "of_int (i div 2) < pow2 (bit_len (i div 2))" by auto
    have "0 \<le> bit_len (i div 2)" by (rule bit_len_nonneg)
    then have int: "pow2 (bit_len (i div 2)) = of_int (2 ^ nat (bit_len (i div 2)))"
      by (simp add: pow2_def)
    with IH(2) have "i div 2 < 2 ^ nat (bit_len (i div 2))"
      by (metis of_int_less_iff)
    then have "i < 2 * 2 ^ nat (bit_len (i div 2))" by linarith
    then have "(of_int i :: rat) < of_int (2 * 2 ^ nat (bit_len (i div 2)))"
      by (simp only: of_int_less_iff)
    then have "of_int i < pow2 (bit_len i)"
      using int pow2_add[of "bit_len (i div 2)" 1] by (simp add: eq pow2_def[of 1])
    moreover have "pow2 (bit_len i - 1) = 2 * pow2 (bit_len (i div 2) - 1)"
      using pow2_add[of "bit_len (i div 2) - 1" 1] by (simp add: eq pow2_def[of 1])
    moreover have "(2 :: rat) * of_int (i div 2) \<le> of_int i"
    proof -
      have "2 * (i div 2) \<le> i" by linarith
      then have "(of_int (2 * (i div 2)) :: rat) \<le> of_int i" by (simp only: of_int_le_iff)
      then show ?thesis by simp
    qed
    ultimately show ?thesis using IH(1) by linarith
  qed
qed

lemma f64_exp_le:
  assumes "0 < x"
  shows "pow2 (f64_exp x + 52) \<le> x"
proof -
  obtain a b where q: "quotient_of x = (a, b)" by (cases "quotient_of x")
  have b: "0 < b" and x: "x = of_int a / of_int b"
    using quotient_of_denom_pos[OF q] quotient_of_div[OF q] by auto
  with assms have a: "0 < a" by (simp add: zero_less_divide_iff)
  let ?k = "bit_len a - bit_len b"
  have "pow2 (?k - 1) * of_int b \<le> pow2 (?k - 1) * pow2 (bit_len b)"
    using bit_len_bounds[OF b] by (intro mult_left_mono) (auto simp: less_imp_le)
  also have "\<dots> = pow2 (bit_len a - 1)" by (simp flip: pow2_add)
  also have "\<dots> \<le> of_int a" using bit_len_bounds[OF a] by simp
  finally have "pow2 (?k - 1) \<le> x" using b by (simp add: x pos_le_divide_eq)
  then show ?thesis by (auto simp: f64_exp_def q Let_def)
qed

theorem f64_round_rel_error: "\<bar>f64_round x - x\<bar> \<le> \<bar>x\<bar> / 2 ^ 53"
proof (cases "x = 0")
  case False
  have "pow2 (f64_exp \<bar>x\<bar>) * 2 ^ 52 = pow2 (f64_exp \<bar>x\<bar> + 52)"
    by (simp add: pow2_add pow2_def[of 52])
  also have "\<dots> \<le> \<bar>x\<bar>" using False by (intro f64_exp_le) simp
  finally have "pow2 (f64_exp \<bar>x\<bar>) / 2 \<le> \<bar>x\<bar> / 2 ^ 53" by simp
  with f64_round_error[of x] show ?thesis by linarith
qed simp

lemma f64_of_int_exact:
  assumes "\<bar>i\<bar> < 2 ^ 53"
  shows "f64_of_int i = of_int i"
proof (cases "i = 0")
  case False
  let ?x = "of_int \<bar>i\<bar> :: rat" and ?e = "f64_exp (of_int \<bar>i\<bar>)"
  have "pow2 (?e + 52) \<le> ?x" using False by (intro f64_exp_le) simp
  also have "?x < of_int (2 ^ 53)" using assms by (simp only: of_int_less_iff)
  also have "\<dots> = pow2 53" by (simp add: pow2_def)
  finally have "?e + 52 < 53" using pow2_mono[of 53 "?e + 52"] by linarith
  then have "?e \<le> 0" by simp
  then have "?x / pow2 ?e = of_int (\<bar>i\<bar> * 2 ^ nat (- ?e))" by (auto simp: pow2_def)
  then have "of_int (round_half_even (?x / pow2 ?e)) = ?x / pow2 ?e"
    by (simp only: round_half_even_int)
  moreover have "pow2 ?e \<noteq> 0" by (simp add: less_imp_neq[OF pow2_pos, symmetric])
  ultimately have "f64_round (of_int i) = sgn (of_int i) * ?x"
    using False by (simp add: f64_round_def Let_def)
  then show ?thesis by (simp add: f64_of_int_def sgn_mult_abs)
qed simp

end
