(* ===== verification/Circuit_Breaker.thy ===== *)
theory Circuit_Breaker
  imports Float64
begin

text \<open>
  The circuit breaker of a backend target (pkg/proxy/handler.go, the part CD.85): closed,
  open and half-open states, the last fifty latencies, and a p99 check against the target's
  SLO. The clock readings of a call are arguments. \<open>cb_step\<close> runs one call and
  \<open>cb_run\<close> a sequence of calls, in the order in which they take the breaker's mutex.
\<close>

section \<open>State and operations\<close>

datatype CircuitState = StateClosed | StateOpen | StateHalfOpen

record CircuitBreaker =
  cb_state :: CircuitState
  latencies :: "duration list"
  successCount :: int
  lastStateChange :: time
  sloThreshold :: duration

text \<open>Go's zero \<^verbatim>\<open>time.Time\<close> is the start of year 1.\<close>

definition zero_time :: time where
  "zero_time = - 62135596800 * time_Second"

definition NewCircuitBreaker :: "duration \<Rightarrow> CircuitBreaker" where
  "NewCircuitBreaker slo =
     \<lparr>cb_state = StateClosed, latencies = [], successCount = 0, lastStateChange = zero_time, sloThreshold = slo\<rparr>"

text \<open>
  \<open>t1\<close> is the clock of \<^verbatim>\<open>time.Since\<close>, \<open>t2\<close> the one of the following
  \<^verbatim>\<open>time.Now\<close>.
\<close>

definition Allow :: "time \<Rightarrow> time \<Rightarrow> CircuitBreaker \<Rightarrow> bool \<times> CircuitBreaker" where
  "Allow t1 t2 cb =
     (case cb_state cb of
        StateClosed \<Rightarrow> (True, cb)
      | StateOpen \<Rightarrow>
          if 5 * time_Second < time_Sub t1 (lastStateChange cb)
          then (True, cb\<lparr>cb_state := StateHalfOpen, lastStateChange := t2, successCount := 0\<rparr>)
          else (False, cb)
      | StateHalfOpen \<Rightarrow> (True, cb))"

definition f64_0_99 :: rat where
  "f64_0_99 = f64_round (99 / 100)"

definition calculateP99 :: "duration list \<Rightarrow> go_panic + duration" where
  "calculateP99 ls =
     (let sorted_ls = sort ls;
          n = int (length sorted_ls);
          idx = f64_trunc (f64_mul (f64_of_int n) f64_0_99);
          idx = (if n \<le> idx then n - 1 else idx)
      in if 0 \<le> idx \<and> idx < n then Inr (sorted_ls ! nat idx) else Inl IndexOutOfRange)"

definition RecordRequest :: "time \<Rightarrow> duration \<Rightarrow> bool \<Rightarrow> CircuitBreaker \<Rightarrow> go_panic + CircuitBreaker" where
  "RecordRequest now dur success cb =
     (if \<not> success then Inr (cb\<lparr>cb_state := StateOpen, lastStateChange := now\<rparr>)
      else
        let ls = latencies cb @ [dur];
            ls = (if 50 < length ls then tl ls else ls);
            cb = cb\<lparr>latencies := ls\<rparr>
        in if cb_state cb = StateHalfOpen then
             let cb = cb\<lparr>successCount := successCount cb + 1\<rparr>
             in Inr (if dur \<le> sloThreshold cb \<and> 3 \<le> successCount cb
                     then cb\<lparr>cb_state := StateClosed, latencies := [], lastStateChange := now\<rparr>
                     else if sloThreshold cb < dur
                     then cb\<lparr>cb_state := StateOpen, lastStateChange := now\<rparr>
                     else cb)
           else if cb_state cb = StateClosed \<and> 5 \<le> length (latencies cb) then
             (case calculateP99 (latencies cb) of
                Inl p \<Rightarrow> Inl p
              | Inr p99 \<Rightarrow>
                  Inr (if sloThreshold cb < p99
                       then cb\<lparr>cb_state := StateOpen, lastStateChange := now\<rparr> else cb))
           else Inr cb)"

section \<open>Runs\<close>

datatype cb_event = EvAllow time time | EvRecord time duration bool

fun event_time :: "cb_event \<Rightarrow> time" where
  "event_time (EvAllow t1 t2) = t1"
| "event_time (EvRecord t d s) = t"

text \<open>A step answers the verdict of \<^verbatim>\<open>Allow\<close>; a record answers nothing.\<close>

fun cb_step :: "CircuitBreaker \<Rightarrow> cb_event \<Rightarrow> go_panic + bool option \<times> CircuitBreaker" where
  "cb_step cb (EvAllow t1 t2) = Inr (map_prod Some id (Allow t1 t2 cb))"
| "cb_step cb (EvRecord t d s) =
     (case RecordRequest t d s cb of Inl p \<Rightarrow> Inl p | Inr cb' \<Rightarrow> Inr (None, cb'))"

fun cb_run :: "CircuitBreaker \<Rightarrow> cb_event list \<Rightarrow> go_panic + bool list \<times> CircuitBreaker" where
  "cb_run cb [] = Inr ([], cb)"
| "cb_run cb (e # es) =
     (case cb_step cb e of
        Inl p \<Rightarrow> Inl p
      | Inr (v, cb') \<Rightarrow>
          (case cb_run cb' es of
             Inl p \<Rightarrow> Inl p
           | Inr (vs, cb'') \<Rightarrow> Inr (case v of None \<Rightarrow> vs | Some b \<Rightarrow> b # vs, cb'')))"

definition latencies_bounded :: "CircuitBreaker \<Rightarrow> bool" where
  "latencies_bounded cb \<longleftrightarrow> length (latencies cb) \<le> 50"

section \<open>The p99 of a bounded sample is its maximum\<close>

lemma f64_0_99_close: "\<bar>f64_0_99 - 99 / 100\<bar> \<le> 1 / 2 ^ 53"
  using f64_round_rel_error[of "99 / 100"] unfolding f64_0_99_def by simp

lemma p99_index:
  assumes "1 \<le> n" "n \<le> (50 :: int)"
  shows "f64_trunc (f64_mul (f64_of_int n) f64_0_99) = n - 1"
proof -
  have n: "f64_of_int n = of_int n" using assms by (intro f64_of_int_exact) simp
  let ?y = "of_int n * f64_0_99" and ?x = "f64_mul (f64_of_int n) f64_0_99"
  have nr: "1 \<le> (of_int n :: rat)" "(of_int n :: rat) \<le> 50" using assms by simp_all
  have "?y - of_int n * (99 / 100) = of_int n * (f64_0_99 - 99 / 100)"
    by (simp only: right_diff_distrib)
  then have "\<bar>?y - of_int n * (99 / 100)\<bar> = of_int n * \<bar>f64_0_99 - 99 / 100\<bar>"
    using nr by (simp add: abs_mult)
  also have "\<dots> \<le> 50 * (1 / 2 ^ 53)"
    using f64_0_99_close nr by (intro mult_mono) auto
  finally have y: "\<bar>?y - of_int n * (99 / 100)\<bar> \<le> 1 / 1000" by simp
  then have "\<bar>?y\<bar> \<le> 50" using nr by linarith
  moreover have "\<bar>?x - ?y\<bar> \<le> \<bar>?y\<bar> / 2 ^ 53"
    using f64_round_rel_error[of ?y] by (simp add: f64_mul_def n)
  ultimately have "\<bar>?x - ?y\<bar> \<le> 1 / 1000" by simp
  with y have "of_int n - 1 \<le> ?x" "?x < of_int n" using nr by linarith+
  then have "\<lfloor>?x\<rfloor> = n - 1" "0 \<le> ?x" using assms nr by (simp_all add: floor_eq_iff)
  then show ?thesis by (simp add: f64_trunc_def)
qed

lemma sort_last_Max: "ls \<noteq> [] \<Longrightarrow> sort ls ! (length ls - 1) = Max (set ls)"
proof -
  assume ne: "ls \<noteq> []"
  have "\<And>x. x \<in> set ls \<Longrightarrow> x \<le> sort ls ! (length ls - 1)"
  proof -
    fix x assume "x \<in> set ls"
    then obtain i where "i < length ls" "sort ls ! i = x"
      by (metis in_set_conv_nth length_sort set_sort)
    then show "x \<le> sort ls ! (length ls - 1)"
      by (metis Suc_pred' diff_less length_greater_0_conv length_sort less_Suc_eq_le less_numeral_extra(1) ne
          sorted_nth_mono sorted_sort)
  qed
  moreover have "sort ls ! (length ls - 1) \<in> set ls"
    using ne by (metis diff_less length_greater_0_conv length_sort nth_mem set_sort zero_less_one)
  ultimately show ?thesis by (intro Max_eqI[symmetric]) auto
qed

lemma calculateP99_Max:
  assumes "ls \<noteq> []" "length ls \<le> 50"
  shows "calculateP99 ls = Inr (Max (set ls))"
proof -
  have "1 \<le> int (length ls)" "int (length ls) \<le> 50" using assms by (simp_all add: Suc_le_eq)
  note p99_index[OF this]
  then show ?thesis
    using assms sort_last_Max[OF assms(1)]
    by (simp add: calculateP99_def Let_def nat_diff_distrib Suc_le_eq)
qed

section \<open>Steps\<close>

lemma RecordRequest_cases:
  assumes "latencies_bounded cb"
  obtains cb' where "RecordRequest t d s cb = Inr cb'" "latencies_bounded cb'" "sloThreshold cb' = sloThreshold cb"
proof -
  let ?ls = "(if 50 < length (latencies cb @ [d]) then tl (latencies cb @ [d]) else latencies cb @ [d])"
  have "length ?ls \<le> 50" "?ls \<noteq> []" using assms by (auto simp: latencies_bounded_def tl_append split: list.splits)
  then show thesis
    by (intro that[of "case RecordRequest t d s cb of Inr c \<Rightarrow> c | Inl _ \<Rightarrow> cb"])
      (auto simp: RecordRequest_def calculateP99_Max Let_def latencies_bounded_def split: sum.splits)
qed

lemma cb_step_total:
  assumes "latencies_bounded cb"
  obtains v cb' where "cb_step cb e = Inr (v, cb')" "latencies_bounded cb'" "sloThreshold cb' = sloThreshold cb"
proof (cases e)
  case (EvAllow t1 t2)
  with assms show thesis
    by (intro that[of "Some (fst (Allow t1 t2 cb))" "snd (Allow t1 t2 cb)"])
      (auto simp: Allow_def latencies_bounded_def split: CircuitState.splits)
next
  case (EvRecord t d s)
  with RecordRequest_cases[OF assms, of t d s] that show thesis by (metis cb_step.simps(2) sum.case(2))
qed

lemma cb_run_total:
  assumes "latencies_bounded cb"
  shows "\<exists>vs cb'. cb_run cb es = Inr (vs, cb') \<and> latencies_bounded cb'"
  using assms
proof (induction es arbitrary: cb)
  case (Cons e es)
  obtain v cb1 where 1: "cb_step cb e = Inr (v, cb1)" "latencies_bounded cb1"
    using cb_step_total[OF Cons.prems] by metis
  with Cons.IH[OF 1(2)] show ?case by auto
qed simp

lemma Allow_cooling:
  assumes "cb_state cb = StateOpen" "t1 - lastStateChange cb \<le> 5 * time_Second"
  shows "Allow t1 t2 cb = (False, cb)"
proof -
  have "\<not> 5 * time_Second < time_Sub t1 (lastStateChange cb)"
    using assms(2) by (simp add: time_Sub_gt_iff time_units)
  with assms(1) show ?thesis by (simp add: Allow_def)
qed

lemma RecordRequest_open:
  assumes "cb_state cb = StateOpen" "RecordRequest t d s cb = Inr cb'"
  shows "cb_state cb' = StateOpen \<and> lastStateChange cb' = (if s then lastStateChange cb else t)"
  using assms by (auto simp: RecordRequest_def Let_def split: if_splits)

lemma cooling_run:
  assumes "cb_state cb = StateOpen" "t0 \<le> lastStateChange cb"
    and "\<forall>e \<in> set es. t0 \<le> event_time e \<and> event_time e \<le> t0 + 5 * time_Second"
    and "cb_run cb es = Inr (vs, cb')"
  shows "cb_state cb' = StateOpen \<and> True \<notin> set vs"
  using assms
proof (induction es arbitrary: cb vs)
  case (Cons e es)
  obtain v cb1 vs1 where 1: "cb_step cb e = Inr (v, cb1)" "cb_run cb1 es = Inr (vs1, cb')"
    and vs: "vs = (case v of None \<Rightarrow> vs1 | Some b \<Rightarrow> b # vs1)"
    using Cons.prems(4) by (auto split: sum.splits)
  have "cb_state cb1 = StateOpen \<and> t0 \<le> lastStateChange cb1 \<and> v \<noteq> Some True"
  proof (cases e)
    case (EvAllow t1 t2)
    with Cons.prems(1-3) 1(1) Allow_cooling[of cb t1 t2] show ?thesis by auto
  next
    case (EvRecord t d s)
    with Cons.prems(1-3) 1(1) RecordRequest_open[of cb t d s] show ?thesis by (auto split: sum.splits)
  qed
  with Cons.IH[of cb1 vs1] Cons.prems(3) 1(2) vs show ?case by (auto split: option.splits)
qed simp

definition good_record :: "duration \<Rightarrow> cb_event \<Rightarrow> bool" where
  "good_record slo e \<longleftrightarrow> (case e of EvRecord t d s \<Rightarrow> s \<and> d \<le> slo | EvAllow _ _ \<Rightarrow> False)"

text \<open>What a breaker that was open knows about the good records since then.\<close>

definition recovery_inv :: "CircuitBreaker \<Rightarrow> int \<Rightarrow> bool" where
  "recovery_inv cb goods \<longleftrightarrow> 0 \<le> goods \<and>
     (cb_state cb = StateHalfOpen \<longrightarrow> successCount cb \<le> goods) \<and> (cb_state cb = StateClosed \<longrightarrow> 3 \<le> goods)"

lemma recovery_step:
  assumes "recovery_inv cb goods" "cb_step cb e = Inr (v, cb')"
  shows "recovery_inv cb' (goods + (if good_record (sloThreshold cb) e then 1 else 0)) \<and> sloThreshold cb' = sloThreshold cb"
proof (cases e)
  case (EvAllow t1 t2)
  with assms show ?thesis
    by (auto simp: Allow_def recovery_inv_def good_record_def split: CircuitState.splits if_splits)
next
  case (EvRecord t d s)
  with assms(2) have "RecordRequest t d s cb = Inr cb'" by (auto split: sum.splits)
  with assms(1) show ?thesis
    by (cases "cb_state cb")
      (auto simp: EvRecord RecordRequest_def Let_def recovery_inv_def good_record_def split: if_splits sum.splits)
qed

lemma recovery_run:
  assumes "recovery_inv cb goods" "cb_run cb es = Inr (vs, cb')"
  shows "recovery_inv cb' (goods + int (length (filter (good_record (sloThreshold cb)) es)))"
  using assms
proof (induction es arbitrary: cb goods vs)
  case (Cons e es)
  obtain v cb1 vs1 where 1: "cb_step cb e = Inr (v, cb1)" "cb_run cb1 es = Inr (vs1, cb')"
    using Cons.prems(2) by (auto split: sum.splits)
  let ?g = "if good_record (sloThreshold cb) e then 1 else 0"
  have "recovery_inv cb1 (goods + ?g)" and slo: "sloThreshold cb1 = sloThreshold cb"
    using recovery_step[OF Cons.prems(1) 1(1)] by simp_all
  from Cons.IH[OF this(1) 1(2)] show ?case
    by (cases "good_record (sloThreshold cb) e") (simp_all add: slo algebra_simps)
qed simp

section \<open>Properties\<close>

text \<open>C18: the breaker never panics (the index into the sorted latencies is always in range) and
  never keeps more than fifty latencies, in any sequence of \<^verbatim>\<open>Allow\<close> and \<^verbatim>\<open>RecordRequest\<close> calls
  on a new breaker.\<close>

theorem breaker_total_bounded:
  "\<exists>vs cb'. cb_run (NewCircuitBreaker slo) es = Inr (vs, cb') \<and> length (latencies cb') \<le> 50"
  using cb_run_total[of "NewCircuitBreaker slo" es] by (auto simp: latencies_bounded_def NewCircuitBreaker_def)

text \<open>C7: a success recorded by a closed breaker that keeps at most fifty latencies, as every
  breaker does, appends its latency (dropping the oldest of fifty) and trips the breaker
  exactly when there are then at least five latencies and one of them is above the SLO: on five to
  fifty samples the floating-point index computation of \<^verbatim>\<open>calculateP99\<close> selects the last element,
  so the reported p99 is the maximum. With fewer than five samples it never trips on a success.\<close>

theorem closed_trips_iff_max:
  assumes "cb_state cb = StateClosed" and "length (latencies cb) \<le> 50"
    and "ls = (if length (latencies cb) = 50 then tl (latencies cb) else latencies cb) @ [dur]"
  shows "RecordRequest now dur True cb =
    Inr (if 5 \<le> length ls \<and> (\<exists>l \<in> set ls. sloThreshold cb < l)
         then cb\<lparr>latencies := ls, cb_state := StateOpen, lastStateChange := now\<rparr>
         else cb\<lparr>latencies := ls\<rparr>)"
proof -
  have ls: "(if 50 < length (latencies cb @ [dur]) then tl (latencies cb @ [dur]) else latencies cb @ [dur]) = ls"
    using assms(2,3) by (cases "latencies cb") auto
  show ?thesis
  proof (cases "5 \<le> length ls")
    case True
    have len: "length ls \<le> 50" using assms(2,3) by auto
    have "sloThreshold cb < Max (set ls) \<longleftrightarrow> (\<exists>l \<in> set ls. sloThreshold cb < l)"
      using True by (intro Max_gr_iff) auto
    moreover have "calculateP99 ls = Inr (Max (set ls))"
      using True len by (intro calculateP99_Max) auto
    ultimately show ?thesis using assms(1) True ls unfolding RecordRequest_def Let_def by simp
  next
    case False
    then show ?thesis using assms(1) ls unfolding RecordRequest_def Let_def by simp
  qed
qed

theorem closed_trips_iff_max_witness:
  "cb_state (case RecordRequest 0 9 True ((NewCircuitBreaker 5)\<lparr>latencies := [1, 1, 1, 1]\<rparr>) of Inr c \<Rightarrow> c) = StateOpen \<and>
   cb_state (case RecordRequest 0 9 True ((NewCircuitBreaker 5)\<lparr>latencies := [1, 1, 1]\<rparr>) of Inr c \<Rightarrow> c) = StateClosed"
  using closed_trips_iff_max[of "(NewCircuitBreaker 5)\<lparr>latencies := [1, 1, 1, 1]\<rparr>" "[1, 1, 1, 1, 9]" 9 0]
    closed_trips_iff_max[of "(NewCircuitBreaker 5)\<lparr>latencies := [1, 1, 1]\<rparr>" "[1, 1, 1, 9]" 9 0]
  by (simp add: NewCircuitBreaker_def)

text \<open>C16: after a failed request at time \<open>t0\<close> the circuit stays open and admits nothing for
  five seconds, whatever calls (late successes and further failures included) arrive in that
  time.\<close>

theorem breaker_cools_down:
  assumes "RecordRequest t0 dur False cb = Inr cb1"
    and "\<forall>e \<in> set es. t0 \<le> event_time e \<and> event_time e \<le> t0 + 5 * time_Second"
    and "cb_run cb1 es = Inr (vs, cb2)"
  shows "cb_state cb2 = StateOpen \<and> True \<notin> set vs"
proof -
  have "cb_state cb1 = StateOpen" "lastStateChange cb1 = t0"
    using assms(1) by (auto simp: RecordRequest_def)
  with assms(2,3) show ?thesis by (intro cooling_run[of cb1 t0]) auto
qed

theorem breaker_cools_down_witness:
  "\<exists>cb1 vs cb2. RecordRequest 100 7 False (NewCircuitBreaker 5) = Inr cb1 \<and>
     cb_run cb1 [EvAllow 200 201, EvRecord 300 1 True, EvAllow 400 401] = Inr (vs, cb2) \<and>
     cb_state cb2 = StateOpen \<and> True \<notin> set vs"
proof -
  let ?cb1 = "(NewCircuitBreaker 5)\<lparr>cb_state := StateOpen, lastStateChange := 100\<rparr>"
  let ?es = "[EvAllow 200 201, EvRecord 300 1 True, EvAllow 400 401]"
  have 1: "RecordRequest 100 7 False (NewCircuitBreaker 5) = Inr ?cb1" by (simp add: RecordRequest_def)
  obtain vs cb2 where 2: "cb_run ?cb1 ?es = Inr (vs, cb2)"
    using cb_run_total[of ?cb1 ?es] by (auto simp: latencies_bounded_def NewCircuitBreaker_def)
  from breaker_cools_down[OF 1 _ 2] 1 2 show ?thesis by (auto simp: time_units)
qed

text \<open>C37: in every sequence of \<^verbatim>\<open>Allow\<close> and \<^verbatim>\<open>RecordRequest\<close> calls that takes an open breaker to the
  closed state, at least three successful requests with a latency within the SLO are recorded.\<close>

theorem breaker_recovery_needs_three:
  assumes "cb_state cb = StateOpen" and "cb_run cb es = Inr (vs, cb')" and "cb_state cb' = StateClosed"
  shows "3 \<le> length (filter (good_record (sloThreshold cb)) es)"
proof -
  have "recovery_inv cb 0" using assms(1) by (simp add: recovery_inv_def)
  from recovery_run[OF this assms(2)] assms(3) show ?thesis by (simp add: recovery_inv_def)
qed

lemma RecordRequest_half_open:
  "cb_state cb = StateHalfOpen \<Longrightarrow> dur \<le> sloThreshold cb \<Longrightarrow>
   RecordRequest t dur True cb =
     Inr (if 2 \<le> successCount cb
          then cb\<lparr>cb_state := StateClosed, latencies := [], lastStateChange := t, successCount := successCount cb + 1\<rparr>
          else cb\<lparr>latencies := (if 50 \<le> length (latencies cb) then tl (latencies cb @ [dur]) else latencies cb @ [dur]),
                  successCount := successCount cb + 1\<rparr>)"
  by (simp add: RecordRequest_def Let_def)

theorem breaker_recovery_needs_three_witness:
  "3 \<le> length (filter (good_record 5) [EvAllow 6000000000 6000000001, EvRecord 6000000002 1 True,
      EvRecord 6000000003 1 True, EvRecord 6000000004 1 True])"
proof -
  let ?cb = "(NewCircuitBreaker 5)\<lparr>cb_state := StateOpen, lastStateChange := 0\<rparr>"
  let ?es = "[EvAllow 6000000000 6000000001, EvRecord 6000000002 1 True, EvRecord 6000000003 1 True,
      EvRecord 6000000004 1 True]"
  have run: "cb_run ?cb ?es = Inr ([True], ?cb\<lparr>cb_state := StateClosed, successCount := 3, lastStateChange := 6000000004\<rparr>)"
    by (simp add: Allow_def RecordRequest_half_open NewCircuitBreaker_def time_Sub_def time_units)
  from breaker_recovery_needs_three[OF _ run] show ?thesis by (simp add: NewCircuitBreaker_def)
qed

text \<open>C17: recovery is possible: once the cooling period of an open circuit is over, one
  admitted trial and three successes within the SLO close it and clear its latencies.\<close>

theorem breaker_recovers:
  assumes "cb_state cb = StateOpen"
    and "5 * time_Second < t - lastStateChange cb"
    and "d1 \<le> sloThreshold cb" and "d2 \<le> sloThreshold cb" and "d3 \<le> sloThreshold cb"
  shows "\<exists>cb'. cb_run cb [EvAllow t u, EvRecord t1 d1 True, EvRecord t2 d2 True, EvRecord t3 d3 True] = Inr ([True], cb') \<and>
     cb_state cb' = StateClosed \<and> latencies cb' = []"
proof -
  have "5 * time_Second < time_Sub t (lastStateChange cb)"
    using assms(2) by (simp add: time_Sub_gt_iff time_units)
  then show ?thesis using assms by (simp add: Allow_def RecordRequest_half_open)
qed

theorem breaker_recovers_witness:
  "\<exists>cb'. cb_run ((NewCircuitBreaker 5)\<lparr>cb_state := StateOpen, lastStateChange := 0\<rparr>)
     [EvAllow 6000000000 6000000000, EvRecord 1 1 True, EvRecord 2 2 True, EvRecord 3 3 True] = Inr ([True], cb') \<and>
     cb_state cb' = StateClosed \<and> latencies cb' = []"
  by (rule breaker_recovers) (simp_all add: NewCircuitBreaker_def time_units)

end
