(* ===== verification/Config.thy ===== *)
theory Config
  imports Complex_Main Prelude
begin

text \<open>
  The configuration data of the gateway: the types of pkg/proxy/handler.go, ai.go and
  provider.go that \<^verbatim>\<open>config.json\<close> is decoded into. Field names are the source's; where
  two structs share a field name the smaller struct's fields carry a prefix. A
  \<^verbatim>\<open>map[string]string\<close> that the code ranges over is an association list, a pointer to an
  optional struct an \<open>option\<close>, a \<^verbatim>\<open>float64\<close> the rational number it denotes.
\<close>

record WeightedTarget =
  wt_URL :: string
  wt_Weight :: int

record LLMTarget =
  llm_URL :: string
  llm_Model :: string

record LLMRoutingConfig =
  llm_Primary :: LLMTarget
  llm_Fallback :: LLMTarget
  ConfidenceHeader :: string
  MinConfidence :: rat

record WASMTarget =
  wasm_MiddlewareName :: string
  wasm_Weight :: int

record WASMSplitConfig =
  wasm_Targets :: "WASMTarget list"

record PromptABTest =
  PromptName :: string
  ab_Versions :: "(string \<times> string) list"
  ab_Weights :: "(string \<times> int) list"

record Route =
  Prefix :: string
  SchemaName :: string
  Target :: string
  Targets :: "string list"
  TargetsWeighted :: "WeightedTarget list"
  CanaryAutoPromote :: bool
  CanaryPromoteStep :: int
  CanaryPromoteSec :: int
  CanaryMaxErrorRate :: rat
  LoadBalancer :: string
  TranspileType :: string
  Middleware :: string
  ResponseMiddleware :: string
  RateLimitRPM :: int
  PromptGuard :: bool
  PiiRedact :: bool
  UseSemanticCache :: bool
  ValidationSchema :: "(string \<times> string) list"
  IPAllowlist :: "string list"
  IPBlocklist :: "string list"
  AccessLog :: bool
  AccessLogPath :: string
  CacheTTLSeconds :: int
  CacheMethods :: "string list"
  ClientCertPath :: string
  ClientKeyPath :: string
  RootCAPath :: string
  MaxConcurrentRequests :: int
  MaxQueueSize :: int
  QueueTimeoutMs :: int
  GoMiddleware :: string
  RequireAPIKey :: bool
  AllowedTenants :: "string list"
  RequestTransform :: "(string \<times> string) list"
  ResponseTransform :: "(string \<times> string) list"
  GraphQLFederation :: "(string \<times> string) list"
  MCPEnabled :: bool
  LLMRouting :: "LLMRoutingConfig option"
  WASMSplit :: "WASMSplitConfig option"
  MaxBodySize :: int
  RoutePromptABTest :: "PromptABTest option"
  ResponseQualityScore :: bool
  SemanticRateLimit :: bool
  SemanticTokenLimitPerMin :: int
  AIWAFEnabled :: bool

record APIKey =
  ak_Key :: string
  ak_Tenant :: string
  ak_RateLimitRPM :: int
  ak_AllowedRoutes :: "string list"
  ak_MaxTokensPerDay :: int
  ak_MaxCostPerDay :: rat

record GatewayConfig =
  cfg_Addr :: string
  cfg_AuthToken :: string
  cfg_TlsCert :: string
  cfg_TlsKey :: string
  cfg_Routes :: "Route list"
  cfg_APIKeys :: "APIKey list"
  cfg_Signature :: string

record TenantPolicy =
  tp_TenantID :: string
  tp_AllowedClusters :: "string list"
  tp_AllowedRegions :: "string list"
  tp_RateLimitRPM :: int

text \<open>The zero value of a route: what decoding an empty JSON object gives.\<close>

definition zero_route :: Route where
  "zero_route =
     \<lparr>Prefix = [], SchemaName = [], Target = [], Targets = [], TargetsWeighted = [], CanaryAutoPromote = False,
      CanaryPromoteStep = 0, CanaryPromoteSec = 0, CanaryMaxErrorRate = 0, LoadBalancer = [], TranspileType = [],
      Middleware = [], ResponseMiddleware = [], RateLimitRPM = 0, PromptGuard = False, PiiRedact = False,
      UseSemanticCache = False, ValidationSchema = [], IPAllowlist = [], IPBlocklist = [], AccessLog = False,
      AccessLogPath = [], CacheTTLSeconds = 0, CacheMethods = [], ClientCertPath = [], ClientKeyPath = [],
      RootCAPath = [], MaxConcurrentRequests = 0, MaxQueueSize = 0, QueueTimeoutMs = 0, GoMiddleware = [],
      RequireAPIKey = False, AllowedTenants = [], RequestTransform = [], ResponseTransform = [],
      GraphQLFederation = [], MCPEnabled = False, LLMRouting = None, WASMSplit = None, MaxBodySize = 0,
      RoutePromptABTest = None, ResponseQualityScore = False, SemanticRateLimit = False,
      SemanticTokenLimitPerMin = 0, AIWAFEnabled = False\<rparr>"

lemma zero_route_simps [simp]:
  "Prefix zero_route = []"
  "SchemaName zero_route = []"
  "Target zero_route = []"
  "Targets zero_route = []"
  "TargetsWeighted zero_route = []"
  "CanaryAutoPromote zero_route = False"
  "CanaryPromoteStep zero_route = 0"
  "CanaryPromoteSec zero_route = 0"
  "CanaryMaxErrorRate zero_route = 0"
  "LoadBalancer zero_route = []"
  "TranspileType zero_route = []"
  "Middleware zero_route = []"
  "ResponseMiddleware zero_route = []"
  "RateLimitRPM zero_route = 0"
  "PromptGuard zero_route = False"
  "PiiRedact zero_route = False"
  "UseSemanticCache zero_route = False"
  "ValidationSchema zero_route = []"
  "IPAllowlist zero_route = []"
  "IPBlocklist zero_route = []"
  "AccessLog zero_route = False"
  "AccessLogPath zero_route = []"
  "CacheTTLSeconds zero_route = 0"
  "CacheMethods zero_route = []"
  "ClientCertPath zero_route = []"
  "ClientKeyPath zero_route = []"
  "RootCAPath zero_route = []"
  "MaxConcurrentRequests zero_route = 0"
  "MaxQueueSize zero_route = 0"
  "QueueTimeoutMs zero_route = 0"
  "GoMiddleware zero_route = []"
  "RequireAPIKey zero_route = False"
  "AllowedTenants zero_route = []"
  "RequestTransform zero_route = []"
  "ResponseTransform zero_route = []"
  "GraphQLFederation zero_route = []"
  "MCPEnabled zero_route = False"
  "LLMRouting zero_route = None"
  "WASMSplit zero_route = None"
  "MaxBodySize zero_route = 0"
  "RoutePromptABTest zero_route = None"
  "ResponseQualityScore zero_route = False"
  "SemanticRateLimit zero_route = False"
  "SemanticTokenLimitPerMin zero_route = 0"
  "AIWAFEnabled zero_route = False"
  by (simp_all add: zero_route_def)

end
