(* ===== verification/Balancer.thy ===== *)
theory Balancer
  imports Config "HOL-Library.Multiset"
begin

text \<open>
  Target selection of pkg/proxy/handler.go: \<^verbatim>\<open>selectTarget\<close> (weighted, least
  connections, backpressure, round robin), \<^verbatim>\<open>selectWASMMiddleware\<close> (the A/B split) and
  the connection counters \<^verbatim>\<open>incConn\<close> and \<^verbatim>\<open>decConn\<close>. The record \<open>balancer\<close>
  holds the fields of \<^verbatim>\<open>GatewayHandler\<close> they use and is extended by the handler's own
  record. \<^verbatim>\<open>rand.Intn\<close> is the parameter \<open>intn\<close>; what the code relies on is its
  documented range.
\<close>

section \<open>State and operations\<close>

record balancer =
  rrIndices :: "string \<rightharpoonup> int"
  activeConns :: "string \<rightharpoonup> int"
  targetLoad :: "string \<rightharpoonup> int"

definition intn_range :: "(int \<Rightarrow> int) \<Rightarrow> bool" where
  "intn_range intn \<longleftrightarrow> (\<forall>n > 0. 0 \<le> intn n \<and> intn n < n)"

definition totalWeight :: "('a \<times> int) list \<Rightarrow> int" where
  "totalWeight ws = foldl (\<lambda>acc (x, w). wrap64 (acc + w)) 0 ws"

text \<open>The cumulative walk of the weighted choice, from the running sum \<open>accum\<close>.\<close>

fun weighted_walk :: "int \<Rightarrow> int \<Rightarrow> ('a \<times> int) list \<Rightarrow> 'a option" where
  "weighted_walk r accum [] = None"
| "weighted_walk r accum ((x, w) # ws) =
     (let accum' = wrap64 (accum + w) in if r < accum' then Some x else weighted_walk r accum' ws)"

text \<open>The loop of least connections and of backpressure, from \<open>(-1, '''')\<close>.\<close>

fun least_loop :: "(string \<Rightarrow> int) \<Rightarrow> string list \<Rightarrow> int \<times> string \<Rightarrow> int \<times> string" where
  "least_loop val [] (minv, sel) = (minv, sel)"
| "least_loop val (t # ts) (minv, sel) =
     least_loop val ts (if minv = -1 \<or> val t < minv then (val t, t) else (minv, sel))"

text \<open>Stored indices are remainders, so \<^verbatim>\<open>idx+1\<close> is at most the number of targets the route had and
  does not overflow; it is not wrapped here.\<close>

definition round_robin :: "Route \<Rightarrow> 'a balancer_scheme \<Rightarrow> go_panic + string \<times> 'a balancer_scheme" where
  "round_robin route h =
     (let idx = mget 0 (rrIndices h) (Prefix route);
          n = int (length (Targets route));
          i = go_mod idx n
      in if 0 \<le> i \<and> i < n
         then Inr (Targets route ! nat i, h\<lparr>rrIndices := (rrIndices h)(Prefix route \<mapsto> go_mod (idx + 1) n)\<rparr>)
         else Inl IndexOutOfRange)"

definition selectTarget ::
  "(int \<Rightarrow> int) \<Rightarrow> Route \<Rightarrow> 'a balancer_scheme \<Rightarrow> go_panic + string \<times> 'a balancer_scheme" where
  "selectTarget intn route h =
     (let wts = map (\<lambda>wt. (wt_URL wt, wt_Weight wt)) (TargetsWeighted route);
          total = totalWeight wts
      in if wts \<noteq> [] \<and> 0 < total then
           Inr (case weighted_walk (intn total) 0 wts of Some u \<Rightarrow> u | None \<Rightarrow> fst (hd wts), h)
         else if Targets route = [] then Inr (Target route, h)
         else if LoadBalancer route = ''least_conn'' then
           Inr (snd (least_loop (mget 0 (activeConns h)) (Targets route) (-1, [])), h)
         else
           let selected = (if LoadBalancer route = ''backpressure''
                           then snd (least_loop (mget 0 (targetLoad h)) (Targets route) (-1, [])) else [])
           in if LoadBalancer route = ''backpressure'' \<and> selected \<noteq> [] then Inr (selected, h)
              else round_robin route h)"

definition selectWASMMiddleware :: "(int \<Rightarrow> int) \<Rightarrow> Route \<Rightarrow> string" where
  "selectWASMMiddleware intn route =
     (case WASMSplit route of
        None \<Rightarrow> Middleware route
      | Some split \<Rightarrow>
          let ws = map (\<lambda>t. (wasm_MiddlewareName t, wasm_Weight t)) (wasm_Targets split);
              total = totalWeight ws
          in if ws = [] then Middleware route
             else if total \<le> 0 then Middleware route
             else (case weighted_walk (intn total) 0 ws of Some m \<Rightarrow> m | None \<Rightarrow> fst (hd ws)))"

definition incConn :: "string \<Rightarrow> 'a balancer_scheme \<Rightarrow> 'a balancer_scheme" where
  "incConn target h = h\<lparr>activeConns := (activeConns h)(target \<mapsto> mget 0 (activeConns h) target + 1)\<rparr>"

definition decConn :: "string \<Rightarrow> 'a balancer_scheme \<Rightarrow> 'a balancer_scheme" where
  "decConn target h =
     (let n = mget 0 (activeConns h) target - 1
      in h\<lparr>activeConns := (activeConns h)(target \<mapsto> (if n < 0 then 0 else n))\<rparr>)"

definition GetActiveConnections :: "'a balancer_scheme \<Rightarrow> string \<rightharpoonup> int" where
  "GetActiveConnections h = activeConns h"

section \<open>The weighted choice\<close>

text \<open>Weights as an operator configures them: none negative, and their sum is an \<^verbatim>\<open>int\<close>.\<close>

definition weights_ok :: "('a \<times> int) list \<Rightarrow> bool" where
  "weights_ok ws \<longleftrightarrow> list_all (\<lambda>(x, w). 0 \<le> w) ws \<and> int64_ok (sum_list (map snd ws))"

lemma weights_nonneg: "list_all (\<lambda>(x, w). (0::int) \<le> w) ws \<Longrightarrow> 0 \<le> sum_list (map snd ws)"
  by (induction ws) auto

lemma totalWeight_sum:
  assumes "weights_ok ws"
  shows "totalWeight ws = sum_list (map snd ws)"
proof -
  have "foldl (\<lambda>acc (x, w). wrap64 (acc + w)) a ws = a + sum_list (map snd ws)"
    if "0 \<le> a" "list_all (\<lambda>(x, w). 0 \<le> w) ws" "int64_ok (a + sum_list (map snd ws))" for a
    using that
  proof (induction ws arbitrary: a)
    case (Cons p ws)
    obtain x w where p: "p = (x, w)" by (cases p)
    have "int64_ok (a + w)"
      using Cons.prems weights_nonneg[of ws] by (auto simp: p int64_ok_def)
    with Cons.IH[of "a + w"] Cons.prems show ?case by (simp add: p add.assoc)
  qed simp
  from this[of 0] assms show ?thesis by (simp add: totalWeight_def weights_ok_def)
qed

lemma weighted_walk_count:
  assumes "0 \<le> a" "list_all (\<lambda>(x, w). 0 \<le> w) ws" "int64_ok (a + sum_list (map snd ws))"
  shows "int (card {r. a \<le> r \<and> r < a + sum_list (map snd ws) \<and> weighted_walk r a ws = Some x}) =
    sum_list (map snd (filter (\<lambda>(y, w). y = x) ws))"
  using assms
proof (induction ws arbitrary: a)
  case (Cons p ws)
  obtain y w where p: "p = (y, w)" by (cases p)
  let ?S = "sum_list (map snd ws)"
  have w: "0 \<le> w" "0 \<le> ?S" using Cons.prems weights_nonneg[of ws] by (auto simp: p)
  then have ok: "int64_ok (a + w)" using Cons.prems by (auto simp: p int64_ok_def)
  let ?A = "{r. a \<le> r \<and> r < a + w \<and> y = x}"
  let ?B = "{r. a + w \<le> r \<and> r < a + w + ?S \<and> weighted_walk r (a + w) ws = Some x}"
  have "{r. a \<le> r \<and> r < a + sum_list (map snd (p # ws)) \<and> weighted_walk r a (p # ws) = Some x} = ?A \<union> ?B"
    using w ok by (auto simp: p Let_def split: if_splits)
  moreover have "finite ?A" "finite ?B"
    by (auto intro: finite_subset[of _ "{a..<a + w}"] finite_subset[of _ "{a + w..<a + w + ?S}"])
  moreover have "?A \<inter> ?B = {}" by auto
  ultimately have "card {r. a \<le> r \<and> r < a + sum_list (map snd (p # ws)) \<and> weighted_walk r a (p # ws) = Some x} =
      card ?A + card ?B" by (simp add: card_Un_disjoint)
  moreover have "int (card ?A) = (if y = x then w else 0)"
  proof (cases "y = x")
    case True
    then have "?A = {a..<a + w}" by auto
    with True w show ?thesis by simp
  qed simp
  moreover have "int (card ?B) = sum_list (map snd (filter (\<lambda>(y, w). y = x) ws))"
    using Cons.IH[of "a + w"] Cons.prems w by (simp add: p add.assoc)
  ultimately show ?case by (simp add: p)
qed simp

text \<open>Every draw below the total hits an entry, so the fall-back to the first is never used.\<close>

lemma weighted_walk_hits:
  assumes "r < totalWeight ws" "ws \<noteq> []"
  shows "weighted_walk r 0 ws \<noteq> None"
proof -
  have "weighted_walk r a ws \<noteq> None"
    if "r < foldl (\<lambda>acc (x, w). wrap64 (acc + w)) a ws" "ws \<noteq> []" for a
    using that
  proof (induction ws arbitrary: a)
    case (Cons p ws)
    then show ?case by (cases p; cases "ws = []") (auto simp: Let_def)
  qed simp
  with assms show ?thesis by (simp add: totalWeight_def)
qed

section \<open>Least loaded target\<close>

lemma least_loop_min:
  assumes "\<forall>t \<in> set ts. 0 \<le> val t" "0 \<le> minv" "val sel = minv"
  shows "let (m, s) = least_loop val ts (minv, sel) in
    s \<in> insert sel (set ts) \<and> val s = m \<and> m \<le> minv \<and> (\<forall>t \<in> set ts. m \<le> val t)"
  using assms
proof (induction ts arbitrary: minv sel)
  case (Cons t ts)
  show ?case
  proof (cases "val t < minv")
    case True
    with Cons.IH[of "val t" t] Cons.prems show ?thesis
      by (simp add: split_beta Let_def)
  next
    case False
    with Cons.IH[of minv sel] Cons.prems show ?thesis
      by (simp add: split_beta Let_def) linarith
  qed
qed simp

lemma least_loop_start:
  assumes "\<forall>t \<in> set ts. 0 \<le> val t" "ts \<noteq> []"
  shows "snd (least_loop val ts (-1, sel)) \<in> set ts \<and>
    (\<forall>t \<in> set ts. val (snd (least_loop val ts (-1, sel))) \<le> val t)"
proof (cases ts)
  case (Cons t ts')
  with assms(1) least_loop_min[of ts' val "val t" t] show ?thesis by (auto simp: split_beta Let_def)
qed (use assms in simp)

section \<open>Round robin\<close>

fun rr_run :: "nat \<Rightarrow> Route \<Rightarrow> 'a balancer_scheme \<Rightarrow> go_panic + string list \<times> 'a balancer_scheme" where
  "rr_run 0 route h = Inr ([], h)"
| "rr_run (Suc n) route h =
     (case round_robin route h of
        Inl p \<Rightarrow> Inl p
      | Inr (t, h') \<Rightarrow> (case rr_run n route h' of Inl p \<Rightarrow> Inl p | Inr (ts, h'') \<Rightarrow> Inr (t # ts, h'')))"

definition rr_ok :: "'a balancer_scheme \<Rightarrow> bool" where
  "rr_ok h \<longleftrightarrow> (\<forall>p. 0 \<le> mget 0 (rrIndices h) p)"

lemma round_robin_step:
  assumes "Targets route \<noteq> []" "rr_ok h"
  shows "round_robin route h =
    Inr (Targets route ! (nat (mget 0 (rrIndices h) (Prefix route)) mod length (Targets route)),
         h\<lparr>rrIndices := (rrIndices h)(Prefix route \<mapsto>
           int ((nat (mget 0 (rrIndices h) (Prefix route)) + 1) mod length (Targets route)))\<rparr>)"
proof -
  let ?i = "mget 0 (rrIndices h) (Prefix route)" and ?n = "int (length (Targets route))"
  have i: "0 \<le> ?i" and n: "0 < ?n" using assms by (auto simp: rr_ok_def)
  have "go_mod ?i ?n = int (nat ?i mod length (Targets route))"
    using i n by (simp add: go_mod_nonneg zmod_int)
  moreover have "go_mod (?i + 1) ?n = int ((nat ?i + 1) mod length (Targets route))"
    using i n by (simp add: go_mod_nonneg zmod_int add.commute)
  ultimately show ?thesis using n by (simp add: round_robin_def Let_def)
qed

lemma rr_run_targets:
  assumes "Targets route \<noteq> []" "rr_ok h"
  shows "\<exists>h'. rr_run k route h =
    Inr (map (\<lambda>j. Targets route ! ((nat (mget 0 (rrIndices h) (Prefix route)) + j) mod length (Targets route))) [0..<k], h')
    \<and> rr_ok h'"
  using assms(2)
proof (induction k arbitrary: h)
  case (Suc k)
  let ?i = "nat (mget 0 (rrIndices h) (Prefix route))" and ?n = "length (Targets route)"
  let ?h1 = "h\<lparr>rrIndices := (rrIndices h)(Prefix route \<mapsto> int ((?i + 1) mod ?n))\<rparr>"
  have ok: "rr_ok ?h1" using Suc.prems by (simp add: rr_ok_def)
  obtain h' where h': "rr_run k route ?h1 =
      Inr (map (\<lambda>j. Targets route ! ((nat (mget 0 (rrIndices ?h1) (Prefix route)) + j) mod ?n)) [0..<k], h')" "rr_ok h'"
    using Suc.IH[OF ok] by blast
  have "nat (mget 0 (rrIndices ?h1) (Prefix route)) = (?i + 1) mod ?n" by simp
  note h'(1)[unfolded this]
  then have "rr_run k route ?h1 = Inr (map (\<lambda>j. Targets route ! ((?i + Suc j) mod ?n)) [0..<k], h')"
    by (simp add: mod_simps)
  with h'(2) round_robin_step[OF assms(1) Suc.prems] show ?case
    by (simp add: map_upt_Suc del: upt_Suc)
qed simp

lemma mset_rotate_index: "mset (map (\<lambda>j. xs ! ((i + j) mod length xs)) [0..<length xs]) = mset xs"
proof -
  have "map (\<lambda>j. xs ! ((i + j) mod length xs)) [0..<length xs] = rotate i xs"
    by (rule nth_equalityI) (simp_all add: nth_rotate)
  moreover have "mset (rotate i xs) = mset xs"
    by (metis append_take_drop_id mset_append rotate_drop_take union_commute)
  ultimately show ?thesis by simp
qed

section \<open>Connection counters\<close>

datatype conn_op = IncConn string | DecConn string

fun conn_apply :: "conn_op \<Rightarrow> 'a balancer_scheme \<Rightarrow> 'a balancer_scheme" where
  "conn_apply (IncConn t) h = incConn t h"
| "conn_apply (DecConn t) h = decConn t h"

definition open_conns :: "string \<Rightarrow> conn_op list \<Rightarrow> int" where
  "open_conns t ops = int (count_list ops (IncConn t)) - int (count_list ops (DecConn t))"

text \<open>Requests close what they opened: no prefix closes more connections than it opened.\<close>

definition conns_paired :: "string \<Rightarrow> conn_op list \<Rightarrow> bool" where
  "conns_paired t ops \<longleftrightarrow> (\<forall>k \<le> length ops. 0 \<le> open_conns t (take k ops))"

lemma conns_paired_snoc:
  assumes "conns_paired t (ops @ [x])"
  shows "conns_paired t ops" "0 \<le> open_conns t (ops @ [x])"
proof -
  show "conns_paired t ops"
    unfolding conns_paired_def
  proof (intro allI impI)
    fix k assume "k \<le> length ops"
    with assms[unfolded conns_paired_def, rule_format, of k] show "0 \<le> open_conns t (take k ops)" by simp
  qed
  from assms[unfolded conns_paired_def, rule_format, of "length ops + 1"] show "0 \<le> open_conns t (ops @ [x])" by simp
qed

section \<open>Properties\<close>

text \<open>C28: among the draws of \<^verbatim>\<open>rand.Intn(totalWeight)\<close>, the number that selects a URL is
  exactly the sum of that URL's weights: traffic is split in the configured proportion.\<close>

theorem selectTarget_weighted_share:
  assumes "TargetsWeighted route \<noteq> []"
    and "weights_ok (map (\<lambda>wt. (wt_URL wt, wt_Weight wt)) (TargetsWeighted route))"
    and "tw = sum_list (map wt_Weight (TargetsWeighted route))" and "0 < tw"
  shows "int (card {r. 0 \<le> r \<and> r < tw \<and> selectTarget (\<lambda>n. r) route h = Inr (url, h)}) =
    sum_list (map wt_Weight (filter (\<lambda>wt. wt_URL wt = url) (TargetsWeighted route)))"
proof -
  let ?ws = "map (\<lambda>wt. (wt_URL wt, wt_Weight wt)) (TargetsWeighted route)"
  have sum: "sum_list (map snd ?ws) = tw" by (simp add: assms(3) comp_def)
  then have tot: "totalWeight ?ws = tw" using totalWeight_sum[OF assms(2)] by simp
  have "selectTarget (\<lambda>n. r) route h = Inr (url, h) \<longleftrightarrow> weighted_walk r 0 ?ws = Some url" if "r < tw" for r
    using weighted_walk_hits[of r ?ws] that assms(1,4) tot
    by (auto simp: selectTarget_def Let_def split: option.splits)
  then have "{r. 0 \<le> r \<and> r < tw \<and> selectTarget (\<lambda>n. r) route h = Inr (url, h)} =
      {r. 0 \<le> r \<and> r < 0 + sum_list (map snd ?ws) \<and> weighted_walk r 0 ?ws = Some url}"
    unfolding sum add_0 by (intro Collect_cong) blast
  moreover have "int (card {r. 0 \<le> r \<and> r < 0 + sum_list (map snd ?ws) \<and> weighted_walk r 0 ?ws = Some url}) =
      sum_list (map snd (filter (\<lambda>(y, w). y = url) ?ws))"
    using assms(2) by (intro weighted_walk_count) (auto simp: weights_ok_def)
  moreover have "map snd (filter (\<lambda>(y, w). y = url) ?ws) = map wt_Weight (filter (\<lambda>wt. wt_URL wt = url) (TargetsWeighted route))"
    by (induction "TargetsWeighted route") (auto simp: filter_map comp_def)
  ultimately show ?thesis by simp
qed

theorem selectTarget_weighted_share_witness:
  "int (card {r. 0 \<le> r \<and> r < 100 \<and>
     selectTarget (\<lambda>n. r) (zero_route\<lparr>TargetsWeighted := [\<lparr>wt_URL = ''v1'', wt_Weight = 90\<rparr>, \<lparr>wt_URL = ''v2'', wt_Weight = 10\<rparr>]\<rparr>)
       \<lparr>rrIndices = Map.empty, activeConns = Map.empty, targetLoad = Map.empty\<rparr> =
     Inr (''v2'', \<lparr>rrIndices = Map.empty, activeConns = Map.empty, targetLoad = Map.empty\<rparr>)}) = 10"
proof -
  let ?route = "zero_route\<lparr>TargetsWeighted := [\<lparr>wt_URL = ''v1'', wt_Weight = 90\<rparr>, \<lparr>wt_URL = ''v2'', wt_Weight = 10\<rparr>]\<rparr>"
  let ?h = "\<lparr>rrIndices = Map.empty, activeConns = Map.empty, targetLoad = Map.empty\<rparr>"
  have "int (card {r. 0 \<le> r \<and> r < 100 \<and> selectTarget (\<lambda>n. r) ?route ?h = Inr (''v2'', ?h)}) =
      sum_list (map wt_Weight (filter (\<lambda>wt. wt_URL wt = ''v2'') (TargetsWeighted ?route)))"
    by (rule selectTarget_weighted_share) (simp_all add: weights_ok_def int64_ok_def)
  also have "\<dots> = 10" by simp
  finally show ?thesis .
qed

text \<open>C29: round robin is fair: from any state of its counter, as many consecutive selections
  as there are targets select every target exactly once, without panic.\<close>

theorem round_robin_fair:
  assumes "Targets route \<noteq> []" and "rr_ok h"
  shows "\<exists>ts h'. rr_run (length (Targets route)) route h = Inr (ts, h') \<and> mset ts = mset (Targets route) \<and> rr_ok h'"
  using rr_run_targets[OF assms, of "length (Targets route)"] mset_rotate_index[of "Targets route"] by auto

theorem round_robin_fair_witness:
  "\<exists>ts h'. rr_run 2 (zero_route\<lparr>Targets := [''a'', ''b'']\<rparr>)
     \<lparr>rrIndices = [[] \<mapsto> 7], activeConns = Map.empty, targetLoad = Map.empty\<rparr> = Inr (ts, h') \<and>
     mset ts = mset [''a'', ''b''] \<and> rr_ok h'"
  using round_robin_fair[of "zero_route\<lparr>Targets := [''a'', ''b'']\<rparr>"
      "\<lparr>rrIndices = [[] \<mapsto> 7], activeConns = Map.empty, targetLoad = Map.empty\<rparr>"]
  by (simp add: rr_ok_def mget_def numeral_2_eq_2)

text \<open>With the least-connections balancer, a route without weights gets a target with
  the fewest active connections.\<close>

theorem least_conn_minimal:
  assumes "TargetsWeighted route = []" and "Targets route \<noteq> []" and "LoadBalancer route = ''least_conn''"
    and "\<forall>t \<in> set (Targets route). 0 \<le> mget 0 (activeConns h) t"
  shows "\<exists>t. selectTarget intn route h = Inr (t, h) \<and> t \<in> set (Targets route) \<and>
    (\<forall>u \<in> set (Targets route). mget 0 (activeConns h) t \<le> mget 0 (activeConns h) u)"
  using least_loop_start[of "Targets route" "mget 0 (activeConns h)" "[]"] assms
  by (simp add: selectTarget_def Let_def)

theorem least_conn_minimal_witness:
  "\<exists>t. selectTarget (\<lambda>n. 0) (zero_route\<lparr>Targets := [''a'', ''b''], LoadBalancer := ''least_conn''\<rparr>)
     \<lparr>rrIndices = Map.empty, activeConns = [''a'' \<mapsto> 3], targetLoad = Map.empty\<rparr> =
       Inr (t, \<lparr>rrIndices = Map.empty, activeConns = [''a'' \<mapsto> 3], targetLoad = Map.empty\<rparr>) \<and> t \<in> {''a'', ''b''}"
  using least_conn_minimal[of "zero_route\<lparr>Targets := [''a'', ''b''], LoadBalancer := ''least_conn''\<rparr>"
      "\<lparr>rrIndices = Map.empty, activeConns = [''a'' \<mapsto> 3], targetLoad = Map.empty\<rparr>" "\<lambda>n. 0"]
  by (auto simp: mget_def)

text \<open>With the backpressure balancer the same holds for the reported loads as long as no
  backend reports a negative load.\<close>

theorem backpressure_minimal:
  assumes "TargetsWeighted route = []" and "Targets route \<noteq> []" and "LoadBalancer route = ''backpressure''"
    and "[] \<notin> set (Targets route)" and "\<forall>t \<in> set (Targets route). 0 \<le> mget 0 (targetLoad h) t"
  shows "\<exists>t. selectTarget intn route h = Inr (t, h) \<and> t \<in> set (Targets route) \<and>
    (\<forall>u \<in> set (Targets route). mget 0 (targetLoad h) t \<le> mget 0 (targetLoad h) u)"
  using least_loop_start[OF assms(5,2), of "[]"] assms
  by (auto simp: selectTarget_def Let_def)

theorem backpressure_minimal_witness:
  "\<exists>t. selectTarget (\<lambda>n. 0) (zero_route\<lparr>Targets := [''a'', ''b''], LoadBalancer := ''backpressure''\<rparr>)
     \<lparr>rrIndices = Map.empty, activeConns = Map.empty, targetLoad = [''a'' \<mapsto> 100]\<rparr> =
       Inr (t, \<lparr>rrIndices = Map.empty, activeConns = Map.empty, targetLoad = [''a'' \<mapsto> 100]\<rparr>) \<and> t \<in> {''a'', ''b''}"
  using backpressure_minimal[of "zero_route\<lparr>Targets := [''a'', ''b''], LoadBalancer := ''backpressure''\<rparr>"
      "\<lparr>rrIndices = Map.empty, activeConns = Map.empty, targetLoad = [''a'' \<mapsto> 100]\<rparr>" "\<lambda>n. 0"]
  by (auto simp: mget_def)

text \<open>A backend that reports the load \<open>-1\<close> in \<^verbatim>\<open>X-Backpressure\<close> defeats the choice,
  because \<open>-1\<close> is also the loop's mark for no choice yet: of two targets with loads
  \<open>-1\<close> and \<open>100\<close>, in this order, the more loaded one is selected.\<close>

theorem backpressure_negative_load:
  "selectTarget intn (zero_route\<lparr>Targets := [''a'', ''b''], LoadBalancer := ''backpressure''\<rparr>)
     \<lparr>rrIndices = Map.empty, activeConns = Map.empty, targetLoad = [''a'' \<mapsto> -1, ''b'' \<mapsto> 100]\<rparr> =
   Inr (''b'', \<lparr>rrIndices = Map.empty, activeConns = Map.empty, targetLoad = [''a'' \<mapsto> -1, ''b'' \<mapsto> 100]\<rparr>)"
  by (simp add: selectTarget_def Let_def mget_def)

text \<open>Starting from no connections, the counter of a target is the number of its open
  connections after any sequence of operations in which requests close what they opened:
  the clamp at zero never hides a mismatch, and every prefix leaves the counter
  non-negative.\<close>

theorem activeConns_counts_open:
  assumes "conns_paired t ops" and "mget 0 (activeConns h) t = 0"
  shows "mget 0 (activeConns (foldl (\<lambda>h op. conn_apply op h) h ops)) t = open_conns t ops"
  using assms(1)
proof (induction ops rule: rev_induct)
  case Nil
  with assms(2) show ?case by (simp add: open_conns_def)
next
  case (snoc x ops)
  note IH = snoc.IH[OF conns_paired_snoc(1)[OF snoc.prems]]
  let ?h = "foldl (\<lambda>h op. conn_apply op h) h ops"
  have "mget 0 (activeConns (conn_apply x ?h)) t = open_conns t (ops @ [x])"
    using IH conns_paired_snoc(2)[OF snoc.prems]
    by (cases x; cases "x \<in> {IncConn t, DecConn t}")
      (auto simp: incConn_def decConn_def Let_def open_conns_def mget_def split: option.splits)
  then show ?case by simp
qed

theorem activeConns_counts_open_witness:
  "mget 0 (activeConns (foldl (\<lambda>h op. conn_apply op h)
      \<lparr>rrIndices = Map.empty, activeConns = Map.empty, targetLoad = Map.empty\<rparr>
      [IncConn ''a'', IncConn ''a'', DecConn ''a''])) ''a'' = 1"
proof -
  have "conns_paired ''a'' [IncConn ''a'', IncConn ''a'', DecConn ''a'']"
    by (auto simp: conns_paired_def open_conns_def le_Suc_eq numeral_3_eq_3)
  from activeConns_counts_open[OF this, of "\<lparr>rrIndices = Map.empty, activeConns = Map.empty, targetLoad = Map.empty\<rparr>"]
  show ?thesis by (simp add: open_conns_def)
qed

end
