(* ===== verification/Canary.thy ===== *)
theory Canary
  imports Float64 Config
begin

text \<open>
  The canary promotion engine (pkg/proxy/canary.go) and the statistics that
  \<^verbatim>\<open>ServeHTTP\<close> collects for it (pkg/proxy/handler.go). The loop's state is the route
  table, the statistics per canary URL and the loop's own table of the last promotion
  times. \<open>canary_route\<close> is the loop body for one route, \<open>canary_tick\<close> one tick over the
  table; the clock readings of a body are arguments.
\<close>

section \<open>State and operations\<close>

record canaryStatsRecord =
  TotalCalls :: int
  ErrorCalls :: int

type_synonym canary_stats = "string \<rightharpoonup> canaryStatsRecord"
type_synonym promotion_times = "string \<rightharpoonup> time"

definition recordCanaryCall :: "Route \<Rightarrow> string \<Rightarrow> int \<Rightarrow> canary_stats \<Rightarrow> canary_stats" where
  "recordCanaryCall route selectedTarget statusCode st =
     (if 1 < length (TargetsWeighted route) \<and> selectedTarget = wt_URL (TargetsWeighted route ! 1) then
        let s = (case st selectedTarget of None \<Rightarrow> \<lparr>TotalCalls = 0, ErrorCalls = 0\<rparr> | Some s \<Rightarrow> s);
            s = s\<lparr>TotalCalls := TotalCalls s + 1\<rparr>;
            s = (if 500 \<le> statusCode then s\<lparr>ErrorCalls := ErrorCalls s + 1\<rparr> else s)
        in st(selectedTarget \<mapsto> s)
      else st)"

definition max_err_rate :: "Route \<Rightarrow> rat" where
  "max_err_rate route = (if CanaryMaxErrorRate route \<le> 0 then f64_round (1 / 100) else CanaryMaxErrorRate route)"

definition promote_interval :: "Route \<Rightarrow> duration" where
  "promote_interval route =
     (let i = wrap64 (CanaryPromoteSec route * time_Second) in if i \<le> 0 then 1 * time_Second else i)"

definition promote_step :: "Route \<Rightarrow> int" where
  "promote_step route = (if CanaryPromoteStep route \<le> 0 then 10 else CanaryPromoteStep route)"

text \<open>\<open>t1\<close> is the clock of \<^verbatim>\<open>time.Since\<close>, \<open>t2\<close> the one of \<^verbatim>\<open>time.Now\<close>.\<close>

fun canary_route ::
  "time \<Rightarrow> time \<Rightarrow> Route \<Rightarrow> canary_stats \<Rightarrow> promotion_times \<Rightarrow> Route \<times> canary_stats \<times> promotion_times" where
  "canary_route t1 t2 route st lp =
     (case TargetsWeighted route of
        stb # canary # rest \<Rightarrow>
          if \<not> CanaryAutoPromote route then (route, st, lp)
          else if 100 \<le> wt_Weight canary then (route\<lparr>CanaryAutoPromote := False\<rparr>, st, lp)
          else
            let (tot, errs) = (case st (wt_URL canary) of None \<Rightarrow> (0, 0) | Some s \<Rightarrow> (TotalCalls s, ErrorCalls s))
            in if 3 \<le> tot \<and> max_err_rate route < f64_div (f64_of_int errs) (f64_of_int tot) then
                 (route\<lparr>TargetsWeighted := stb\<lparr>wt_Weight := 100\<rparr> # canary\<lparr>wt_Weight := 0\<rparr> # rest,
                        CanaryAutoPromote := False\<rparr>,
                  st(wt_URL canary := None), lp)
               else
                 (case lp (Prefix route) of
                    None \<Rightarrow> (route, st, lp(Prefix route \<mapsto> t2))
                  | Some lastTime \<Rightarrow>
                      if promote_interval route \<le> time_Sub t1 lastTime then
                        let w = wrap64 (wt_Weight canary + promote_step route);
                            w = (if 100 < w then 100 else w)
                        in (route\<lparr>TargetsWeighted :=
                                    stb\<lparr>wt_Weight := wrap64 (100 - w)\<rparr> # canary\<lparr>wt_Weight := w\<rparr> # rest\<rparr>,
                            (case st (wt_URL canary) of
                               None \<Rightarrow> st
                             | Some s \<Rightarrow> st(wt_URL canary \<mapsto> s\<lparr>TotalCalls := 0, ErrorCalls := 0\<rparr>)),
                            lp(Prefix route \<mapsto> t2))
                      else (route, st, lp))
      | _ \<Rightarrow> (route, st, lp))"

declare canary_route.simps [simp del]

fun canary_tick ::
  "(nat \<Rightarrow> time \<times> time) \<Rightarrow> Route list \<Rightarrow> canary_stats \<Rightarrow> promotion_times \<Rightarrow> Route list \<times> canary_stats \<times> promotion_times" where
  "canary_tick clock [] st lp = ([], st, lp)"
| "canary_tick clock (r # rs) st lp =
     (let (r', st', lp') = canary_route (fst (clock 0)) (snd (clock 0)) r st lp;
          (rs', st'', lp'') = canary_tick (\<lambda>i. clock (Suc i)) rs st' lp'
      in (r' # rs', st'', lp''))"

section \<open>Well-formed canary routes\<close>

definition canary_weight :: "Route \<Rightarrow> int" where
  "canary_weight r = wt_Weight (TargetsWeighted r ! 1)"

definition stable_weight :: "Route \<Rightarrow> int" where
  "stable_weight r = wt_Weight (TargetsWeighted r ! 0)"

text \<open>The two weights are percentages that add up, and adding the step to a percentage does not
  overflow 64 bits.\<close>

definition canary_ok :: "Route \<Rightarrow> bool" where
  "canary_ok r \<longleftrightarrow> 2 \<le> length (TargetsWeighted r) \<and> 0 \<le> canary_weight r \<and> canary_weight r \<le> 100 \<and>
     stable_weight r + canary_weight r = 100 \<and> CanaryPromoteStep r + 100 < 2 ^ 63"

lemma two_targets: "2 \<le> length xs \<Longrightarrow> \<exists>a b c. xs = a # b # c"
  by (cases xs; cases "tl xs") auto

lemma promote_step_pos: "0 < promote_step r"
  by (simp add: promote_step_def)

lemma promoted_weight:
  assumes "canary_ok r"
  shows "wrap64 (canary_weight r + promote_step r) = canary_weight r + promote_step r"
  using assms promote_step_pos[of r] by (intro wrap64_id) (auto simp: canary_ok_def int64_ok_def promote_step_def)

lemma weight_100: "0 \<le> w \<Longrightarrow> w \<le> 100 \<Longrightarrow> wrap64 (100 - w) = 100 - w"
  by (rule wrap64_id) (simp add: int64_ok_def)

text \<open>What one loop body can do to a well-formed route.\<close>

lemma canary_route_cases:
  assumes "canary_ok r" "canary_route t1 t2 r st lp = (r', st', lp')"
  obtains (keep) "r' = r"
  | (finished) "CanaryAutoPromote r" "100 \<le> canary_weight r" "r' = r\<lparr>CanaryAutoPromote := False\<rparr>"
  | (rollback) "CanaryAutoPromote r" "canary_ok r'" "canary_weight r' = 0" "stable_weight r' = 100" "\<not> CanaryAutoPromote r'"
  | (promote) "CanaryAutoPromote r" "canary_ok r'" "canary_weight r' = min 100 (canary_weight r + promote_step r)"
      "CanaryAutoPromote r'"
proof -
  obtain s c rest where ts: "TargetsWeighted r = s # c # rest"
    using assms(1) two_targets[of "TargetsWeighted r"] by (auto simp: canary_ok_def)
  let ?w = "min 100 (canary_weight r + promote_step r)"
  have w: "(if 100 < wrap64 (wt_Weight c + promote_step r) then 100 else wrap64 (wt_Weight c + promote_step r)) = ?w"
    using promoted_weight[OF assms(1)] by (simp add: canary_weight_def ts)
  have wb: "0 \<le> ?w" "?w \<le> 100"
    using assms(1) promote_step_pos[of r] by (auto simp: canary_ok_def)
  have prom: "canary_ok (r\<lparr>TargetsWeighted := s\<lparr>wt_Weight := wrap64 (100 - ?w)\<rparr> # c\<lparr>wt_Weight := ?w\<rparr> # rest\<rparr>)"
    using assms(1) wb weight_100[OF wb] by (simp add: canary_ok_def canary_weight_def stable_weight_def)
  have rolled: "canary_ok (r\<lparr>TargetsWeighted := s\<lparr>wt_Weight := 100\<rparr> # c\<lparr>wt_Weight := 0\<rparr> # rest, CanaryAutoPromote := False\<rparr>)"
    using assms(1) by (simp add: canary_ok_def canary_weight_def stable_weight_def)
  let ?f = "r\<lparr>CanaryAutoPromote := False\<rparr>"
  let ?b = "r\<lparr>TargetsWeighted := s\<lparr>wt_Weight := 100\<rparr> # c\<lparr>wt_Weight := 0\<rparr> # rest, CanaryAutoPromote := False\<rparr>"
  let ?p = "r\<lparr>TargetsWeighted := s\<lparr>wt_Weight := wrap64 (100 - ?w)\<rparr> # c\<lparr>wt_Weight := ?w\<rparr> # rest\<rparr>"
  have "r' = r \<or> (CanaryAutoPromote r \<and> 100 \<le> wt_Weight c \<and> r' = ?f) \<or> (CanaryAutoPromote r \<and> r' = ?b) \<or> (CanaryAutoPromote r \<and> r' = ?p)"
    using arg_cong[OF assms(2), of fst]
    by (simp add: canary_route.simps[of t1 t2 r st lp] ts w Let_def split_beta split: if_splits option.splits)
  then consider "r' = r" | "CanaryAutoPromote r" "100 \<le> wt_Weight c" "r' = ?f" | "CanaryAutoPromote r" "r' = ?b" | "CanaryAutoPromote r" "r' = ?p"
    by blast
  then show thesis
  proof cases
    case 1
    then show thesis by (rule keep)
  next
    case 2
    then show thesis by (intro finished) (simp_all add: canary_weight_def ts)
  next
    case 3
    then show thesis using rolled by (intro rollback) (simp_all add: canary_weight_def stable_weight_def)
  next
    case 4
    then show thesis using prom by (intro promote) (simp_all add: canary_weight_def ts)
  qed
qed

lemma canary_route_ok:
  assumes "canary_ok r" "canary_route t1 t2 r st lp = (r', st', lp')"
  shows "canary_ok r'"
  using assms by (rule canary_route_cases)
    (use assms(1) in \<open>auto simp: canary_ok_def canary_weight_def stable_weight_def\<close>)

text \<open>What a body never changes.\<close>

lemma canary_route_frame:
  assumes "canary_route t1 t2 r st lp = (r', st', lp')"
  shows "Prefix r' = Prefix r" "\<not> CanaryAutoPromote r \<or> length (TargetsWeighted r) < 2 \<longrightarrow> r' = r"
  using assms
  by (auto simp: canary_route.simps[of t1 t2 r st lp] Let_def split_beta split: if_splits option.splits list.splits)

text \<open>
  One body of a canary whose recorded calls have no error. \<open>no_errors\<close> also holds when no call
  has been recorded.
\<close>

definition no_errors :: "string \<Rightarrow> canary_stats \<Rightarrow> bool" where
  "no_errors url st \<longleftrightarrow> (case st url of None \<Rightarrow> True | Some s \<Rightarrow> ErrorCalls s = 0)"

lemma max_err_rate_nonneg: "0 \<le> max_err_rate r"
  using f64_round_nonneg[of "1 / 100"] by (simp add: max_err_rate_def)

lemma not_rolled_back: "\<not> max_err_rate r < f64_div (f64_of_int 0) (f64_of_int n)"
  using max_err_rate_nonneg[of r] by (simp add: f64_div_def)

text \<open>The last promotion time after a body at which the interval has or has not passed.\<close>

definition due :: "duration \<Rightarrow> time option \<Rightarrow> time \<Rightarrow> bool" where
  "due d lastTime t1 \<longleftrightarrow> (case lastTime of None \<Rightarrow> False | Some t \<Rightarrow> d \<le> time_Sub t1 t)"

definition next_promotion :: "duration \<Rightarrow> time option \<Rightarrow> time \<Rightarrow> time \<Rightarrow> time option" where
  "next_promotion d lastTime t1 t2 = (if lastTime = None \<or> due d lastTime t1 then Some t2 else lastTime)"

lemma canary_route_error_free:
  assumes "TargetsWeighted r = s # c # rest" "canary_ok r" "CanaryAutoPromote r" "wt_Weight c < 100"
    and "no_errors (wt_URL c) st"
  obtains st' where
    "canary_route t1 t2 r st lp =
       (if due (promote_interval r) (lp (Prefix r)) t1
        then r\<lparr>TargetsWeighted := s\<lparr>wt_Weight := 100 - min 100 (wt_Weight c + promote_step r)\<rparr> #
          c\<lparr>wt_Weight := min 100 (wt_Weight c + promote_step r)\<rparr> # rest\<rparr>
        else r,
        st', lp(Prefix r := next_promotion (promote_interval r) (lp (Prefix r)) t1 t2))"
    "no_errors (wt_URL c) st'"
proof -
  let ?w = "min 100 (wt_Weight c + promote_step r)"
  have w: "(if 100 < wrap64 (wt_Weight c + promote_step r) then 100 else wrap64 (wt_Weight c + promote_step r)) = ?w"
    using promoted_weight[OF assms(2)] by (simp add: canary_weight_def assms(1))
  have "wrap64 (100 - ?w) = 100 - ?w"
    using assms(1,2) promote_step_pos[of r] by (intro weight_100) (auto simp: canary_ok_def canary_weight_def)
  moreover have "(case case st (wt_URL c) of None \<Rightarrow> (0, 0) | Some s \<Rightarrow> (TotalCalls s, ErrorCalls s) of
      (tot, errs) \<Rightarrow> 3 \<le> tot \<and> max_err_rate r < f64_div (f64_of_int errs) (f64_of_int tot)) = False"
    using assms(5) not_rolled_back[of r] by (auto simp: no_errors_def split: option.splits)
  ultimately show thesis
    using assms(1,3-5) w
    by (intro that[of "fst (snd (canary_route t1 t2 r st lp))"])
      (auto simp: canary_route.simps[of t1 t2 r] due_def next_promotion_def no_errors_def Let_def fun_upd_idem
        split: option.splits if_splits)
qed

section \<open>Runs of the loop on one route\<close>

text \<open>
  What happens to one route over time: ticks of the loop and calls that \<^verbatim>\<open>ServeHTTP\<close> records
  in between, each with the target it went to and its status.
\<close>

datatype canary_event = CanaryTick time time | CanaryCall string int

fun canary_run :: "canary_event list \<Rightarrow> Route \<Rightarrow> canary_stats \<Rightarrow> promotion_times \<Rightarrow> Route \<times> canary_stats \<times> promotion_times" where
  "canary_run [] r st lp = (r, st, lp)"
| "canary_run (CanaryTick t1 t2 # es) r st lp = (let (r', st', lp') = canary_route t1 t2 r st lp in canary_run es r' st' lp')"
| "canary_run (CanaryCall url status # es) r st lp = canary_run es r (recordCanaryCall r url status st) lp"

text \<open>The number of ticks that find a promotion interval passed since the last promotion, when
  nothing keeps the loop from promoting at each of them.\<close>

fun periods :: "duration \<Rightarrow> time option \<Rightarrow> canary_event list \<Rightarrow> nat" where
  "periods d lastTime [] = 0"
| "periods d lastTime (CanaryTick t1 t2 # es) =
     (if due d lastTime t1 then 1 else 0) + periods d (next_promotion d lastTime t1 t2) es"
| "periods d lastTime (CanaryCall url status # es) = periods d lastTime es"

text \<open>No call to the canary is answered with a server error.\<close>

definition error_free :: "string \<Rightarrow> canary_event list \<Rightarrow> bool" where
  "error_free canary es \<longleftrightarrow> list_all (\<lambda>e. case e of CanaryCall url status \<Rightarrow> url = canary \<longrightarrow> status < 500 | CanaryTick _ _ \<Rightarrow> True) es"

lemma recordCanaryCall_no_errors:
  "no_errors canary st \<Longrightarrow> (url = canary \<longrightarrow> status < 500) \<Longrightarrow> no_errors canary (recordCanaryCall r url status st)"
  by (auto simp: recordCanaryCall_def no_errors_def Let_def split: option.splits)

lemma canary_off:
  assumes "\<not> CanaryAutoPromote r"
  shows "fst (canary_run es r st lp) = r"
  using assms
proof (induction es arbitrary: st)
  case (Cons e es)
  have "canary_route t1 t2 r st lp = (r, st, lp)" for t1 t2
    using Cons.prems by (auto simp: canary_route.simps[of t1 t2 r] split: list.splits)
  with Cons show ?case by (cases e) simp_all
qed simp

lemma canary_full_tick:
  assumes "TargetsWeighted r = s # c # rest" "CanaryAutoPromote r" "100 \<le> wt_Weight c"
  shows "canary_route t1 t2 r st lp = (r\<lparr>CanaryAutoPromote := False\<rparr>, st, lp)"
  using assms by (simp add: canary_route.simps[of t1 t2 r])

lemma canary_ok_targets:
  "TargetsWeighted r = s # c # rest \<Longrightarrow>
   canary_ok r \<longleftrightarrow> 0 \<le> wt_Weight c \<and> wt_Weight c \<le> 100 \<and> wt_Weight s + wt_Weight c = 100 \<and> CanaryPromoteStep r + 100 < 2 ^ 63"
  by (auto simp: canary_ok_def canary_weight_def stable_weight_def)

lemma canary_progress:
  assumes "TargetsWeighted r = s # c # rest" "canary_ok r" "CanaryAutoPromote r" "no_errors (wt_URL c) st"
    "error_free (wt_URL c) es" "100 - wt_Weight c < int (periods (promote_interval r) (lp (Prefix r)) es)"
  shows "\<exists>r'. fst (canary_run es r st lp) = r' \<and>
    TargetsWeighted r' = s\<lparr>wt_Weight := 0\<rparr> # c\<lparr>wt_Weight := 100\<rparr> # rest \<and> \<not> CanaryAutoPromote r'"
  using assms
proof (induction es arbitrary: r st lp s c)
  case Nil
  then show ?case by (simp add: canary_ok_targets)
next
  case (Cons e es)
  show ?case
  proof (cases e)
    case (CanaryCall url status)
    have "no_errors (wt_URL c) (recordCanaryCall r url status st)"
      using Cons.prems(4,5) by (intro recordCanaryCall_no_errors) (auto simp: error_free_def CanaryCall)
    with Cons.IH[OF Cons.prems(1-3) this, of lp] Cons.prems(5,6) show ?thesis
      by (simp add: CanaryCall error_free_def)
  next
    case (CanaryTick t1 t2)
    show ?thesis
    proof (cases "wt_Weight c < 100")
      case False
      with Cons.prems(1,2) have "wt_Weight c = 100" "wt_Weight s = 0" by (auto simp: canary_ok_targets)
      with Cons.prems(1,3) show ?thesis
        by (simp add: CanaryTick canary_full_tick canary_off)
    next
      case True
      let ?d = "promote_interval r" and ?w = "min 100 (wt_Weight c + promote_step r)"
      let ?r = "if due ?d (lp (Prefix r)) t1
        then r\<lparr>TargetsWeighted := s\<lparr>wt_Weight := 100 - ?w\<rparr> # c\<lparr>wt_Weight := ?w\<rparr> # rest\<rparr> else r"
      let ?s = "if due ?d (lp (Prefix r)) t1 then s\<lparr>wt_Weight := 100 - ?w\<rparr> else s"
      let ?c = "if due ?d (lp (Prefix r)) t1 then c\<lparr>wt_Weight := ?w\<rparr> else c"
      obtain st' where step: "canary_route t1 t2 r st lp = (?r, st', lp(Prefix r := next_promotion ?d (lp (Prefix r)) t1 t2))"
        and st': "no_errors (wt_URL c) st'"
        using canary_route_error_free[OF Cons.prems(1-3) True Cons.prems(4)] by metis
      have r: "TargetsWeighted ?r = ?s # ?c # rest" "CanaryAutoPromote ?r" "Prefix ?r = Prefix r"
          "promote_interval ?r = ?d" "wt_URL ?c = wt_URL c"
        using Cons.prems(1,3) by (simp_all add: promote_interval_def)
      have ok: "canary_ok ?r" using canary_route_ok[OF Cons.prems(2) step] .
      have rest: "?s\<lparr>wt_Weight := 0\<rparr> = s\<lparr>wt_Weight := 0\<rparr>" "?c\<lparr>wt_Weight := 100\<rparr> = c\<lparr>wt_Weight := 100\<rparr>" by simp_all
      have "100 - wt_Weight ?c < int (periods ?d (next_promotion ?d (lp (Prefix r)) t1 t2) es)"
        using Cons.prems(6) promote_step_pos[of r] True by (auto simp: CanaryTick split: if_splits)
      then have "\<exists>r'. fst (canary_run es ?r st' (lp(Prefix r := next_promotion ?d (lp (Prefix r)) t1 t2))) = r' \<and>
          TargetsWeighted r' = ?s\<lparr>wt_Weight := 0\<rparr> # ?c\<lparr>wt_Weight := 100\<rparr> # rest \<and> \<not> CanaryAutoPromote r'"
        by (intro Cons.IH[OF r(1) ok r(2)]) (use st' Cons.prems(5) r(3-5) in \<open>simp_all add: CanaryTick error_free_def\<close>)
      then show ?thesis unfolding rest CanaryTick canary_run.simps step Let_def split .
    qed
  qed
qed

section \<open>Properties\<close>

text \<open>C30: one tick of the loop keeps the weights of a canary route a split of one hundred
  percent, route by route and whatever the statistics, the clocks and the other routes of the
  table are: a route whose first two weights lie between 0 and 100 and add up to 100, and whose
  promotion step plus 100 fits 64 bits, still has them so afterwards; a route that is not under
  promotion (automatic promotion off, or fewer than two weighted targets) is not changed at all,
  and the table keeps its length and order.\<close>

theorem canary_tick_keeps_split:
  assumes "canary_tick clock routes st lp = (routes', st', lp')"
  shows "list_all2 (\<lambda>r r'. (canary_ok r \<longrightarrow> canary_ok r') \<and> Prefix r' = Prefix r \<and>
    (\<not> CanaryAutoPromote r \<or> length (TargetsWeighted r) < 2 \<longrightarrow> r' = r)) routes routes'"
  using assms
proof (induction clock routes st lp arbitrary: routes' st' lp' rule: canary_tick.induct)
  case (2 clock r rs st lp)
  obtain r1 st1 lp1 where 1: "canary_route (fst (clock 0)) (snd (clock 0)) r st lp = (r1, st1, lp1)"
    by (metis prod_cases3)
  obtain rs2 st2 lp2 where 2: "canary_tick (\<lambda>i. clock (Suc i)) rs st1 lp1 = (rs2, st2, lp2)"
    by (metis prod_cases3)
  from "2.IH"[OF 1[symmetric] refl refl 2] canary_route_ok[OF _ 1] canary_route_frame[OF 1] "2.prems" 1 2
  show ?case by auto
qed simp

theorem canary_tick_keeps_split_witness:
  "canary_ok (fst (canary_tick (\<lambda>i. (0, 0))
     [zero_route, zero_route\<lparr>TargetsWeighted := [\<lparr>wt_URL = ''v1'', wt_Weight = 90\<rparr>, \<lparr>wt_URL = ''v2'', wt_Weight = 10\<rparr>],
       CanaryAutoPromote := True\<rparr>] Map.empty Map.empty) ! 1)"
proof -
  let ?r = "zero_route\<lparr>TargetsWeighted := [\<lparr>wt_URL = ''v1'', wt_Weight = 90\<rparr>, \<lparr>wt_URL = ''v2'', wt_Weight = 10\<rparr>],
       CanaryAutoPromote := True\<rparr>"
  obtain rs' st' lp' where t: "canary_tick (\<lambda>i. (0, 0)) [zero_route, ?r] Map.empty Map.empty = (rs', st', lp')"
    by (metis prod_cases3)
  have "canary_ok ?r" by (simp add: canary_ok_def canary_weight_def stable_weight_def)
  with canary_tick_keeps_split[OF t] have "canary_ok (rs' ! 1)" by (auto simp: list_all2_Cons1)
  with t show ?thesis by (simp only: fst_conv)
qed



text \<open>C31: a canary without errors is promoted to full weight. Take a route under promotion whose
  first two weights (stable, canary) are percentages that add up to 100 and whose promotion step
  plus 100 fits 64 bits, with no error in the recorded calls of the canary, and let ticks of the
  loop and recorded calls follow in any order, no call to the canary being answered with a status
  of 500 or more. Once \<open>101 - w\<close> ticks (\<open>w\<close> the weight of the canary) have each found a promotion
  interval passed since the last promotion, the canary has weight 100, the stable target 0, any
  further targets their old weights, and promotion is switched off; with two targets the canary
  then carries all traffic. The time of the last promotion may be unset: the first tick sets it.\<close>

theorem canary_reaches_full_weight:
  assumes "TargetsWeighted r = s # c # rest" and "canary_ok r" and "CanaryAutoPromote r"
    and "no_errors (wt_URL c) st" and "error_free (wt_URL c) events"
    and "101 - wt_Weight c \<le> int (periods (promote_interval r) (lp (Prefix r)) events)"
  shows "\<exists>r' st' lp'. canary_run events r st lp = (r', st', lp') \<and>
    TargetsWeighted r' = s\<lparr>wt_Weight := 0\<rparr> # c\<lparr>wt_Weight := 100\<rparr> # rest \<and> \<not> CanaryAutoPromote r'"
proof -
  have "100 - wt_Weight c < int (periods (promote_interval r) (lp (Prefix r)) events)" using assms(6) by simp
  from canary_progress[OF assms(1-5), of lp, OF this] show ?thesis by (metis fst_conv prod_cases3)
qed

theorem canary_reaches_full_weight_witness:
  "\<exists>r' st' lp'. canary_run [CanaryTick 0 0, CanaryCall ''v2'' 200, CanaryTick 1000000000 1000000000, CanaryTick 1200000000 1200000000,
       CanaryTick 2000000000 2000000000, CanaryCall ''v2'' 404, CanaryTick 3000000000 3000000000]
     (zero_route\<lparr>TargetsWeighted := [\<lparr>wt_URL = ''v1'', wt_Weight = 2\<rparr>, \<lparr>wt_URL = ''v2'', wt_Weight = 98\<rparr>],
       CanaryAutoPromote := True, CanaryPromoteStep := 1\<rparr>) [''v2'' \<mapsto> \<lparr>TotalCalls = 4, ErrorCalls = 0\<rparr>] Map.empty = (r', st', lp') \<and>
     TargetsWeighted r' = [\<lparr>wt_URL = ''v1'', wt_Weight = 0\<rparr>, \<lparr>wt_URL = ''v2'', wt_Weight = 100\<rparr>] \<and> \<not> CanaryAutoPromote r'"
proof -
  let ?s = "\<lparr>wt_URL = ''v1'', wt_Weight = 2\<rparr>" and ?c = "\<lparr>wt_URL = ''v2'', wt_Weight = 98\<rparr>"
  let ?r = "zero_route\<lparr>TargetsWeighted := [?s, ?c], CanaryAutoPromote := True, CanaryPromoteStep := 1\<rparr>"
  let ?es = "[CanaryTick 0 0, CanaryCall ''v2'' 200, CanaryTick 1000000000 1000000000, CanaryTick 1200000000 1200000000,
       CanaryTick 2000000000 2000000000, CanaryCall ''v2'' 404, CanaryTick 3000000000 3000000000]"
  have "promote_interval ?r = 1000000000" by (simp add: promote_interval_def time_units wrap64_def Let_def)
  then have "periods (promote_interval ?r) (Map.empty (Prefix ?r)) ?es = 3"
    by (simp add: due_def next_promotion_def time_Sub_def)
  then show ?thesis
    using canary_reaches_full_weight[of ?r ?s ?c "[]" "[''v2'' \<mapsto> \<lparr>TotalCalls = 4, ErrorCalls = 0\<rparr>]" ?es Map.empty]
    by (simp add: canary_ok_targets no_errors_def error_free_def)
qed

end
