(* ===== verification/Http.thy ===== *)
theory Http
  imports Prelude
begin

text \<open>
  The part of Go's \<^verbatim>\<open>net/http\<close> that the gateway is written against: header maps,
  requests, the bodies it reads with \<^verbatim>\<open>io.ReadAll\<close> (under the limit that
  \<^verbatim>\<open>http.MaxBytesReader\<close> sets), and the server's response writer. On top of it, the
  error responses of pkg/proxy/errors.go.
\<close>

section \<open>Headers\<close>

text \<open>
  An \<^verbatim>\<open>http.Header\<close> maps canonical names to lists of values. It is ranged over, so it
  is an association list. A name is canonical when its first letter and every letter after a
  hyphen are upper case and the other letters lower case; names with a byte that is not a token
  byte stay as they are.
\<close>

type_synonym http_header = "(string \<times> string list) list"

definition upper_char :: "char \<Rightarrow> char" where
  "upper_char c = (let n = (of_char c :: nat) in if 97 \<le> n \<and> n \<le> 122 then char_of (n - 32) else c)"

definition is_token_char :: "char \<Rightarrow> bool" where
  "is_token_char c \<longleftrightarrow> (let n = (of_char c :: nat) in
     (48 \<le> n \<and> n \<le> 57) \<or> (65 \<le> n \<and> n \<le> 90) \<or> (97 \<le> n \<and> n \<le> 122) \<or> c \<in> set ''!#$%&*+-.^_|~'' \<or> n = 39 \<or> n = 96)"

fun canon_aux :: "bool \<Rightarrow> string \<Rightarrow> string" where
  "canon_aux up [] = []"
| "canon_aux up (c # cs) = (if up then upper_char c else lower_char c) # canon_aux (c = CHR ''-'') cs"

definition CanonicalHeaderKey :: "string \<Rightarrow> string" where
  "CanonicalHeaderKey s = (if list_all is_token_char s then canon_aux True s else s)"

definition Header_Get :: "http_header \<Rightarrow> string \<Rightarrow> string" where
  "Header_Get h k = (case map_of h (CanonicalHeaderKey k) of Some (v # _) \<Rightarrow> v | _ \<Rightarrow> [])"

definition Header_Set :: "string \<Rightarrow> string \<Rightarrow> http_header \<Rightarrow> http_header" where
  "Header_Set k v h = AList.update (CanonicalHeaderKey k) [v] h"

definition Header_Add :: "string \<Rightarrow> string \<Rightarrow> http_header \<Rightarrow> http_header" where
  "Header_Add k v h =
     (let ck = CanonicalHeaderKey k in AList.update ck ((case map_of h ck of None \<Rightarrow> [] | Some vs \<Rightarrow> vs) @ [v]) h)"

text \<open>The loops \<^verbatim>\<open>for k, vs := range src { for _, v := range vs { dst.Add(k, v) } }\<close>.\<close>

definition add_headers :: "http_header \<Rightarrow> http_header \<Rightarrow> http_header" where
  "add_headers src dst = fold (\<lambda>(k, vs) d. fold (Header_Add k) vs d) src dst"

lemma Header_Get_Set: "Header_Get (Header_Set k v h) l = (if CanonicalHeaderKey k = CanonicalHeaderKey l then v else Header_Get h l)"
  by (simp add: Header_Get_def Header_Set_def update_conv)

lemma keys_distinct_Header_Set [simp]: "keys_distinct h \<Longrightarrow> keys_distinct (Header_Set k v h)"
  by (simp add: Header_Set_def)

section \<open>Requests and bodies\<close>

text \<open>
  A request body is the bytes still to come. \<open>Limited s n\<close> is a body behind
  \<^verbatim>\<open>http.MaxBytesReader\<close> with \<open>n\<close> bytes left; reading past the limit fails, and keeps
  failing (\<open>ReadFailed\<close>). \<open>Broken s\<close> is a client connection that breaks after \<open>s\<close>.
\<close>

datatype body = Plain string | Limited string nat | Broken string | ReadFailed

definition ReadAll :: "body \<Rightarrow> string \<times> bool \<times> body" where
  "ReadAll b = (case b of
     Plain s \<Rightarrow> (s, True, Plain [])
   | Limited s n \<Rightarrow> if length s \<le> n then (s, True, Limited [] (n - length s)) else (take n s, False, ReadFailed)
   | Broken s \<Rightarrow> (s, False, ReadFailed)
   | ReadFailed \<Rightarrow> ([], False, ReadFailed))"

definition MaxBytesReader :: "body \<Rightarrow> nat \<Rightarrow> body" where
  "MaxBytesReader b n = (case b of Plain s \<Rightarrow> Limited s n
     | Broken s \<Rightarrow> (if n < length s then Limited s n else Broken s) | _ \<Rightarrow> b)"

lemma ReadAll_bound: "ReadAll (MaxBytesReader (Plain s) n) = (d, ok, b') \<Longrightarrow> length d \<le> n \<and> (ok \<longleftrightarrow> length s \<le> n) \<and> d = take n s"
  by (auto simp: ReadAll_def MaxBytesReader_def split: if_splits)

record request =
  rq_Method :: string
  rq_Path :: string
  rq_RawQuery :: string
  rq_Header :: http_header
  rq_RemoteAddr :: string
  rq_ContentLength :: int
  rq_Body :: body
  rq_Host :: string
  rq_tenant :: "string option"
  rq_redact :: "string list option"

section \<open>The server's response writer\<close>

text \<open>
  What the client sees: the final status, the headers as they were when it was sent, the
  informational (1xx) statuses sent before it, and the body. A second final
  \<^verbatim>\<open>WriteHeader\<close> is ignored; a status from 100 to 199 other than 101 is sent at once and is
  not final; \<^verbatim>\<open>Write\<close> sends status 200 when none has been sent.
\<close>

record response_writer =
  w_header :: http_header
  w_status :: "int option"
  w_sent :: http_header
  w_info :: "int list"
  w_body :: string

definition new_writer :: response_writer where
  "new_writer = \<lparr>w_header = [], w_status = None, w_sent = [], w_info = [], w_body = []\<rparr>"

definition is_informational :: "int \<Rightarrow> bool" where
  "is_informational c \<longleftrightarrow> 100 \<le> c \<and> c \<le> 199 \<and> c \<noteq> 101"

definition w_WriteHeader :: "int \<Rightarrow> response_writer \<Rightarrow> response_writer" where
  "w_WriteHeader c w = (if w_status w \<noteq> None then w
     else if is_informational c then w\<lparr>w_info := w_info w @ [c]\<rparr>
     else w\<lparr>w_status := Some c, w_sent := w_header w\<rparr>)"

definition w_Write :: "string \<Rightarrow> response_writer \<Rightarrow> response_writer" where
  "w_Write b w = (let w = (if w_status w = None then w_WriteHeader 200 w else w) in w\<lparr>w_body := w_body w @ b\<rparr>)"

definition w_Set :: "string \<Rightarrow> string \<Rightarrow> response_writer \<Rightarrow> response_writer" where
  "w_Set k v w = w\<lparr>w_header := Header_Set k v (w_header w)\<rparr>"

lemmas writer_defs = w_WriteHeader_def w_Write_def w_Set_def is_informational_def

lemma w_Write_status [simp]: "w_status (w_Write b w) = (if w_status w = None then Some 200 else w_status w)"
  by (simp add: writer_defs)

lemma w_Set_status [simp]: "w_status (w_Set k v w) = w_status w"
  by (simp add: w_Set_def)

lemma w_WriteHeader_status [simp]:
  "w_status (w_WriteHeader c w) = (if w_status w = None \<and> \<not> is_informational c then Some c else w_status w)"
  by (simp add: w_WriteHeader_def)

section \<open>Error responses\<close>

record APIError =
  err_Error :: string
  err_Code :: string
  err_TraceID :: string

text \<open>
  \<^verbatim>\<open>WriteJSONError\<close> (errors.go). \<open>enc\<close> is \<^verbatim>\<open>json.NewEncoder(w).Encode\<close>, the bytes it
  writes for the error object.
\<close>

definition error_trace_id :: "http_header \<Rightarrow> string" where
  "error_trace_id h = (let traceparent = Header_Get h ''traceparent'' in
     if traceparent \<noteq> [] then (let parts = Split traceparent CHR ''-'' in if 2 \<le> length parts then parts ! 1 else []) else [])"

definition WriteJSONError :: "(APIError \<Rightarrow> string) \<Rightarrow> request \<Rightarrow> string \<Rightarrow> string \<Rightarrow> int \<Rightarrow> response_writer \<Rightarrow> response_writer" where
  "WriteJSONError enc r msg code status w =
     w_Write (enc \<lparr>err_Error = msg, err_Code = code, err_TraceID = error_trace_id (rq_Header r)\<rparr>)
       (w_WriteHeader status (w_Set ''Content-Type'' ''application/json'' w))"

lemma WriteJSONError_status:
  "w_status w = None \<Longrightarrow> \<not> is_informational s \<Longrightarrow> w_status (WriteJSONError enc r m c s w) = Some s"
  by (simp add: WriteJSONError_def)

lemma error_trace_id_version_00:
  "CHR ''-'' \<notin> set t \<Longrightarrow> CHR ''-'' \<notin> set v \<Longrightarrow> Header_Get h ''traceparent'' = v @ CHR ''-'' # t @ CHR ''-'' # rest \<Longrightarrow> error_trace_id h = t"
  by (simp add: error_trace_id_def Split_append_sep Let_def)

end
