(* ===== verification/Response_Cache.thy ===== *)
theory Response_Cache
  imports Http "HOL-Library.List_Lexorder" "HOL-Library.Char_ord" "HOL-Library.Multiset"
begin

text \<open>
  The response cache of pkg/proxy/cache.go. \<^verbatim>\<open>Get\<close> takes the lock twice: it reads the
  entry under the read lock and, when the entry has expired, deletes the key under the write lock
  in a second critical section. The two are separate operations here
  (\<open>Get_read\<close>, \<open>Get_remove\<close>), and \<open>cache_run\<close> executes any interleaving of the
  critical sections of concurrent callers and of the eviction goroutine.
\<close>

record HTTPCacheEntry =
  ce_Body :: string
  ce_StatusCode :: int
  ce_Headers :: http_header
  ce_ExpiresAt :: time

record ResponseCache =
  entries :: "(string \<times> HTTPCacheEntry) list"
  ttl :: duration
  stopped :: bool

definition NewResponseCache :: "duration \<Rightarrow> ResponseCache" where
  "NewResponseCache d = \<lparr>entries = [], ttl = d, stopped = False\<rparr>"

definition cloneHeaders :: "http_header \<Rightarrow> http_header" where
  "cloneHeaders src = fold (\<lambda>(k, vs) dst. AList.update k vs dst) src []"

datatype get_outcome = Absent | Stale | Fresh HTTPCacheEntry

definition Get_read :: "string \<Rightarrow> time \<Rightarrow> ResponseCache \<Rightarrow> get_outcome" where
  "Get_read key now rc = (case map_of (entries rc) key of
     None \<Rightarrow> Absent
   | Some entry \<Rightarrow> if now > ce_ExpiresAt entry then Stale else Fresh entry)"

definition Get_remove :: "string \<Rightarrow> ResponseCache \<Rightarrow> ResponseCache" where
  "Get_remove key rc = rc\<lparr>entries := AList.delete key (entries rc)\<rparr>"

definition ResponseCache_Get :: "string \<Rightarrow> time \<Rightarrow> ResponseCache \<Rightarrow> HTTPCacheEntry option \<times> ResponseCache" where
  "ResponseCache_Get key now rc = (case Get_read key now rc of
     Absent \<Rightarrow> (None, rc)
   | Stale \<Rightarrow> (None, Get_remove key rc)
   | Fresh entry \<Rightarrow> (Some entry, rc))"

definition mk_entry :: "string \<Rightarrow> int \<Rightarrow> http_header \<Rightarrow> time \<Rightarrow> HTTPCacheEntry" where
  "mk_entry b statusCode headers expires =
     \<lparr>ce_Body = b, ce_StatusCode = statusCode, ce_Headers = cloneHeaders headers, ce_ExpiresAt = expires\<rparr>"

definition ResponseCache_Set ::
  "string \<Rightarrow> string \<Rightarrow> int \<Rightarrow> http_header \<Rightarrow> time \<Rightarrow> ResponseCache \<Rightarrow> ResponseCache" where
  "ResponseCache_Set key b statusCode headers now rc =
     rc\<lparr>entries := AList.update key (mk_entry b statusCode headers (now + ttl rc)) (entries rc)\<rparr>"

definition Invalidate :: "string \<Rightarrow> ResponseCache \<Rightarrow> int \<times> ResponseCache" where
  "Invalidate pfx rc =
     (if pfx = [] then (int (length (entries rc)), rc\<lparr>entries := []\<rparr>)
      else (int (length (filter (\<lambda>(key, _). HasPrefix key pfx) (entries rc))),
            rc\<lparr>entries := filter (\<lambda>(key, _). \<not> HasPrefix key pfx) (entries rc)\<rparr>))"

definition Size :: "ResponseCache \<Rightarrow> int" where
  "Size rc = int (length (entries rc))"

definition Stop :: "ResponseCache \<Rightarrow> go_panic + ResponseCache" where
  "Stop rc = (if stopped rc then Inl CloseOfClosedChannel else Inr (rc\<lparr>stopped := True\<rparr>))"

definition evictExpired :: "time \<Rightarrow> ResponseCache \<Rightarrow> ResponseCache" where
  "evictExpired now rc = rc\<lparr>entries := filter (\<lambda>(_, entry). \<not> now > ce_ExpiresAt entry) (entries rc)\<rparr>"

text \<open>
  \<^verbatim>\<open>CacheKey\<close>; \<open>sha256hex\<close> is the hexadecimal SHA-256 digest. \<^verbatim>\<open>sort.Strings\<close> sorts
  bytewise, the order of \<open>List_Lexorder\<close> on \<open>char\<close> lists.
\<close>

definition cache_key_text :: "string \<Rightarrow> string \<Rightarrow> string \<Rightarrow> string" where
  "cache_key_text meth path rawQuery = meth @ '':'' @ path @
     (if rawQuery \<noteq> [] then ''?'' @ Join (sort (Split rawQuery CHR ''&'')) ''&'' else [])"

definition CacheKey :: "(string \<Rightarrow> string) \<Rightarrow> string \<Rightarrow> string \<Rightarrow> string \<Rightarrow> string" where
  "CacheKey sha256hex meth path rawQuery = sha256hex (cache_key_text meth path rawQuery)"

definition IsCacheableMethod :: "string \<Rightarrow> string list \<Rightarrow> bool" where
  "IsCacheableMethod meth allowedMethods =
     (if allowedMethods = [] then meth = ''GET'' else list_ex (\<lambda>m. EqualFold meth m) allowedMethods)"

section \<open>Interleavings\<close>

datatype cache_event =
    CSet string string int http_header time
  | CRemove string
  | CInvalidate string
  | CEvict time

fun cache_step :: "cache_event \<Rightarrow> ResponseCache \<Rightarrow> ResponseCache" where
  "cache_step (CSet k b s h now) rc = ResponseCache_Set k b s h now rc"
| "cache_step (CRemove k) rc = Get_remove k rc"
| "cache_step (CInvalidate p) rc = snd (Invalidate p rc)"
| "cache_step (CEvict now) rc = evictExpired now rc"

definition cache_run :: "cache_event list \<Rightarrow> ResponseCache \<Rightarrow> ResponseCache" where
  "cache_run evs rc = fold cache_step evs rc"

lemma cache_run_simps [simp]:
  "cache_run [] rc = rc"
  "cache_run (e # evs) rc = cache_run evs (cache_step e rc)"
  "cache_run (evs @ evs') rc = cache_run evs' (cache_run evs rc)"
  by (simp_all add: cache_run_def)

section \<open>Invariant: one entry per key\<close>

definition cache_inv :: "ResponseCache \<Rightarrow> bool" where
  "cache_inv rc \<longleftrightarrow> keys_distinct (entries rc)"

lemma cache_inv_new [simp]: "cache_inv (NewResponseCache d)"
  by (simp add: cache_inv_def NewResponseCache_def)

lemma new_cache_simps [simp]: "entries (NewResponseCache d) = []" "ttl (NewResponseCache d) = d"
  by (simp_all add: NewResponseCache_def)

lemma cache_inv_step [simp]: "cache_inv rc \<Longrightarrow> cache_inv (cache_step e rc)"
  by (cases e) (simp_all add: cache_inv_def ResponseCache_Set_def Get_remove_def Invalidate_def evictExpired_def)

lemma cache_inv_run [simp]: "cache_inv rc \<Longrightarrow> cache_inv (cache_run evs rc)"
  by (induction evs arbitrary: rc) simp_all

lemma ttl_step [simp]: "ttl (cache_step e rc) = ttl rc"
  by (cases e) (simp_all add: ResponseCache_Set_def Get_remove_def Invalidate_def evictExpired_def)

lemma ttl_run [simp]: "ttl (cache_run evs rc) = ttl rc"
  by (induction evs arbitrary: rc) simp_all

lemma cloneHeaders_fold:
  "keys_distinct (acc @ src) \<Longrightarrow> fold (\<lambda>(k, vs) dst. AList.update k vs dst) src acc = acc @ src"
proof (induction src arbitrary: acc)
  case (Cons a src)
  obtain k vs where a: "a = (k, vs)" by (cases a)
  from Cons.prems a have "k \<notin> fst ` set acc" by (auto simp: keys_distinct_def)
  then have "AList.update k vs acc = acc @ [(k, vs)]" by (induction acc) auto
  with Cons.IH[of "acc @ [a]"] Cons.prems a show ?case by simp
qed simp

lemma cloneHeaders_id: "keys_distinct h \<Longrightarrow> cloneHeaders h = h"
  using cloneHeaders_fold[of "[]" h] by (simp add: cloneHeaders_def)

section \<open>What a lookup can see\<close>

text \<open>The effect of one critical section on the entry of key \<open>k\<close>.\<close>

lemma lookup_step:
  assumes "cache_inv rc"
  shows "map_of (entries (cache_step e rc)) k = (case e of
     CSet k' b s h now \<Rightarrow> if k' = k then Some (mk_entry b s h (now + ttl rc)) else map_of (entries rc) k
   | CRemove k' \<Rightarrow> if k' = k then None else map_of (entries rc) k
   | CInvalidate p \<Rightarrow> if HasPrefix k p then None else map_of (entries rc) k
   | CEvict now \<Rightarrow> (case map_of (entries rc) k of None \<Rightarrow> None
        | Some en \<Rightarrow> if now > ce_ExpiresAt en then None else Some en))"
  using assms
  by (cases e)
    (auto simp: cache_inv_def ResponseCache_Set_def Get_remove_def Invalidate_def evictExpired_def
      update_conv delete_conv map_of_filter_distinct split: option.splits)

text \<open>The critical sections that leave the entry of a key with expiry time \<open>expires\<close> alone.\<close>

fun spares :: "string \<Rightarrow> time \<Rightarrow> cache_event \<Rightarrow> bool" where
  "spares k expires (CSet k' b st h now) = (k' \<noteq> k)"
| "spares k expires (CRemove k') = (k' \<noteq> k)"
| "spares k expires (CInvalidate p) = (\<not> HasPrefix k p)"
| "spares k expires (CEvict now) = (now \<le> expires)"

lemma spared_entry:
  assumes "cache_inv rc" "map_of (entries rc) k = Some en" "list_all (spares k (ce_ExpiresAt en)) evs"
  shows "map_of (entries (cache_run evs rc)) k = Some en"
  using assms
proof (induction evs arbitrary: rc)
  case (Cons e evs)
  then have "map_of (entries (cache_step e rc)) k = Some en"
    by (subst lookup_step) (auto split: cache_event.splits)
  with Cons show ?case by simp
qed simp

fun last_set :: "string \<Rightarrow> duration \<Rightarrow> cache_event list \<Rightarrow> HTTPCacheEntry option" where
  "last_set k d [] = None"
| "last_set k d (e # evs) = (case last_set k d evs of
     Some en \<Rightarrow> Some en
   | None \<Rightarrow> (case e of CSet k' b s h now \<Rightarrow> if k' = k then Some (mk_entry b s h (now + d)) else None | _ \<Rightarrow> None))"

lemma lookup_run:
  "cache_inv rc \<Longrightarrow> map_of (entries (cache_run evs rc)) k = Some en \<Longrightarrow>
   last_set k (ttl rc) evs = Some en \<or> (last_set k (ttl rc) evs = None \<and> map_of (entries rc) k = Some en)"
proof (induction evs arbitrary: rc)
  case (Cons e evs)
  then have "last_set k (ttl rc) evs = Some en \<or>
      (last_set k (ttl rc) evs = None \<and> map_of (entries (cache_step e rc)) k = Some en)"
    using Cons.IH[of "cache_step e rc"] by simp
  then show ?case
    using lookup_step[OF Cons.prems(1), of e k]
    by (auto split: cache_event.splits if_splits option.splits)
qed simp

text \<open>
  A \<open>read-only view\<close> for the clients of the cache: what a store-like object promises to
  code that only stores and looks up.
\<close>

locale ttl_store =
  fixes inv :: "'s \<Rightarrow> bool"
    and life :: "'s \<Rightarrow> duration"
    and view :: "'v \<Rightarrow> 'r"
    and lookup :: "string \<Rightarrow> time \<Rightarrow> 's \<Rightarrow> 'r option \<times> 's"
    and store :: "string \<Rightarrow> 'v \<Rightarrow> time \<Rightarrow> 's \<Rightarrow> 's"
  assumes inv_store: "inv s \<Longrightarrow> inv (store k v t s)"
    and inv_lookup: "inv s \<Longrightarrow> inv (snd (lookup k t s))"
    and hit: "inv s \<Longrightarrow> t' \<le> t + life s \<Longrightarrow> fst (lookup k t' (store k v t s)) = Some (view v)"
    and expired: "inv s \<Longrightarrow> t' > t + life s \<Longrightarrow> fst (lookup k t' (store k v t s)) = None"
    and other_store: "inv s \<Longrightarrow> k' \<noteq> k \<Longrightarrow> fst (lookup k t' (store k' v t s)) = fst (lookup k t' s)"
    and other_lookup: "inv s \<Longrightarrow> k' \<noteq> k \<Longrightarrow> fst (lookup k t (snd (lookup k' t' s))) = fst (lookup k t s)"
    and same_lookup: "inv s \<Longrightarrow> t' \<le> t \<Longrightarrow> fst (lookup k t (snd (lookup k t' s))) = fst (lookup k t s)"
begin

text \<open>A client's later accesses: lookups (\<open>Inl\<close>) and stores under other keys (\<open>Inr\<close>).\<close>

fun accesses :: "(string \<times> time + string \<times> 'v \<times> time) list \<Rightarrow> 's \<Rightarrow> 's" where
  "accesses [] s = s"
| "accesses (Inl (k, t) # xs) s = accesses xs (snd (lookup k t s))"
| "accesses (Inr (k, v, t) # xs) s = accesses xs (store k v t s)"

lemma accesses_keep:
  "inv s \<Longrightarrow> (\<And>k' t'. Inl (k', t') \<in> set xs \<Longrightarrow> t' \<le> t) \<Longrightarrow> (\<And>k' v t'. Inr (k', v, t') \<in> set xs \<Longrightarrow> k' \<noteq> k) \<Longrightarrow>
   fst (lookup k t (accesses xs s)) = fst (lookup k t s)"
proof (induction xs s rule: accesses.induct)
  case (2 k' t' xs s)
  from 2(3) have "t'' \<le> t" if "Inl (k'', t'') \<in> set xs" for k'' t'' using that by auto
  with 2 have "fst (lookup k t (accesses xs (snd (lookup k' t' s)))) = fst (lookup k t (snd (lookup k' t' s)))"
    by (simp add: inv_lookup)
  moreover from 2(3) have "t' \<le> t" by auto
  ultimately show ?case using 2(2) by (cases "k' = k") (simp_all add: same_lookup other_lookup)
next
  case (3 k' v t' xs s)
  from 3(4)[of k' v t'] have "k' \<noteq> k" by simp
  moreover from 3(4) have "k'' \<noteq> k" if "Inr (k'', v'', t'') \<in> set xs" for k'' v'' t'' using that by auto
  with 3 have "fst (lookup k t (accesses xs (store k' v t' s))) = fst (lookup k t (store k' v t' s))"
    by (simp add: inv_store)
  ultimately show ?case using 3 by (simp add: other_store)
qed simp

lemma stored_until_expiry:
  "inv s \<Longrightarrow> (\<And>k' t. Inl (k', t) \<in> set xs \<Longrightarrow> t \<le> t') \<Longrightarrow> (\<And>k' v t. Inr (k', v, t) \<in> set xs \<Longrightarrow> k' \<noteq> k) \<Longrightarrow>
   fst (lookup k t' (accesses xs (store k v t s))) = (if t' \<le> t + life s then Some (view v) else None)"
  using accesses_keep[of "store k v t s" xs t' k] by (simp add: inv_store hit expired)

end

definition store_response :: "string \<Rightarrow> string \<times> int \<times> http_header \<Rightarrow> time \<Rightarrow> ResponseCache \<Rightarrow> ResponseCache" where
  "store_response k v t rc = (case v of (b, s, h) \<Rightarrow> ResponseCache_Set k b s h t rc)"

definition lookup_response :: "string \<Rightarrow> time \<Rightarrow> ResponseCache \<Rightarrow> (string \<times> int \<times> http_header) option \<times> ResponseCache" where
  "lookup_response k t rc = (case ResponseCache_Get k t rc of
     (e, rc') \<Rightarrow> (map_option (\<lambda>e. (ce_Body e, ce_StatusCode e, ce_Headers e)) e, rc'))"

definition stored_view :: "string \<times> int \<times> http_header \<Rightarrow> string \<times> int \<times> http_header" where
  "stored_view v = (fst v, fst (snd v), cloneHeaders (snd (snd v)))"

lemma ResponseCache_Get_store:
  "cache_inv rc \<Longrightarrow> fst (ResponseCache_Get k t' (ResponseCache_Set k' b s h t rc)) =
   (if k' = k then (if t' > t + ttl rc then None else Some (mk_entry b s h (t + ttl rc))) else fst (ResponseCache_Get k t' rc))"
  by (simp add: ResponseCache_Get_def Get_read_def ResponseCache_Set_def update_conv mk_entry_def
      split: option.splits)

lemma ResponseCache_Get_get:
  "cache_inv rc \<Longrightarrow> k' \<noteq> k \<or> t' \<le> t \<Longrightarrow> fst (ResponseCache_Get k t (snd (ResponseCache_Get k' t' rc))) = fst (ResponseCache_Get k t rc)"
  by (auto simp: ResponseCache_Get_def Get_read_def Get_remove_def delete_conv cache_inv_def split: option.splits)

lemma cache_inv_Get: "cache_inv rc \<Longrightarrow> cache_inv (snd (ResponseCache_Get k t rc)) \<and> ttl (snd (ResponseCache_Get k t rc)) = ttl rc"
  by (auto simp: ResponseCache_Get_def Get_read_def Get_remove_def cache_inv_def split: option.splits)

lemma ttl_Get: "ttl (snd (ResponseCache_Get k t rc)) = ttl rc"
  by (auto simp: ResponseCache_Get_def Get_read_def Get_remove_def split: option.splits)

lemma fst_lookup_response:
  "fst (lookup_response k t rc) = map_option (\<lambda>e. (ce_Body e, ce_StatusCode e, ce_Headers e)) (fst (ResponseCache_Get k t rc))"
  "snd (lookup_response k t rc) = snd (ResponseCache_Get k t rc)"
  by (simp_all add: lookup_response_def split_beta)

interpretation response_cache: ttl_store cache_inv ttl stored_view lookup_response store_response
proof unfold_locales
  fix rc k v t assume "cache_inv rc"
  then show "cache_inv (store_response k v t rc)"
    by (simp add: store_response_def ResponseCache_Set_def cache_inv_def split: prod.splits)
qed (auto simp: fst_lookup_response store_response_def ResponseCache_Get_store ResponseCache_Get_get cache_inv_Get
    stored_view_def mk_entry_def split: prod.splits)

section \<open>Properties\<close>

text \<open>A stored response is found until its time to live has passed and not afterwards,
  whatever lookups and whatever stores of other keys happen in between.\<close>

theorem cache_get_after_set:
  assumes "cache_inv rc"
    and "\<And>k' t. Inl (k', t) \<in> set xs \<Longrightarrow> t \<le> t'" and "\<And>k' v t. Inr (k', v, t) \<in> set xs \<Longrightarrow> k' \<noteq> k"
  shows "fst (lookup_response k t' (response_cache.accesses xs (store_response k (b, s, h) t rc))) =
    (if t' \<le> t + ttl rc then Some (b, s, cloneHeaders h) else None)"
  using response_cache.stored_until_expiry[OF assms(1), of xs t' k "(b, s, h)" t] assms(2,3)
  by (simp add: stored_view_def)

theorem cache_get_after_set_witness:
  "fst (lookup_response ''a'' 10 (response_cache.accesses [Inl (''b'', 9), Inr (''c'', (''C'', 200, []), 9)]
     (store_response ''a'' (''A'', 200, []) 5 (NewResponseCache 5)))) = Some (''A'', 200, [])"
  using cache_get_after_set[of "NewResponseCache 5" "[Inl (''b'', 9), Inr (''c'', (''C'', 200, []), 9)]" 10 "''a''" "''A''" 200 "[]" 5]
  by (simp add: cloneHeaders_def)

text \<open>C24: under any interleaving of the critical sections of concurrent stores, lookups,
  invalidations and evictions, a lookup that hits returns the response of the most recent store
  under that key, and never an expired one.\<close>

theorem cache_hit_is_last_set:
  assumes "Get_read k now (cache_run evs (NewResponseCache d)) = Fresh en"
  shows "last_set k d evs = Some en \<and> now \<le> ce_ExpiresAt en"
proof -
  from assms have "map_of (entries (cache_run evs (NewResponseCache d))) k = Some en" "now \<le> ce_ExpiresAt en"
    by (auto simp: Get_read_def split: option.splits if_splits)
  with lookup_run[of "NewResponseCache d" evs k en] show ?thesis by simp
qed

theorem cache_hit_is_last_set_witness:
  "last_set ''k'' 5 [CSet ''k'' ''old'' 200 [] 0, CEvict 9, CSet ''k'' ''new'' 200 [] 10, CRemove ''j''] =
     Some (mk_entry ''new'' 200 [] 15) \<and> 12 \<le> ce_ExpiresAt (mk_entry ''new'' 200 [] 15)"
  by (rule cache_hit_is_last_set)
    (simp add: Get_read_def NewResponseCache_def ResponseCache_Set_def evictExpired_def Get_remove_def mk_entry_def
      cloneHeaders_def)

section \<open>Keys\<close>

lemma Split_Join: "xs \<noteq> [] \<Longrightarrow> \<forall>x\<in>set xs. c \<notin> set x \<Longrightarrow> Split (Join xs [c]) c = xs"
  by (induction xs "[c]" rule: Join.induct) (simp_all add: Split_no_sep Split_append_sep)

lemma sorted_split_eq_iff:
  "Join (sort (Split q c)) [c] = Join (sort (Split q' c)) [c] \<longleftrightarrow> mset (Split q c) = mset (Split q' c)"
proof
  have ne: "sort (Split r c) \<noteq> []" for r by (metis Split_nonempty mset_sort mset_zero_iff)
  assume "Join (sort (Split q c)) [c] = Join (sort (Split q' c)) [c]"
  then have "Split (Join (sort (Split q c)) [c]) c = Split (Join (sort (Split q' c)) [c]) c" by simp
  then have "sort (Split q c) = sort (Split q' c)"
    using ne by (simp add: Split_Join Split_pieces)
  then show "mset (Split q c) = mset (Split q' c)" by (metis mset_sort)
qed (metis properties_for_sort sorted_sort mset_sort)

lemma append_sep_eq: "c \<notin> set a \<Longrightarrow> c \<notin> set a' \<Longrightarrow> a @ c # x = a' @ c # y \<longleftrightarrow> a = a' \<and> x = y"
proof (induction a arbitrary: a')
  case Nil
  then show ?case by (cases a') auto
next
  case (Cons z a)
  then show ?case by (cases a') auto
qed


lemma cache_key_text_eq_iff:
  assumes "CHR '':'' \<notin> set m" "CHR '':'' \<notin> set m'" "CHR ''?'' \<notin> set p" "CHR ''?'' \<notin> set p'"
  shows "cache_key_text m p q = cache_key_text m' p' q' \<longleftrightarrow>
    m = m' \<and> p = p' \<and> (q = [] \<longleftrightarrow> q' = []) \<and> mset (Split q CHR ''&'') = mset (Split q' CHR ''&'')"
proof -
  have m: "cache_key_text m p q = cache_key_text m' p' q' \<longleftrightarrow> m = m' \<and>
    p @ (if q \<noteq> [] then ''?'' @ Join (sort (Split q CHR ''&'')) ''&'' else []) =
    p' @ (if q' \<noteq> [] then ''?'' @ Join (sort (Split q' CHR ''&'')) ''&'' else [])"
    using assms(1,2) by (simp add: cache_key_text_def append_sep_eq)
  have no: "p @ CHR ''?'' # x \<noteq> p'" "p \<noteq> p' @ CHR ''?'' # x" for x using assms(3,4) by auto
  show ?thesis
    using assms(3,4) no unfolding m by (auto simp: append_sep_eq sorted_split_eq_iff)
qed

text \<open>Two requests whose method has no colon and whose paths have no question mark get the same
  cache key (if the digest does not collide) exactly when method and path agree and the query
  strings have the same parameters up to their order.\<close>

theorem CacheKey_eq_iff:
  assumes "inj sha256hex"
    and "CHR '':'' \<notin> set m" and "CHR '':'' \<notin> set m'" and "CHR ''?'' \<notin> set p" and "CHR ''?'' \<notin> set p'"
  shows "CacheKey sha256hex m p q = CacheKey sha256hex m' p' q' \<longleftrightarrow>
    m = m' \<and> p = p' \<and> (q = [] \<longleftrightarrow> q' = []) \<and> mset (Split q CHR ''&'') = mset (Split q' CHR ''&'')"
  unfolding CacheKey_def inj_eq[OF assms(1)] using cache_key_text_eq_iff[OF assms(2-5)] .

theorem CacheKey_eq_iff_witness:
  "CacheKey id ''GET'' ''/a'' ''x=1&y=2'' = CacheKey id ''GET'' ''/a'' ''y=2&x=1''"
  by (subst CacheKey_eq_iff) simp_all

text \<open>Without the condition on the paths the key does confuse requests: \<^verbatim>\<open>r.URL.Path\<close> is the
  decoded path, so a request for \<open>p%3Fq\<close> has the key of a request for \<open>p\<close> with query \<open>q\<close>.\<close>

theorem CacheKey_path_query_confusion:
  "CHR ''&'' \<notin> set q \<Longrightarrow> q \<noteq> [] \<Longrightarrow> CacheKey sha256hex m (p @ ''?'' @ q) [] = CacheKey sha256hex m p q"
  by (simp add: CacheKey_def cache_key_text_def Split_no_sep)

theorem CacheKey_path_query_confusion_witness:
  "CacheKey id ''GET'' ''/a?b'' [] = CacheKey id ''GET'' ''/a'' ''b''"
  using CacheKey_path_query_confusion[of "''b''" id "''GET''" "''/a''"] by simp

text \<open>Invalidation by a non-empty prefix removes exactly the keys with that prefix and counts them.\<close>

lemma Invalidate_lookup:
  "cache_inv rc \<Longrightarrow> map_of (entries (snd (Invalidate pfx rc))) k = (if HasPrefix k pfx then None else map_of (entries rc) k)"
  using lookup_step[of rc "CInvalidate pfx" k] by simp

lemma Invalidate_count: "fst (Invalidate pfx rc) + Size (snd (Invalidate pfx rc)) = Size rc"
proof -
  have "length (filter P xs) + length (filter (\<lambda>x. \<not> P x) xs) = length xs" for P and xs :: "(string \<times> HTTPCacheEntry) list"
    by (rule sum_length_filter_compl)
  from this[of "\<lambda>(key, _). HasPrefix key pfx" "entries rc"] show ?thesis
    by (simp add: Invalidate_def Size_def case_prod_unfold)
qed

text \<open>
  The keys are hexadecimal digests, so an invalidation by a path prefix finds nothing: only the
  empty prefix removes entries.
\<close>

lemma Invalidate_by_path:
  assumes "\<And>k. k \<in> fst ` set (entries rc) \<Longrightarrow> CHR ''/'' \<notin> set k" and "CHR ''/'' \<in> set pfx"
  shows "Invalidate pfx rc = (0, rc)"
proof -
  have "\<not> HasPrefix k pfx" if "k \<in> fst ` set (entries rc)" for k
    using assms(1)[OF that] assms(2) by (metis HasPrefix_def in_set_takeD)
  then have "filter (\<lambda>(key, _). HasPrefix key pfx) (entries rc) = []" "filter (\<lambda>(key, _). \<not> HasPrefix key pfx) (entries rc) = entries rc"
    by (force simp: filter_empty_conv, force simp: filter_id_conv)
  with assms(2) show ?thesis by (auto simp: Invalidate_def)
qed

end
