(* ===== verification/Upstream.thy ===== *)
theory Upstream
  imports Response_Cache
begin

text \<open>
  What stands between the gateway and its upstreams on one side and the client on the other:
  \<^verbatim>\<open>RetryingTransport\<close> (handler.go) and the \<^verbatim>\<open>StatusRecordingResponseWriter\<close>, the log
  entries and the access logger of pkg/proxy/access_log.go.
\<close>

section \<open>Retries\<close>

record response =
  rs_StatusCode :: int
  rs_Header :: http_header
  rs_Body :: string

text \<open>
  The base transport is a parameter: \<open>base i b\<close> is the outcome of attempt \<open>i\<close> with body \<open>b\<close>,
  \<open>Inl\<close> an error. The result lists the bodies sent and the time slept. An empty body is not
  put back, so the base transport gets no bytes in either case.
\<close>

type_synonym transport = "nat \<Rightarrow> string \<Rightarrow> string + response"

definition rt_ok :: "string + response \<Rightarrow> bool" where
  "rt_ok res = (case res of Inl _ \<Rightarrow> False | Inr resp \<Rightarrow> rs_StatusCode resp < 500)"

fun retry_loop :: "transport \<Rightarrow> string \<Rightarrow> nat \<Rightarrow> nat \<Rightarrow> duration \<Rightarrow> string + response \<Rightarrow> (string + response) \<times> string list \<times> duration" where
  "retry_loop base bodyBytes i 0 backoff res = (res, [], 0)"
| "retry_loop base bodyBytes i (Suc n) backoff res =
     (let res = base i bodyBytes in
      if rt_ok res then (res, [bodyBytes], 0)
      else (let (res', sent, slept) = retry_loop base bodyBytes (i + 1) n (backoff * 2) res
            in (res', bodyBytes # sent, backoff + slept)))"

definition RoundTrip :: "transport \<Rightarrow> body \<Rightarrow> (string + response) \<times> string list \<times> duration" where
  "RoundTrip base b = retry_loop base (fst (ReadAll b)) 0 3 (50 * time_Millisecond) (Inl [])"

lemma retry_loop_spec:
  "retry_loop base b i n bo r = (res, sent, slept) \<Longrightarrow> 0 < n \<Longrightarrow>
   \<exists>k. 0 < k \<and> k \<le> n \<and> sent = replicate k b \<and> res = base (i + k - 1) b \<and>
     (\<forall>j<k - 1. \<not> rt_ok (base (i + j) b)) \<and> (k < n \<longrightarrow> rt_ok res) \<and>
     slept = bo * (2 ^ (if rt_ok res then k - 1 else k) - 1)"
proof (induction n arbitrary: i bo r res sent slept)
  case (Suc n)
  show ?case
  proof (cases "rt_ok (base i b)")
    case True
    with Suc.prems(1) show ?thesis by (intro exI[of _ 1]) auto
  next
    case False
    obtain res' sent' slept' where l: "retry_loop base b (i + 1) n (bo * 2) (base i b) = (res', sent', slept')"
      by (cases "retry_loop base b (i + 1) n (bo * 2) (base i b)") auto
    with Suc.prems(1) False have e: "res = res'" "sent = b # sent'" "slept = bo + slept'" by auto
    show ?thesis
    proof (cases "n = 0")
      case True
      with l e False show ?thesis by (intro exI[of _ 1]) auto
    next
      case n: False
      with Suc.IH[OF l] obtain k where k: "0 < k" "k \<le> n" "sent' = replicate k b" "res' = base (i + 1 + k - 1) b"
        "\<forall>j<k - 1. \<not> rt_ok (base (i + 1 + j) b)" "k < n \<longrightarrow> rt_ok res'"
        "slept' = bo * 2 * (2 ^ (if rt_ok res' then k - 1 else k) - 1)" by auto
      have "\<not> rt_ok (base (i + j) b)" if "j < k" for j
        using k(5) False that by (cases j) auto
      moreover have "slept = bo * (2 ^ (if rt_ok res then Suc k - 1 else Suc k) - 1)"
        using k(1,7) e by (cases k) (auto simp: algebra_simps)
      ultimately show ?thesis using k e by (intro exI[of _ "Suc k"]) auto
    qed
  qed
qed simp

lemma roundtrip_spec:
  assumes "RoundTrip base b = (res, sent, slept)"
  shows "\<exists>k. k \<in> {1, 2, 3} \<and> sent = replicate k (fst (ReadAll b)) \<and> res = base (k - 1) (fst (ReadAll b)) \<and>
    (\<forall>j<k - 1. \<not> rt_ok (base j (fst (ReadAll b)))) \<and> (k < 3 \<longrightarrow> rt_ok res) \<and> 0 \<le> slept \<and> slept \<le> 350 * time_Millisecond"
proof -
  from retry_loop_spec[OF assms[unfolded RoundTrip_def]] obtain k where k: "0 < k" "k \<le> 3"
    "sent = replicate k (fst (ReadAll b))" "res = base (k - 1) (fst (ReadAll b))"
    "\<forall>j<k - 1. \<not> rt_ok (base j (fst (ReadAll b)))" "k < 3 \<longrightarrow> rt_ok res"
    "slept = 50 * time_Millisecond * (2 ^ (if rt_ok res then k - 1 else k) - 1)" by auto
  have "(1 :: int) \<le> 2 ^ (if rt_ok res then k - 1 else k)" "(2 :: int) ^ (if rt_ok res then k - 1 else k) \<le> 2 ^ 3"
    using k(2) by (simp, intro power_increasing) auto
  then have "0 \<le> slept \<and> slept \<le> 350 * time_Millisecond" using k(7) by (simp add: time_Millisecond_def)
  moreover from k(1,2) have "k = 1 \<or> k = 2 \<or> k = 3" by linarith
  ultimately show ?thesis using k by (intro exI[of _ k]) auto
qed

section \<open>Recording what the client gets\<close>

record StatusRecordingResponseWriter =
  rec_w :: response_writer
  rec_StatusCode :: int
  rec_BytesWritten :: int
  rec_body :: string
  rec_captureBody :: bool
  rec_wroteHeader :: bool

definition NewStatusRecordingResponseWriter :: "response_writer \<Rightarrow> bool \<Rightarrow> StatusRecordingResponseWriter" where
  "NewStatusRecordingResponseWriter w captureBody =
     \<lparr>rec_w = w, rec_StatusCode = 200, rec_BytesWritten = 0, rec_body = [], rec_captureBody = captureBody,
      rec_wroteHeader = False\<rparr>"

definition rec_WriteHeader :: "int \<Rightarrow> StatusRecordingResponseWriter \<Rightarrow> StatusRecordingResponseWriter" where
  "rec_WriteHeader code rw =
     (if \<not> rec_wroteHeader rw
      then rw\<lparr>rec_StatusCode := code, rec_wroteHeader := True, rec_w := w_WriteHeader code (rec_w rw)\<rparr>
      else rw)"

text \<open>\<open>n\<close> is the number of bytes the underlying writer accepts.\<close>

definition rec_Write :: "string \<Rightarrow> nat \<Rightarrow> StatusRecordingResponseWriter \<Rightarrow> StatusRecordingResponseWriter" where
  "rec_Write b n rw = rw\<lparr>rec_w := w_Write (take n b) (rec_w rw),
     rec_BytesWritten := rec_BytesWritten rw + int (length (take n b)),
     rec_body := (if rec_captureBody rw then rec_body rw @ take n b else rec_body rw)\<rparr>"

definition rec_Set :: "string \<Rightarrow> string \<Rightarrow> StatusRecordingResponseWriter \<Rightarrow> StatusRecordingResponseWriter" where
  "rec_Set k v rw = rw\<lparr>rec_w := w_Set k v (rec_w rw)\<rparr>"

definition CapturedHeaders :: "StatusRecordingResponseWriter \<Rightarrow> http_header" where
  "CapturedHeaders rw = fold (\<lambda>(k, v) h. AList.update k v h) (w_header (rec_w rw)) []"

lemma CapturedHeaders_id: "keys_distinct (w_header (rec_w rw)) \<Longrightarrow> CapturedHeaders rw = w_header (rec_w rw)"
  using cloneHeaders_id by (simp add: CapturedHeaders_def cloneHeaders_def)

datatype rec_op = RSet string string | RHeader int | RWrite string nat

fun rec_step :: "rec_op \<Rightarrow> StatusRecordingResponseWriter \<Rightarrow> StatusRecordingResponseWriter" where
  "rec_step (RSet k v) rw = rec_Set k v rw"
| "rec_step (RHeader c) rw = rec_WriteHeader c rw"
| "rec_step (RWrite b n) rw = rec_Write b n rw"

definition rec_run :: "rec_op list \<Rightarrow> StatusRecordingResponseWriter \<Rightarrow> StatusRecordingResponseWriter" where
  "rec_run ops rw = fold rec_step ops rw"

lemma rec_run_simps [simp]:
  "rec_run [] rw = rw" "rec_run (x # xs) rw = rec_run xs (rec_step x rw)" "rec_run (xs @ ys) rw = rec_run ys (rec_run xs rw)"
  by (simp_all add: rec_run_def)

text \<open>Body and size agree with what the client gets, whatever the order of calls.\<close>

definition rec_body_ok :: "StatusRecordingResponseWriter \<Rightarrow> bool" where
  "rec_body_ok rw \<longleftrightarrow> rec_BytesWritten rw = int (length (w_body (rec_w rw))) \<and>
     (rec_captureBody rw \<longrightarrow> rec_body rw = w_body (rec_w rw))"

lemma rec_body_ok_new: "w_body w = [] \<Longrightarrow> rec_body_ok (NewStatusRecordingResponseWriter w c)"
  by (simp add: rec_body_ok_def NewStatusRecordingResponseWriter_def)

lemma rec_body_ok_step: "rec_body_ok rw \<Longrightarrow> rec_body_ok (rec_step op rw)"
  by (cases op) (auto simp: rec_body_ok_def rec_Set_def rec_WriteHeader_def rec_Write_def writer_defs Let_def)

lemma rec_body_ok_run: "rec_body_ok rw \<Longrightarrow> rec_body_ok (rec_run ops rw)"
  by (induction ops arbitrary: rw) (simp_all add: rec_body_ok_step)

lemma rec_capture_run [simp]: "rec_captureBody (rec_run ops rw) = rec_captureBody rw"
proof (induction ops arbitrary: rw)
  case (Cons a ops)
  have "rec_captureBody (rec_step a rw) = rec_captureBody rw"
    by (cases a) (simp_all add: rec_Set_def rec_WriteHeader_def rec_Write_def)
  with Cons show ?case by simp
qed simp

lemma status_after_header:
  "rec_wroteHeader rw \<Longrightarrow> w_status (rec_w rw) = Some s \<Longrightarrow>
   rec_StatusCode (rec_run ops rw) = rec_StatusCode rw \<and> w_status (rec_w (rec_run ops rw)) = Some s"
proof (induction ops arbitrary: rw)
  case (Cons a ops)
  have "rec_wroteHeader (rec_step a rw)" "w_status (rec_w (rec_step a rw)) = Some s"
    "rec_StatusCode (rec_step a rw) = rec_StatusCode rw"
    using Cons.prems by (cases a; simp add: rec_Set_def rec_WriteHeader_def rec_Write_def)+
  with Cons.IH show ?case by simp
qed simp

lemma sets_keep:
  "list_all (\<lambda>op. \<exists>k v. op = RSet k v) ops \<Longrightarrow>
   rec_wroteHeader (rec_run ops rw) = rec_wroteHeader rw \<and> w_status (rec_w (rec_run ops rw)) = w_status (rec_w rw)"
proof (induction ops arbitrary: rw)
  case (Cons a ops)
  then obtain k v where "a = RSet k v" by auto
  with Cons show ?case by (simp add: rec_Set_def)
qed simp

section \<open>Access log\<close>

record LogEntry =
  le_Timestamp :: time
  le_Method :: string
  le_Path :: string
  le_Route :: string
  le_ClientIP :: string
  le_Status :: int
  le_LatencyMs :: int
  le_RequestSize :: int
  le_ResponseSize :: int
  le_UserAgent :: string
  le_TraceID :: string
  le_Target :: string
  le_Error :: string
  le_Tenant :: string

text \<open>\<open>SplitHostPort\<close> is a parameter: the host part, \<open>None\<close> for an error.\<close>

definition extractClientIP :: "(string \<Rightarrow> string option) \<Rightarrow> request \<Rightarrow> string" where
  "extractClientIP SplitHostPort r = (let xff = Header_Get (rq_Header r) ''X-Forwarded-For'' in
     if xff \<noteq> [] then
       (if CHR '','' \<in> set xff then TrimSpace (takeWhile (\<lambda>c. c \<noteq> CHR '','') xff) else TrimSpace xff)
     else (case SplitHostPort (rq_RemoteAddr r) of None \<Rightarrow> rq_RemoteAddr r | Some host \<Rightarrow> host))"

definition BuildLogEntry ::
  "(string \<Rightarrow> string option) \<Rightarrow> request \<Rightarrow> StatusRecordingResponseWriter \<Rightarrow> string \<Rightarrow> string \<Rightarrow> string \<Rightarrow> time \<Rightarrow> time \<Rightarrow> string \<Rightarrow> LogEntry" where
  "BuildLogEntry SplitHostPort r rw route target traceID start now errMsg =
     \<lparr>le_Timestamp = start, le_Method = rq_Method r, le_Path = rq_Path r, le_Route = route,
      le_ClientIP = extractClientIP SplitHostPort r, le_Status = rec_StatusCode rw,
      le_LatencyMs = go_div (time_Sub now start) time_Millisecond, le_RequestSize = rq_ContentLength r,
      le_ResponseSize = rec_BytesWritten rw, le_UserAgent = Header_Get (rq_Header r) ''User-Agent'',
      le_TraceID = traceID, le_Target = target, le_Error = errMsg,
      le_Tenant = (case rq_tenant r of None \<Rightarrow> [] | Some t \<Rightarrow> t)\<rparr>"

text \<open>
  \<^verbatim>\<open>AccessLogger.Log\<close>: one line per entry, flushed under the lock. \<open>enc\<close> is
  \<^verbatim>\<open>json.Marshal\<close>; the state is the content of the log file.
\<close>

definition AccessLogger_Log :: "(LogEntry \<Rightarrow> string option) \<Rightarrow> LogEntry \<Rightarrow> string \<Rightarrow> string" where
  "AccessLogger_Log enc entry content = (case enc entry of None \<Rightarrow> content | Some data \<Rightarrow> content @ data @ [CHR 0x0A])"

lemma log_lines:
  assumes "\<And>e. e \<in> set es \<Longrightarrow> \<exists>d. enc e = Some d \<and> CHR 0x0A \<notin> set d"
  shows "Split (fold (AccessLogger_Log enc) es []) CHR 0x0A = map (\<lambda>e. the (enc e)) es @ [[]]"
proof -
  have f: "fold (AccessLogger_Log enc) es fl = fl @ concat (map (\<lambda>e. the (enc e) @ [CHR 0x0A]) es)" for fl
    using assms by (induction es arbitrary: fl) (fastforce simp: AccessLogger_Log_def)+
  show ?thesis unfolding f using assms
    by (induction es) (fastforce simp: Split_append_sep)+
qed

section \<open>Properties\<close>

text \<open>C38: the retrying transport makes one, two or three attempts, sends the same body on each, stops at
  the first answer below 500 and returns it, otherwise returns the outcome of the third attempt;
  it never sleeps more than 350 milliseconds.\<close>

theorem roundtrip_retries:
  assumes "RoundTrip base b = (res, sent, slept)"
  shows "\<exists>k. k \<in> {1, 2, 3} \<and> sent = replicate k (fst (ReadAll b)) \<and> res = base (k - 1) (fst (ReadAll b)) \<and>
    (\<forall>j<k - 1. \<not> rt_ok (base j (fst (ReadAll b)))) \<and> (k < 3 \<longrightarrow> rt_ok res) \<and> 0 \<le> slept \<and> slept \<le> 350 * time_Millisecond"
  using assms by (rule roundtrip_spec)

definition ok_response :: response where
  "ok_response = \<lparr>rs_StatusCode = 200, rs_Header = [], rs_Body = ''ok''\<rparr>"

theorem roundtrip_retries_witness:
  "\<exists>k. k \<in> {1, 2, 3} \<and> [''x'', ''x''] = replicate k (fst (ReadAll (Plain ''x''))) \<and>
    Inr ok_response = (if k - 1 = 0 then Inl ''reset'' else Inr ok_response :: string + response) \<and>
    (\<forall>j<k - 1. \<not> rt_ok (if j = 0 then Inl ''reset'' else Inr ok_response)) \<and> (k < 3 \<longrightarrow> rt_ok (Inr ok_response)) \<and>
    0 \<le> 50 * time_Millisecond \<and> 50 * time_Millisecond \<le> 350 * time_Millisecond"
  by (rule roundtrip_retries[where base = "\<lambda>i _. if i = 0 then Inl ''reset'' else Inr ok_response"])
    (simp add: RoundTrip_def ReadAll_def numeral_3_eq_3 rt_ok_def ok_response_def)

text \<open>A request body over the route's limit is not refused by the proxy path: the transport drops
  the read error and sends the first \<open>n\<close> bytes upstream, on every attempt.\<close>

theorem oversized_body_truncated:
  assumes "n < length s" and "RoundTrip base (MaxBytesReader (Plain s) n) = (res, sent, slept)"
  shows "sent \<noteq> [] \<and> set sent = {take n s}"
proof -
  from roundtrip_spec[OF assms(2)] obtain k where "k \<in> {1, 2, 3}" "sent = replicate k (fst (ReadAll (MaxBytesReader (Plain s) n)))"
    by blast
  moreover from this(1) have "k \<noteq> 0" by auto
  ultimately show ?thesis using assms(1) by (auto simp: ReadAll_def MaxBytesReader_def)
qed

theorem oversized_body_truncated_witness: "[''ab''] \<noteq> [] \<and> set [''ab''] = {take 2 ''abcd''}"
  by (rule oversized_body_truncated[of 2 "''abcd''" "\<lambda>_ _. Inr ok_response" "Inr ok_response" _ 0])
    (simp_all add: RoundTrip_def ReadAll_def MaxBytesReader_def numeral_3_eq_3 rt_ok_def ok_response_def)

text \<open>When a final status is written before any byte of the body, the recorder's status, size and
  captured body are what the client receives, whatever is written afterwards.\<close>

theorem recorder_faithful:
  assumes "list_all (\<lambda>op. \<exists>k v. op = RSet k v) pre" and "\<not> is_informational c"
    and "w_status w = None" and "w_body w = []"
    and "rw = rec_run (pre @ RHeader c # post) (NewStatusRecordingResponseWriter w capture)"
  shows "rec_StatusCode rw = c \<and> w_status (rec_w rw) = Some c \<and> rec_BytesWritten rw = int (length (w_body (rec_w rw))) \<and>
    (capture \<longrightarrow> rec_body rw = w_body (rec_w rw))"
proof -
  let ?r = "rec_run pre (NewStatusRecordingResponseWriter w capture)"
  from sets_keep[OF assms(1), of "NewStatusRecordingResponseWriter w capture"] assms(3)
  have "\<not> rec_wroteHeader ?r" "w_status (rec_w ?r) = None"
    by (simp_all add: NewStatusRecordingResponseWriter_def)
  with assms(2) have "rec_wroteHeader (rec_WriteHeader c ?r)" "w_status (rec_w (rec_WriteHeader c ?r)) = Some c"
    "rec_StatusCode (rec_WriteHeader c ?r) = c"
    by (simp_all add: rec_WriteHeader_def)
  from status_after_header[OF this(1,2), of post] this(3)
  have "rec_StatusCode rw = c \<and> w_status (rec_w rw) = Some c" using assms(5) by simp
  moreover have "rec_body_ok rw"
    unfolding assms(5) by (intro rec_body_ok_run rec_body_ok_new assms(4))
  moreover have "rec_captureBody rw = capture"
    using assms(5) rec_capture_run[of "pre @ RHeader c # post"] by (simp only:) (simp add: NewStatusRecordingResponseWriter_def)
  ultimately show ?thesis by (auto simp: rec_body_ok_def)
qed

theorem recorder_faithful_witness:
  "\<exists>rw. rw = rec_run ([] @ RHeader 404 # [RWrite ''no'' 2, RHeader 200]) (NewStatusRecordingResponseWriter new_writer True) \<and>
    rec_StatusCode rw = 404 \<and> w_status (rec_w rw) = Some 404 \<and> rec_BytesWritten rw = int (length (w_body (rec_w rw))) \<and>
    (True \<longrightarrow> rec_body rw = w_body (rec_w rw))"
  using recorder_faithful[of "[]" 404 new_writer _ "[RWrite ''no'' 2, RHeader 200]" True, OF _ _ _ _ refl]
  by (simp add: is_informational_def new_writer_def)

text \<open>An informational answer of the upstream hides its final one: the recorder counts a 1xx status
  (which the reverse proxy forwards) as the final one and swallows the status that follows, so the
  client gets 200 and cache, metrics and log see the 1xx status, whatever the upstream said.\<close>

theorem informational_status_hides_final:
  assumes "is_informational i" and "w_status w = None"
    and "rw = rec_run [RHeader i, RHeader c, RWrite b n] (NewStatusRecordingResponseWriter w capture)"
  shows "rec_StatusCode rw = i \<and> w_status (rec_w rw) = Some 200"
  using assms by (simp add: NewStatusRecordingResponseWriter_def rec_WriteHeader_def rec_Write_def)

theorem informational_status_hides_final_witness:
  "\<exists>rw. rw = rec_run [RHeader 103, RHeader 500, RWrite ''err'' 3] (NewStatusRecordingResponseWriter new_writer False) \<and>
     rec_StatusCode rw = 103 \<and> w_status (rec_w rw) = Some 200"
  using informational_status_hides_final[of 103 new_writer _ 500 "''err''" 3 False, OF _ _ refl]
  by (simp add: is_informational_def new_writer_def)

end
