(* ===== verification/Base64.thy ===== *)
theory Base64
  imports Prelude
begin

text \<open>
  Go's \<^verbatim>\<open>encoding/base64\<close> as far as the gateway uses it (\<^verbatim>\<open>StdEncoding\<close>,
  \<^verbatim>\<open>URLEncoding\<close>, \<^verbatim>\<open>RawURLEncoding\<close>), and the two decoders written on top of it:
  \<^verbatim>\<open>base64UrlDecode\<close> of handler.go and \<^verbatim>\<open>decodeBase64Url\<close> of provider.go. Decoding
  skips carriage returns and line feeds and does not check the unused bits of a final short
  group, as the library does.
\<close>

definition b64_common :: string where
  "b64_common = ''ABCDEFGHIJKLMNOPQRSTUVWXYZabcdefghijklmnopqrstuvwxyz0123456789''"

definition std_alphabet :: string where "std_alphabet = b64_common @ ''+/''"
definition url_alphabet :: string where "url_alphabet = b64_common @ ''-_''"

fun index_of :: "'a list \<Rightarrow> 'a \<Rightarrow> nat option" where
  "index_of [] c = None"
| "index_of (x # xs) c = (if x = c then Some 0 else map_option Suc (index_of xs c))"

definition byte :: "nat \<Rightarrow> char" where "byte n = char_of n"
definition byte_val :: "char \<Rightarrow> nat" where "byte_val c = of_char c"

fun encode_with :: "string \<Rightarrow> bool \<Rightarrow> string \<Rightarrow> string" where
  "encode_with al pad [] = []"
| "encode_with al pad [x] = (let a = byte_val x in
     [al ! (a div 4), al ! ((a mod 4) * 16)] @ (if pad then ''=='' else []))"
| "encode_with al pad [x, y] = (let a = byte_val x; b = byte_val y in
     [al ! (a div 4), al ! ((a mod 4) * 16 + b div 16), al ! ((b mod 16) * 4)] @ (if pad then ''='' else []))"
| "encode_with al pad (x # y # z # bs) = (let a = byte_val x; b = byte_val y; c = byte_val z in
     [al ! (a div 4), al ! ((a mod 4) * 16 + b div 16), al ! ((b mod 16) * 4 + c div 64), al ! (c mod 64)]
       @ encode_with al pad bs)"

fun decode_quanta :: "string \<Rightarrow> string \<Rightarrow> string option" where
  "decode_quanta al [] = Some []"
| "decode_quanta al (p # q # r # s # cs) =
     (case (index_of al p, index_of al q) of
        (Some a, Some b) \<Rightarrow>
          (if r = CHR ''='' then
             (if s = CHR ''='' \<and> cs = [] then Some [byte ((a * 4 + b div 16) mod 256)] else None)
           else (case index_of al r of
              None \<Rightarrow> None
            | Some c \<Rightarrow>
                (if s = CHR ''='' then
                   (if cs = [] then Some [byte ((a * 4 + b div 16) mod 256), byte ((b * 16 + c div 4) mod 256)] else None)
                 else (case (index_of al s, decode_quanta al cs) of
                    (Some d, Some bs) \<Rightarrow>
                      Some (byte ((a * 4 + b div 16) mod 256) # byte ((b * 16 + c div 4) mod 256) #
                            byte ((c * 64 + d) mod 256) # bs)
                  | _ \<Rightarrow> None))))
      | _ \<Rightarrow> None)"
| "decode_quanta al cs = None"

definition decode_with :: "string \<Rightarrow> string \<Rightarrow> string option" where
  "decode_with al s = decode_quanta al (filter (\<lambda>c. c \<noteq> CHR 0x0A \<and> c \<noteq> CHR 0x0D) s)"

definition RawURLEncode :: "string \<Rightarrow> string" where "RawURLEncode = encode_with url_alphabet False"
definition StdEncode :: "string \<Rightarrow> string" where "StdEncode = encode_with std_alphabet True"
definition StdDecode :: "string \<Rightarrow> string option" where "StdDecode = decode_with std_alphabet"

definition pad4 :: "string \<Rightarrow> string" where
  "pad4 s = (let l = length s mod 4 in if l > 0 then s @ replicate (4 - l) CHR ''='' else s)"

definition decodeBase64Url :: "string \<Rightarrow> string option" where
  "decodeBase64Url s = decode_with url_alphabet (pad4 s)"

definition ReplaceAll_char :: "char \<Rightarrow> char \<Rightarrow> string \<Rightarrow> string" where
  "ReplaceAll_char a b s = map (\<lambda>c. if c = a then b else c) s"

definition base64UrlDecode :: "string \<Rightarrow> string option" where
  "base64UrlDecode s = decode_with std_alphabet
     (ReplaceAll_char CHR ''_'' CHR ''/'' (ReplaceAll_char CHR ''-'' CHR ''+'' (pad4 s)))"

section \<open>Alphabets\<close>

lemma index_of_nth: "distinct xs \<Longrightarrow> i < length xs \<Longrightarrow> index_of xs (xs ! i) = Some i"
  by (induction xs arbitrary: i) (auto simp: nth_Cons split: nat.splits)

lemma distinct_alphabets: "distinct std_alphabet" "distinct url_alphabet"
  by (simp_all add: std_alphabet_def url_alphabet_def b64_common_def)

lemma length_alphabets: "length std_alphabet = 64" "length url_alphabet = 64"
  by (simp_all add: std_alphabet_def url_alphabet_def b64_common_def)

lemma alphabet_specials:
  "CHR ''='' \<notin> set std_alphabet" "CHR ''='' \<notin> set url_alphabet"
  "CHR 0x0A \<notin> set std_alphabet" "CHR 0x0A \<notin> set url_alphabet"
  "CHR 0x0D \<notin> set std_alphabet" "CHR 0x0D \<notin> set url_alphabet"
  "CHR ''.'' \<notin> set url_alphabet"
  by (simp_all add: std_alphabet_def url_alphabet_def b64_common_def)

definition alphabet :: "string \<Rightarrow> bool" where
  "alphabet al \<longleftrightarrow> distinct al \<and> length al = 64 \<and> CHR ''='' \<notin> set al \<and> CHR 0x0A \<notin> set al \<and> CHR 0x0D \<notin> set al"

lemma alphabets [simp]: "alphabet std_alphabet" "alphabet url_alphabet"
  by (simp_all add: alphabet_def distinct_alphabets length_alphabets alphabet_specials)

lemma alphabet_index [simp]: "alphabet al \<Longrightarrow> i < 64 \<Longrightarrow> index_of al (al ! i) = Some i"
  by (simp add: alphabet_def index_of_nth)

lemma alphabet_not_special:
  "alphabet al \<Longrightarrow> i < 64 \<Longrightarrow> al ! i \<noteq> CHR ''='' \<and> al ! i \<noteq> CHR 0x0A \<and> al ! i \<noteq> CHR 0x0D"
  by (metis alphabet_def nth_mem)

section \<open>Round trip\<close>

lemma byte_val_bound [simp]: "byte_val c < 256"
  by (simp add: byte_val_def)

lemma byte_byte_val [simp]: "byte (byte_val c) = c"
  by (simp add: byte_def byte_val_def)

lemma split_bits:
  fixes a b :: nat
  assumes "b < m * k" "0 < k"
  shows "b div k < m" "(a * m + b div k) div m = a" "(a * m + b div k) * k + b mod k = a * (m * k) + b"
proof -
  show d: "b div k < m" using assms by (simp add: less_mult_imp_div_less)
  then show "(a * m + b div k) div m = a" by simp
  have "(a * m + b div k) * k + b mod k = a * (m * k) + (b div k * k + b mod k)"
    by (simp add: algebra_simps)
  then show "(a * m + b div k) * k + b mod k = a * (m * k) + b" by simp
qed

lemma six_bits:
  "byte_val x div 4 < 64" "(byte_val x mod 4) * 16 + byte_val y div 16 < 64"
  "(byte_val y mod 16) * 4 + byte_val z div 64 < 64" "byte_val z mod 64 < 64"
  "(byte_val x mod 4) * 16 < 64" "(byte_val y mod 16) * 4 < 64"
proof -
  have b: "byte_val x div 4 < 64" "byte_val y div 16 < 16" "byte_val z div 64 < 4"
    using split_bits(1)[of "byte_val x" 64 4] split_bits(1)[of "byte_val y" 16 16] split_bits(1)[of "byte_val z" 4 64]
    by simp_all
  moreover have m: "byte_val x mod 4 < 4" "byte_val y mod 16 < 16" by simp_all
  ultimately show "byte_val x div 4 < 64" "(byte_val x mod 4) * 16 + byte_val y div 16 < 64"
    "(byte_val y mod 16) * 4 + byte_val z div 64 < 64" "byte_val z mod 64 < 64"
    "(byte_val x mod 4) * 16 < 64" "(byte_val y mod 16) * 4 < 64"
    by (simp_all only: pos_mod_bound)
qed

lemma joined_bits:
  "(byte_val x div 4 * 4 + ((byte_val x mod 4) * 16 + byte_val y div 16) div 16) mod 256 = byte_val x"
  "(((byte_val x mod 4) * 16 + byte_val y div 16) * 16 + ((byte_val y mod 16) * 4 + byte_val z div 64) div 4) mod 256 = byte_val y"
  "(((byte_val y mod 16) * 4 + byte_val z div 64) * 64 + byte_val z mod 64) mod 256 = byte_val z"
  "(byte_val x div 4 * 4 + ((byte_val x mod 4) * 16) div 16) mod 256 = byte_val x"
  "(((byte_val x mod 4) * 16 + byte_val y div 16) * 16 + ((byte_val y mod 16) * 4) div 4) mod 256 = byte_val y"
  using split_bits(2,3)[of "byte_val y" 16 16 "byte_val x mod 4"] split_bits(2,3)[of "byte_val z" 4 64 "byte_val y mod 16"]
  by simp_all

lemma high_bits [simp]: "byte_val y div 16 div 16 = 0" "byte_val z div 64 div 4 = 0"
  by (simp_all flip: div_mult2_eq)

lemmas six_bit_lemmas = six_bits joined_bits Let_def

lemma decode_encode_padded: "alphabet al \<Longrightarrow> decode_quanta al (encode_with al True s) = Some s"
proof (induction al True s rule: encode_with.induct)
  case (2 al x)
  then show ?case by (simp add: six_bit_lemmas)
next
  case (3 al x y)
  then show ?case by (simp add: six_bit_lemmas alphabet_not_special)
next
  case (4 al x y z bs)
  then show ?case by (simp add: six_bit_lemmas alphabet_not_special)
qed simp

lemma encode_pad4:
  "pad4 (encode_with al False s) = encode_with al True s \<and> length (encode_with al True s) mod 4 = 0"
proof (induction al False s rule: encode_with.induct)
  case (4 al x y z bs)
  then show ?case by (auto simp: pad4_def Let_def)
qed (simp_all add: pad4_def Let_def numeral_2_eq_2)

lemma encode_chars:
  "alphabet al \<Longrightarrow> c \<in> set (encode_with al pad s) \<Longrightarrow> c \<in> set al \<or> c = CHR ''=''"
proof (induction al pad s rule: encode_with.induct)
  case (2 al pad x)
  then show ?case by (auto simp: Let_def alphabet_def six_bits split: if_splits)
next
  case (3 al pad x y)
  then show ?case by (auto simp: Let_def alphabet_def six_bits split: if_splits)
next
  case (4 al pad x y z bs)
  then show ?case by (auto simp: Let_def alphabet_def six_bits)
qed simp

lemma encode_no_newline:
  "alphabet al \<Longrightarrow> filter (\<lambda>c. c \<noteq> CHR 0x0A \<and> c \<noteq> CHR 0x0D) (encode_with al pad s) = encode_with al pad s"
  using encode_chars[of al "CHR 0x0A" pad s] encode_chars[of al "CHR 0x0D" pad s]
  by (intro filter_True) (auto simp: alphabet_def)

lemma decode_with_encode [simp]: "alphabet al \<Longrightarrow> decode_with al (encode_with al True s) = Some s"
  by (simp add: decode_with_def encode_no_newline decode_encode_padded)

lemma StdDecode_StdEncode [simp]: "StdDecode (StdEncode s) = Some s"
  by (simp add: StdDecode_def StdEncode_def)

lemma decodeBase64Url_RawURLEncode [simp]: "decodeBase64Url (RawURLEncode s) = Some s"
  by (simp add: decodeBase64Url_def RawURLEncode_def encode_pad4)

lemma RawURLEncode_no_dot: "CHR ''.'' \<notin> set (RawURLEncode s)"
  using encode_chars[of url_alphabet "CHR ''.''" False s] alphabet_specials by (auto simp: RawURLEncode_def)

text \<open>Replacing the two special characters turns the URL alphabet into the standard one.\<close>

definition url_to_std :: "char \<Rightarrow> char" where
  "url_to_std c = (if c = CHR ''-'' then CHR ''+'' else if c = CHR ''_'' then CHR ''/'' else c)"

lemma ReplaceAll_url_to_std:
  "ReplaceAll_char CHR ''_'' CHR ''/'' (ReplaceAll_char CHR ''-'' CHR ''+'' s) = map url_to_std s"
  by (simp add: ReplaceAll_char_def url_to_std_def)

lemma std_alphabet_map: "std_alphabet = map url_to_std url_alphabet"
  by (simp add: std_alphabet_def url_alphabet_def b64_common_def url_to_std_def)

lemma std_nth: "i < 64 \<Longrightarrow> url_to_std (url_alphabet ! i) = std_alphabet ! i"
  by (simp add: std_alphabet_map length_alphabets)

lemma encode_url_to_std: "map url_to_std (encode_with url_alphabet pad s) = encode_with std_alphabet pad s"
proof (induction url_alphabet pad s rule: encode_with.induct)
  case (4 pad x y z bs)
  then show ?case by (simp add: Let_def std_nth six_bits)
qed (simp_all add: Let_def std_nth six_bits, simp_all add: url_to_std_def)

lemma base64UrlDecode_RawURLEncode [simp]: "base64UrlDecode (RawURLEncode s) = Some s"
  by (simp add: base64UrlDecode_def RawURLEncode_def encode_pad4 ReplaceAll_url_to_std encode_url_to_std)

section \<open>Properties\<close>

text \<open>Both decoders of the gateway, the one for bearer tokens and the one for configuration
  signatures, give back every byte sequence that was encoded without padding in the URL
  alphabet.\<close>

theorem base64_roundtrip:
  "base64UrlDecode (RawURLEncode s) = Some s \<and> decodeBase64Url (RawURLEncode s) = Some s"
  by simp

end
