(* ===== verification/Jwt.thy ===== *)
theory Jwt
  imports Base64
begin

text \<open>
  Bearer tokens: \<^verbatim>\<open>ValidateJWT\<close>, \<^verbatim>\<open>ValidateJWTWithPolicy\<close>, \<^verbatim>\<open>RevokeUserSession\<close>
  and \<^verbatim>\<open>IncrementPolicyVersion\<close> of handler.go. \<open>hmac_sha256 secret msg\<close> is the keyed
  digest; the JSON decoder appears as one function per struct the code decodes the payload into,
  \<open>None\<close> where \<^verbatim>\<open>json.Unmarshal\<close> returns an error.
\<close>

record jwt_env =
  hmac_sha256 :: "string \<Rightarrow> string \<Rightarrow> string"
  auth_claims :: "string \<Rightarrow> (string \<times> int) option"
  iat_claims :: "string \<Rightarrow> (int \<times> int) option"
  policy_ver_claim :: "string \<Rightarrow> int option"

definition time_Unix :: "time \<Rightarrow> int" where
  "time_Unix t = t div 1000000000"

definition ValidateJWT :: "jwt_env \<Rightarrow> string \<Rightarrow> string \<Rightarrow> time \<Rightarrow> string option" where
  "ValidateJWT env tokenStr secret now = (case Split tokenStr CHR ''.'' of
     [headerPart, payloadPart, signaturePart] \<Rightarrow>
       (let expectedMac = hmac_sha256 env secret (headerPart @ ''.'' @ payloadPart) in
        case base64UrlDecode signaturePart of
          None \<Rightarrow> None
        | Some sigBytes \<Rightarrow>
            if sigBytes \<noteq> expectedMac then None
            else (case base64UrlDecode payloadPart of
               None \<Rightarrow> None
             | Some payloadBytes \<Rightarrow>
                 (case auth_claims env payloadBytes of
                    None \<Rightarrow> None
                  | Some (Username, Exp) \<Rightarrow> if Exp > 0 \<and> time_Unix now > Exp then None else Some Username)))
   | _ \<Rightarrow> None)"

record sessions =
  revokedSessions :: "string \<rightharpoonup> time"
  policyVersion :: int

definition ValidateJWTWithPolicy :: "jwt_env \<Rightarrow> string \<Rightarrow> string \<Rightarrow> time \<Rightarrow> 'a sessions_scheme \<Rightarrow> string option" where
  "ValidateJWTWithPolicy env tokenStr secret now h = (case ValidateJWT env tokenStr secret now of
     None \<Rightarrow> None
   | Some username \<Rightarrow> (case Split tokenStr CHR ''.'' of
       [_, payloadPart, _] \<Rightarrow> (case base64UrlDecode payloadPart of
         None \<Rightarrow> Some username
       | Some payloadBytes \<Rightarrow> (case iat_claims env payloadBytes of
           None \<Rightarrow> Some username
         | Some (Iat, _) \<Rightarrow> (case revokedSessions h username of
             Some revTime \<Rightarrow> if Iat > 0 \<and> Iat * 1000000000 < revTime then None else Some username
           | None \<Rightarrow> Some username)))
     | _ \<Rightarrow> Some username))"

definition RevokeUserSession :: "string \<Rightarrow> time \<Rightarrow> 'a sessions_scheme \<Rightarrow> 'a sessions_scheme" where
  "RevokeUserSession username now h = h\<lparr>revokedSessions := (revokedSessions h)(username \<mapsto> now)\<rparr>"

definition IncrementPolicyVersion :: "'a sessions_scheme \<Rightarrow> 'a sessions_scheme" where
  "IncrementPolicyVersion h = h\<lparr>policyVersion := wrap64 (policyVersion h + 1)\<rparr>"

text \<open>The stale-token mark: \<^verbatim>\<open>X-Token-Refresh\<close> is set when this is true.\<close>

definition needs_token_refresh :: "jwt_env \<Rightarrow> string \<Rightarrow> 'a sessions_scheme \<Rightarrow> bool" where
  "needs_token_refresh env token h = (case Split token CHR ''.'' of
     [_, payloadPart, _] \<Rightarrow> (case base64UrlDecode payloadPart of
       None \<Rightarrow> False
     | Some payloadBytes \<Rightarrow> (case policy_ver_claim env payloadBytes of
         None \<Rightarrow> False
       | Some PolicyVer \<Rightarrow> PolicyVer < policyVersion h))
   | _ \<Rightarrow> False)"

section \<open>Compact tokens\<close>

text \<open>
  Both kinds of token the gateway checks, bearer tokens and configuration signatures, have the
  form \<open>header.payload.mac\<close> with encoded parts. What is needed of the encoding is that it
  decodes and that it never contains the separator.
\<close>

locale compact_token =
  fixes enc :: "string \<Rightarrow> string" and dec :: "string \<Rightarrow> string option"
  assumes dec_enc: "dec (enc s) = Some s"
    and no_dot: "CHR ''.'' \<notin> set (enc s)"
begin

definition mint :: "(string \<Rightarrow> string) \<Rightarrow> string \<Rightarrow> string \<Rightarrow> string" where
  "mint mac hdr pl = enc hdr @ ''.'' @ enc pl @ ''.'' @ enc (mac (enc hdr @ ''.'' @ enc pl))"

definition verified :: "(string \<Rightarrow> string) \<Rightarrow> string \<Rightarrow> string option" where
  "verified mac t = (case Split t CHR ''.'' of
     [hp, pp, sp] \<Rightarrow> (case dec sp of None \<Rightarrow> None
       | Some sig \<Rightarrow> if sig = mac (hp @ ''.'' @ pp) then dec pp else None)
   | _ \<Rightarrow> None)"

lemma Split_mint: "Split (mint mac hdr pl) CHR ''.'' = [enc hdr, enc pl, enc (mac (enc hdr @ ''.'' @ enc pl))]"
  by (simp add: mint_def Split_append_sep Split_no_sep no_dot)

lemma verified_mint: "verified mac (mint mac hdr pl) = Some pl"
  by (simp add: verified_def Split_mint dec_enc)

lemma mint_nonempty: "mint mac hdr pl \<noteq> []"
  by (simp add: mint_def)

lemma verified_SomeD:
  assumes "verified mac t = Some pl"
  obtains hp pp sp where "t = hp @ ''.'' @ pp @ ''.'' @ sp" "Split t CHR ''.'' = [hp, pp, sp]"
    "dec sp = Some (mac (hp @ ''.'' @ pp))" "dec pp = Some pl"
proof -
  from assms obtain hp pp sp where s: "Split t CHR ''.'' = [hp, pp, sp]"
    and d: "dec sp = Some (mac (hp @ ''.'' @ pp))" "dec pp = Some pl"
    by (auto simp: verified_def split: list.splits option.splits if_splits)
  from Join_Split[of t "CHR ''.''"] s have "t = hp @ ''.'' @ pp @ ''.'' @ sp" by simp
  with s d show ?thesis by (intro that)
qed

end

interpretation bearer: compact_token RawURLEncode base64UrlDecode
  by unfold_locales (simp_all add: RawURLEncode_no_dot)

lemma ValidateJWT_verified:
  "ValidateJWT env t secret now = (case bearer.verified (hmac_sha256 env secret) t of
     None \<Rightarrow> None
   | Some pl \<Rightarrow> (case auth_claims env pl of None \<Rightarrow> None
       | Some (u, e) \<Rightarrow> if e > 0 \<and> time_Unix now > e then None else Some u))"
  by (simp add: ValidateJWT_def bearer.verified_def Let_def split: list.splits option.splits)

lemma ValidateJWT_SomeE:
  assumes "ValidateJWT env t secret now = Some u"
  obtains hp pp sp pl e where "Split t CHR ''.'' = [hp, pp, sp]"
    "base64UrlDecode sp = Some (hmac_sha256 env secret (hp @ ''.'' @ pp))"
    "base64UrlDecode pp = Some pl" "auth_claims env pl = Some (u, e)" "e \<le> 0 \<or> time_Unix now \<le> e"
proof -
  from assms obtain pl e where v: "bearer.verified (hmac_sha256 env secret) t = Some pl"
    and c: "auth_claims env pl = Some (u, e)" and e: "e \<le> 0 \<or> time_Unix now \<le> e"
    by (auto simp: ValidateJWT_verified split: option.splits prod.splits if_splits)
  from v show ?thesis by (rule bearer.verified_SomeD) (use c e that in blast)
qed

section \<open>Properties\<close>

text \<open>A token minted with the gateway's secret for user \<open>u\<close> is accepted as \<open>u\<close> until its
  expiry second has passed (a token without expiry always), and rejected afterwards.\<close>

theorem jwt_minted_accepted:
  assumes "auth_claims env pl = Some (u, e)"
  shows "ValidateJWT env (bearer.mint (hmac_sha256 env secret) hdr pl) secret now =
    (if e > 0 \<and> time_Unix now > e then None else Some u)"
  by (simp add: ValidateJWT_verified bearer.verified_mint assms)

definition example_mac :: "string \<Rightarrow> string \<Rightarrow> string" where
  "example_mac k m = k @ m"

definition example_env :: jwt_env where
  "example_env = \<lparr>hmac_sha256 = example_mac, auth_claims = (\<lambda>p. Some (p, 100)), iat_claims = (\<lambda>p. Some (50, 0)),
     policy_ver_claim = (\<lambda>p. Some 0)\<rparr>"

theorem jwt_minted_accepted_witness:
  "ValidateJWT example_env (bearer.mint (hmac_sha256 example_env ''k'') ''h'' ''bob'') ''k'' 100999999999 = Some ''bob'' \<and>
   ValidateJWT example_env (bearer.mint (hmac_sha256 example_env ''k'') ''h'' ''bob'') ''k'' 101000000000 = None"
  using jwt_minted_accepted[of example_env "''bob''" "''bob''" 100]
  by (simp add: example_env_def time_Unix_def)

text \<open>C11: acceptance needs the right digest: a token is accepted only if it has exactly three parts,
  its third part decodes to the keyed digest of the first two, and the claims of its second part
  name the user and are not expired.\<close>

theorem jwt_accept_sound:
  assumes "ValidateJWT env t secret now = Some u"
  shows "\<exists>hp pp sp pl e. t = hp @ ''.'' @ pp @ ''.'' @ sp \<and> CHR ''.'' \<notin> set (hp @ pp @ sp) \<and>
    base64UrlDecode sp = Some (hmac_sha256 env secret (hp @ ''.'' @ pp)) \<and>
    base64UrlDecode pp = Some pl \<and> auth_claims env pl = Some (u, e) \<and> (e \<le> 0 \<or> time_Unix now \<le> e)"
proof -
  from assms obtain hp pp sp pl e where s: "Split t CHR ''.'' = [hp, pp, sp]"
    and r: "base64UrlDecode sp = Some (hmac_sha256 env secret (hp @ ''.'' @ pp))"
      "base64UrlDecode pp = Some pl" "auth_claims env pl = Some (u, e)" "e \<le> 0 \<or> time_Unix now \<le> e"
    by (rule ValidateJWT_SomeE)
  have "t = hp @ ''.'' @ pp @ ''.'' @ sp" using Join_Split[of t "CHR ''.''"] s by simp
  moreover have "CHR ''.'' \<notin> set (hp @ pp @ sp)" using Split_pieces[of _ t "CHR ''.''"] s by auto
  ultimately show ?thesis using r by blast
qed

theorem jwt_accept_sound_witness:
  "\<exists>hp pp sp pl e. bearer.mint (hmac_sha256 example_env ''k'') ''h'' ''bob'' = hp @ ''.'' @ pp @ ''.'' @ sp \<and>
    CHR ''.'' \<notin> set (hp @ pp @ sp) \<and> base64UrlDecode sp = Some (hmac_sha256 example_env ''k'' (hp @ ''.'' @ pp)) \<and>
    base64UrlDecode pp = Some pl \<and> auth_claims example_env pl = Some (''bob'', e) \<and> (e \<le> 0 \<or> time_Unix 0 \<le> e)"
  by (rule jwt_accept_sound) (simp add: ValidateJWT_verified bearer.verified_mint, simp add: example_env_def time_Unix_def)

text \<open>C12: after \<^verbatim>\<open>RevokeUserSession u\<close> at time \<open>t\<close>, whatever revocations of other users
  follow, no token of \<open>u\<close> that carries an issue time before \<open>t\<close> is accepted.\<close>

theorem revoked_tokens_rejected:
  assumes "Split tok CHR ''.'' = [hp, pp, sp]" and "base64UrlDecode pp = Some pl"
    and "iat_claims env pl = Some (iat, ver)" and "0 < iat" and "iat * 1000000000 < t"
    and "\<forall>(v, t')\<in>set later. v \<noteq> u \<or> t \<le> t'"
  shows "ValidateJWTWithPolicy env tok secret now (fold (\<lambda>(v, t') h. RevokeUserSession v t' h) later (RevokeUserSession u t h)) \<noteq> Some u"
proof -
  have "\<exists>r. revokedSessions (fold (\<lambda>(v, t') h. RevokeUserSession v t' h) later h') u = Some r \<and> t \<le> r"
    if "revokedSessions h' u = Some r" "t \<le> r" for r and h' :: "'a sessions_scheme"
    using that assms(6)
  proof (induction later arbitrary: h' r)
    case (Cons a later)
    then show ?case by (cases a; cases "fst a = u") (auto simp: RevokeUserSession_def)
  qed auto
  from this[of "RevokeUserSession u t h" t] assms show ?thesis
    by (auto simp: ValidateJWTWithPolicy_def RevokeUserSession_def split: option.splits)
qed

theorem revoked_tokens_rejected_witness:
  "ValidateJWTWithPolicy example_env (bearer.mint (hmac_sha256 example_env ''k'') ''h'' ''bob'') ''k'' 0
     (fold (\<lambda>(v, t') h. RevokeUserSession v t' h) [(''eve'', 1)]
       (RevokeUserSession ''bob'' 60000000000 \<lparr>revokedSessions = Map.empty, policyVersion = 1\<rparr>)) \<noteq> Some ''bob''"
  by (rule revoked_tokens_rejected[where pl = "''bob''" and iat = 50 and ver = 0, OF bearer.Split_mint bearer.dec_enc]) (simp_all add: example_env_def)

text \<open>A token without an issue time (no \<^verbatim>\<open>iat\<close> claim, which decodes to 0) is not affected by
  revocation at all: it stays valid however often its user is revoked.\<close>

theorem revocation_needs_iat:
  assumes "Split tok CHR ''.'' = [hp, pp, sp]" and "base64UrlDecode pp = Some pl"
    and "iat_claims env pl = Some (iat, ver)" and "iat \<le> 0"
  shows "ValidateJWTWithPolicy env tok secret now (RevokeUserSession u t h) = ValidateJWT env tok secret now"
  using assms by (auto simp: ValidateJWTWithPolicy_def RevokeUserSession_def split: option.splits)

theorem revocation_needs_iat_witness:
  "ValidateJWTWithPolicy (example_env\<lparr>iat_claims := \<lambda>p. Some (0, 0)\<rparr>)
     (bearer.mint (hmac_sha256 example_env ''k'') ''h'' ''bob'') ''k'' 0
     (RevokeUserSession ''bob'' 60000000000 \<lparr>revokedSessions = Map.empty, policyVersion = 1\<rparr>) = Some ''bob''"
  by (subst revocation_needs_iat[where pl = "''bob''" and iat = 0 and ver = 0, OF bearer.Split_mint bearer.dec_enc])
    (simp_all add: example_env_def ValidateJWT_verified time_Unix_def bearer.verified_mint)

end
