(* ===== verification/Policy.thy ===== *)
theory Policy
  imports Http Jwt Config
begin

text \<open>
  Access decisions on a request: the policy engine (the vendored ServShared package,
  pkg/policy/policy.go), the roles and headers handed to it (\<^verbatim>\<open>extractUserRolesAndHeaders\<close>),
  the IP lists (\<^verbatim>\<open>checkIPAccess\<close>) and the tenant placement check of \<^verbatim>\<open>ServeHTTP\<close>.
\<close>

section \<open>Policy rules\<close>

record PolicyRule =
  pr_ID :: string
  pr_Action :: string
  pr_Methods :: "string list"
  pr_Path :: string
  pr_Roles :: "string list"
  pr_Headers :: "(string \<times> string) list"
  pr_RateLimitRPM :: int
  pr_RedactFields :: "string list"

record PolicySchema =
  ps_Version :: int
  ps_Rules :: "PolicyRule list"

definition matchPath :: "string \<Rightarrow> string \<Rightarrow> bool" where
  "matchPath pattern path =
     (if pattern = ''*'' \<or> pattern = ''/*'' then True
      else if pattern = path then True
      else if HasSuffix pattern ''/*'' then (let pfx = TrimSuffix pattern ''/*'' in HasPrefix path pfx)
      else False)"

definition method_match :: "PolicyRule \<Rightarrow> string \<Rightarrow> bool" where
  "method_match rule reqMethod = list_ex (\<lambda>m. m = ''*'' \<or> EqualFold m reqMethod) (pr_Methods rule)"

definition role_match :: "PolicyRule \<Rightarrow> string list \<Rightarrow> bool" where
  "role_match rule userRoles =
     (if pr_Roles rule \<noteq> []
      then list_ex (\<lambda>reqRole. reqRole = ''*'' \<or> list_ex (\<lambda>r. EqualFold r reqRole) userRoles) (pr_Roles rule)
      else True)"

definition header_match :: "PolicyRule \<Rightarrow> (string \<rightharpoonup> string) \<Rightarrow> bool" where
  "header_match rule reqHeaders =
     list_all (\<lambda>(hName, hVal).
        (let actualVal = mget [] reqHeaders (ToLower hName);
             actualVal = (if actualVal = [] then mget [] reqHeaders hName else actualVal)
         in actualVal = hVal)) (pr_Headers rule)"

definition rule_matches :: "string \<Rightarrow> string \<Rightarrow> (string \<rightharpoonup> string) \<Rightarrow> string list \<Rightarrow> PolicyRule \<Rightarrow> bool" where
  "rule_matches reqMethod reqPath reqHeaders userRoles rule =
     (method_match rule reqMethod \<and> matchPath (pr_Path rule) reqPath \<and> role_match rule userRoles \<and>
      header_match rule reqHeaders)"

fun EvaluateRules ::
  "string \<Rightarrow> string \<Rightarrow> (string \<rightharpoonup> string) \<Rightarrow> string list \<Rightarrow> PolicyRule list \<Rightarrow> string \<times> string list \<times> int \<times> bool" where
  "EvaluateRules reqMethod reqPath reqHeaders userRoles [] = (''allow'', [], 0, False)"
| "EvaluateRules reqMethod reqPath reqHeaders userRoles (rule # rules) =
     (if \<not> method_match rule reqMethod then EvaluateRules reqMethod reqPath reqHeaders userRoles rules
      else if \<not> matchPath (pr_Path rule) reqPath then EvaluateRules reqMethod reqPath reqHeaders userRoles rules
      else if \<not> role_match rule userRoles then EvaluateRules reqMethod reqPath reqHeaders userRoles rules
      else if \<not> header_match rule reqHeaders then EvaluateRules reqMethod reqPath reqHeaders userRoles rules
      else (pr_Action rule, pr_RedactFields rule, pr_RateLimitRPM rule, True))"

definition EvaluatePolicy ::
  "string \<Rightarrow> string \<Rightarrow> (string \<rightharpoonup> string) \<Rightarrow> string list \<Rightarrow> PolicySchema option \<Rightarrow> string \<times> string list \<times> int \<times> bool" where
  "EvaluatePolicy reqMethod reqPath reqHeaders userRoles schema = (case schema of
     None \<Rightarrow> (''allow'', [], 0, False)
   | Some s \<Rightarrow> EvaluateRules reqMethod reqPath reqHeaders userRoles (ps_Rules s))"

text \<open>
  \<^verbatim>\<open>extractUserRolesAndHeaders\<close>. \<open>roles_claim\<close> decodes a token payload into its list of
  roles. When two header names agree up to case (possible only for names that are not canonical),
  Go's random map order decides which value is kept; here the later one of the list.
\<close>

definition extractHeaders :: "http_header \<Rightarrow> (string \<rightharpoonup> string)" where
  "extractHeaders h = fold (\<lambda>(k, v) m. (case v of [] \<Rightarrow> m | x # _ \<Rightarrow> m(ToLower k \<mapsto> x))) h Map.empty"

definition extractUserRoles :: "(string \<Rightarrow> string list option) \<Rightarrow> http_header \<Rightarrow> string list" where
  "extractUserRoles roles_claim h = (let authHeader = Header_Get h ''Authorization'' in
     if HasPrefix authHeader ''Bearer '' then
       (case Split (TrimPrefix authHeader ''Bearer '') CHR ''.'' of
          [_, payloadPart, _] \<Rightarrow> (case base64UrlDecode payloadPart of
             None \<Rightarrow> [''anonymous'']
           | Some payloadBytes \<Rightarrow> (case roles_claim payloadBytes of
               None \<Rightarrow> [''anonymous'']
             | Some roles \<Rightarrow> if roles \<noteq> [] then roles else [''anonymous'']))
        | _ \<Rightarrow> [''anonymous''])
     else [''anonymous''])"

definition extractUserRolesAndHeaders :: "(string \<Rightarrow> string list option) \<Rightarrow> request \<Rightarrow> string list \<times> (string \<rightharpoonup> string)" where
  "extractUserRolesAndHeaders roles_claim r = (extractUserRoles roles_claim (rq_Header r), extractHeaders (rq_Header r))"

section \<open>IP lists\<close>

text \<open>
  \<^verbatim>\<open>checkIPAccess\<close> over the parsers of package \<^verbatim>\<open>net\<close>: \<open>ParseIP\<close>,
  \<open>ParseCIDR\<close> (the membership test of the subnet) and \<open>IP.Equal\<close>.
\<close>

record 'ip net_env =
  ParseIP :: "string \<Rightarrow> 'ip option"
  ParseCIDR :: "string \<Rightarrow> ('ip \<Rightarrow> bool) option"
  IP_Equal :: "'ip \<Rightarrow> 'ip \<Rightarrow> bool"

definition ipMatches :: "'ip net_env \<Rightarrow> 'ip \<Rightarrow> string \<Rightarrow> bool" where
  "ipMatches env ip pattern =
     (case (if Contains pattern ''/'' then ParseCIDR env pattern else None) of
        Some subnet \<Rightarrow> subnet ip
      | None \<Rightarrow> (case ParseIP env pattern of Some patternIP \<Rightarrow> IP_Equal env patternIP ip | None \<Rightarrow> False))"

definition checkIPAccess :: "'ip net_env \<Rightarrow> string \<Rightarrow> string list \<Rightarrow> string list \<Rightarrow> bool" where
  "checkIPAccess env clientIP allowlist blocklist = (case ParseIP env clientIP of
     None \<Rightarrow> True
   | Some parsedIP \<Rightarrow>
       if list_ex (ipMatches env parsedIP) blocklist then False
       else if allowlist \<noteq> [] then list_ex (ipMatches env parsedIP) allowlist
       else True)"

section \<open>Tenant placement\<close>

definition placement_allowed :: "string list \<Rightarrow> string \<Rightarrow> bool" where
  "placement_allowed allowed here = (allowed = [] \<or> list_ex (\<lambda>c. c = here \<or> c = ''*'') allowed)"

definition tenant_placement :: "TenantPolicy option \<Rightarrow> string \<Rightarrow> string \<Rightarrow> string option" where
  "tenant_placement policy SERV_CLUSTER SERV_REGION = (case policy of
     None \<Rightarrow> None
   | Some p \<Rightarrow>
       (let currentCluster = (if SERV_CLUSTER = [] then ''default'' else SERV_CLUSTER);
            currentRegion = (if SERV_REGION = [] then ''us-east'' else SERV_REGION)
        in if \<not> placement_allowed (tp_AllowedClusters p) currentCluster
           then Some ''Tenant policy violation: Cluster restricted''
           else if \<not> placement_allowed (tp_AllowedRegions p) currentRegion
           then Some ''Tenant policy violation: Region restricted''
           else None))"

section \<open>Lemmas\<close>

lemma EvaluateRules_simp:
  "EvaluateRules m p h us (rule # rules) =
     (if rule_matches m p h us rule then (pr_Action rule, pr_RedactFields rule, pr_RateLimitRPM rule, True)
      else EvaluateRules m p h us rules)"
  by (simp add: rule_matches_def)

lemma EvaluateRules_skip:
  "(\<And>r. r \<in> set pre \<Longrightarrow> \<not> rule_matches m p h us r) \<Longrightarrow> EvaluateRules m p h us (pre @ rules) = EvaluateRules m p h us rules"
proof (induction pre)
  case (Cons a pre)
  then have "\<not> rule_matches m p h us a" by simp
  with Cons show ?case by (simp only: append_Cons EvaluateRules_simp) simp
qed simp

lemma EvaluateRules_find:
  "EvaluateRules m p h us rules = (case find (rule_matches m p h us) rules of
     None \<Rightarrow> (''allow'', [], 0, False)
   | Some rule \<Rightarrow> (pr_Action rule, pr_RedactFields rule, pr_RateLimitRPM rule, True))"
  by (induction rules) (simp_all add: EvaluateRules_simp del: EvaluateRules.simps(2))

lemma matchPath_wildcard: "matchPath (pfx @ ''/*'') path \<longleftrightarrow> path = pfx @ ''/*'' \<or> HasPrefix path pfx"
  by (auto simp: matchPath_def HasSuffix_def Let_def TrimSuffix_append[of pfx "''/*''", simplified])

lemma EqualFold_trans: "EqualFold a b \<Longrightarrow> EqualFold b c \<Longrightarrow> EqualFold a c"
  by (simp add: EqualFold_def)

section \<open>Properties\<close>

text \<open>C32: rules are tried in order and the first one whose method, path, roles and headers all match
  decides: whatever comes after it has no effect, and without such a rule the request is allowed
  with \<^verbatim>\<open>matched = false\<close>.\<close>

theorem policy_first_match:
  "(\<forall>r\<in>set pre. \<not> rule_matches m p h us r) \<Longrightarrow>
   EvaluatePolicy m p h us (Some \<lparr>ps_Version = v, ps_Rules = pre\<rparr>) = (''allow'', [], 0, False) \<and>
   (rule_matches m p h us rule \<longrightarrow>
    EvaluatePolicy m p h us (Some \<lparr>ps_Version = v, ps_Rules = pre @ rule # post\<rparr>) =
      (pr_Action rule, pr_RedactFields rule, pr_RateLimitRPM rule, True))"
  using EvaluateRules_skip[of pre m p h us "[]"] EvaluateRules_skip[of pre m p h us "rule # post"]
  by (simp add: EvaluatePolicy_def EvaluateRules_simp del: EvaluateRules.simps(2))

definition deny_admin :: PolicyRule where
  "deny_admin = \<lparr>pr_ID = ''r1'', pr_Action = ''deny'', pr_Methods = [''*''], pr_Path = ''/admin/*'', pr_Roles = [''guest''],
     pr_Headers = [], pr_RateLimitRPM = 0, pr_RedactFields = []\<rparr>"

theorem policy_first_match_witness:
  "fst (EvaluatePolicy ''GET'' ''/admin/x'' Map.empty [''guest''] (Some \<lparr>ps_Version = 1, ps_Rules = [deny_admin\<lparr>pr_Methods := [''PUT'']\<rparr>, deny_admin]\<rparr>)) = ''deny''"
proof -
  have "\<forall>r\<in>set [deny_admin\<lparr>pr_Methods := [''PUT'']\<rparr>]. \<not> rule_matches ''GET'' ''/admin/x'' Map.empty [''guest''] r"
    by (simp add: rule_matches_def method_match_def EqualFold_def ToLower_def lower_char_def)
  from policy_first_match[OF this, where rule = deny_admin and post = "[]" and v = 1] show ?thesis
    by (simp add: deny_admin_def rule_matches_def method_match_def role_match_def header_match_def matchPath_def
        EqualFold_def ToLower_def lower_char_def HasSuffix_def TrimSuffix_def HasPrefix_def)
qed

text \<open>A pattern ending in \<open>/*\<close> is a string prefix test on what comes before it, not a test on
  path segments: \<open>pfx/*\<close> matches \<open>pfx\<close> itself and every continuation of it, so
  \<open>/admin/*\<close> covers \<open>/administrator\<close> as well.\<close>

theorem policy_wildcard_is_prefix:
  "matchPath (pfx @ ''/*'') (pfx @ rest)"
  by (simp add: matchPath_wildcard)

text \<open>The roles of a request are taken from the bearer token without checking its signature: any
  list of roles can be claimed by a token that its sender has put together without knowing a
  secret.\<close>

theorem roles_are_unauthenticated:
  assumes "roles_claim pl = Some roles" and "roles \<noteq> []"
  shows "extractUserRoles roles_claim [(''Authorization'', [''Bearer x.'' @ RawURLEncode pl @ ''.y''])] = roles"
proof -
  have c: "CanonicalHeaderKey ''Authorization'' = ''Authorization''"
    by (simp add: CanonicalHeaderKey_def is_token_char_def upper_char_def lower_char_def)
  have "Split (''x.'' @ RawURLEncode pl @ ''.y'') CHR ''.'' = [''x'', RawURLEncode pl, ''y'']"
    using Split_append_sep[of "CHR ''.''" "RawURLEncode pl" "''y''"] RawURLEncode_no_dot[of pl] by simp
  moreover have "TrimPrefix (''Bearer x.'' @ RawURLEncode pl @ ''.y'') ''Bearer '' = ''x.'' @ RawURLEncode pl @ ''.y''"
    by (simp add: TrimPrefix_def HasPrefix_def)
  ultimately show ?thesis
    using assms by (simp add: extractUserRoles_def Header_Get_def c HasPrefix_def)
qed

theorem roles_are_unauthenticated_witness:
  "extractUserRoles (\<lambda>p. Some [p]) [(''Authorization'', [''Bearer x.'' @ RawURLEncode ''admin'' @ ''.y''])] = [''admin'']"
  by (rule roles_are_unauthenticated) simp_all

text \<open>The IP lists: for a client address that parses, a blocklist match refuses it whatever the
  allowlist says, and otherwise a non-empty allowlist admits exactly its matches.\<close>

theorem ip_access_iff:
  assumes "ParseIP env ip = Some a"
  shows "checkIPAccess env ip allow block \<longleftrightarrow>
    (\<forall>p\<in>set block. \<not> ipMatches env a p) \<and> (allow = [] \<or> (\<exists>p\<in>set allow. ipMatches env a p))"
  using assms by (auto simp: checkIPAccess_def list_ex_iff)

theorem ip_access_iff_witness:
  "\<not> checkIPAccess \<lparr>ParseIP = (\<lambda>s. Some s), ParseCIDR = (\<lambda>_. None), IP_Equal = (=)\<rparr> ''10.0.0.1'' [''10.0.0.1''] [''10.0.0.1'']"
  by (subst ip_access_iff[where a = "''10.0.0.1''"]) (simp_all add: ipMatches_def HasPrefix_def)

text \<open>An address that does not parse is admitted although the allowlist names only others.\<close>

lemma ip_access_unparsable: "ParseIP env ip = None \<Longrightarrow> checkIPAccess env ip allow block"
  by (simp add: checkIPAccess_def)

lemma tenant_placement_iff:
  "tenant_placement (Some p) c g = None \<longleftrightarrow>
   placement_allowed (tp_AllowedClusters p) (if c = [] then ''default'' else c) \<and>
   placement_allowed (tp_AllowedRegions p) (if g = [] then ''us-east'' else g)"
  by (simp add: tenant_placement_def Let_def)

end
