(* ===== verification/Metrics.thy ===== *)
theory Metrics
  imports Float64 Base64 "HOL-Library.Word" "HOL-Library.Multiset"
begin

text \<open>
  The request counters (\<^verbatim>\<open>MetricsTracker\<close>, handler.go) with their 64-bit unsigned wrap-around,
  and the statistics of a traffic replay (pkg/proxy/replay.go).
\<close>

section \<open>Counters\<close>

record MetricsTracker =
  totalRequests :: "64 word"
  totalErrors :: "64 word"
  lastRequests :: "64 word"
  lastErrors :: "64 word"
  reqRate :: rat
  errRate :: rat

definition new_tracker :: MetricsTracker where
  "new_tracker = \<lparr>totalRequests = 0, totalErrors = 0, lastRequests = 0, lastErrors = 0, reqRate = 0, errRate = 0\<rparr>"

definition IncRequest :: "MetricsTracker \<Rightarrow> MetricsTracker" where
  "IncRequest m = m\<lparr>totalRequests := totalRequests m + 1\<rparr>"

definition IncError :: "MetricsTracker \<Rightarrow> MetricsTracker" where
  "IncError m = m\<lparr>totalErrors := totalErrors m + 1\<rparr>"

definition Tick :: "MetricsTracker \<Rightarrow> MetricsTracker" where
  "Tick m = m\<lparr>reqRate := f64_of_int (uint (totalRequests m - lastRequests m)),
     errRate := f64_of_int (uint (totalErrors m - lastErrors m)),
     lastRequests := totalRequests m, lastErrors := totalErrors m\<rparr>"

definition Snapshot :: "MetricsTracker \<Rightarrow> 64 word \<times> 64 word \<times> rat \<times> rat" where
  "Snapshot m = (totalRequests m, totalErrors m, reqRate m, errRate m)"

record GatewayMetricsSnapshot =
  ms_TotalRequests :: "64 word"
  ms_TotalErrors :: "64 word"
  ms_RequestRate :: rat
  ms_ErrorRate :: rat
  ms_ActiveConnections :: "(string \<times> int) list"
  ms_Timestamp :: int

definition GetMetricsSnapshot :: "MetricsTracker \<Rightarrow> (string \<times> int) list \<Rightarrow> time \<Rightarrow> GatewayMetricsSnapshot" where
  "GetMetricsSnapshot m conns now = (let (totalReq, totalErr, rRate, eRate) = Snapshot m in
     \<lparr>ms_TotalRequests = totalReq, ms_TotalErrors = totalErr, ms_RequestRate = rRate, ms_ErrorRate = eRate,
      ms_ActiveConnections = conns, ms_Timestamp = now div 1000000000\<rparr>)"

datatype metric_event = Request | Error

fun count_event :: "metric_event \<Rightarrow> MetricsTracker \<Rightarrow> MetricsTracker" where
  "count_event Request m = IncRequest m"
| "count_event Error m = IncError m"

lemma count_events:
  "totalRequests (fold count_event evs m) = totalRequests m + word_of_nat (length (filter (\<lambda>e. e = Request) evs)) \<and>
   totalErrors (fold count_event evs m) = totalErrors m + word_of_nat (length (filter (\<lambda>e. e = Error) evs)) \<and>
   lastRequests (fold count_event evs m) = lastRequests m \<and> lastErrors (fold count_event evs m) = lastErrors m"
proof (induction evs arbitrary: m)
  case (Cons e evs)
  then show ?case by (cases e) (simp_all add: IncRequest_def IncError_def)
qed simp

lemma rate_exact: "n < 9007199254740992 \<Longrightarrow> f64_of_int (uint (word_of_nat n :: 64 word)) = of_nat n"
proof -
  assume n: "n < 9007199254740992"
  then have "uint (word_of_nat n :: 64 word) = int n" by (simp add: unsigned_of_nat take_bit_nat_eq_self_iff)
  with n show ?thesis by (simp add: f64_of_int_exact)
qed

section \<open>Replay\<close>

record ReplayStats =
  rp_Total :: int
  rp_Successes :: int
  rp_Failures :: int
  rp_MinLatency :: duration
  rp_MaxLatency :: duration
  rp_AvgLatency :: duration
  rp_P50Latency :: duration
  rp_P90Latency :: duration
  rp_P99Latency :: duration

definition zero_stats :: ReplayStats where
  "zero_stats = \<lparr>rp_Total = 0, rp_Successes = 0, rp_Failures = 0, rp_MinLatency = 0, rp_MaxLatency = 0, rp_AvgLatency = 0,
     rp_P50Latency = 0, rp_P90Latency = 0, rp_P99Latency = 0\<rparr>"

text \<open>
  One line of the log: \<open>body_base64\<close> is the decoded \<^verbatim>\<open>body_base64\<close> field (\<open>None\<close>: not JSON),
  \<open>run\<close> the middleware on the body, with the time it took (\<open>None\<close>: it failed).
\<close>

definition replay_line ::
  "(string \<Rightarrow> string option) \<Rightarrow> (string \<Rightarrow> duration option) \<Rightarrow> string \<Rightarrow> int \<times> int \<times> duration list \<Rightarrow> int \<times> int \<times> duration list" where
  "replay_line body_base64 run line acc = (case acc of (successes, failures, latencies) \<Rightarrow>
     (if line = [] then acc
      else (case body_base64 line of
         None \<Rightarrow> (successes, failures + 1, latencies)
       | Some enc \<Rightarrow> (case StdDecode enc of
           None \<Rightarrow> (successes, failures + 1, latencies)
         | Some b \<Rightarrow> (case run b of
             None \<Rightarrow> (successes, failures + 1, latencies)
           | Some elapsed \<Rightarrow> (successes + 1, failures, latencies @ [elapsed]))))))"

definition replay_stats :: "int \<Rightarrow> int \<Rightarrow> duration list \<Rightarrow> ReplayStats" where
  "replay_stats successes failures latencies =
     (let stats = zero_stats\<lparr>rp_Total := successes + failures, rp_Successes := successes, rp_Failures := failures\<rparr> in
      if latencies = [] then stats
      else (let l = sort latencies; n = length l; s = fold (\<lambda>lat acc. wrap64 (acc + lat)) l 0 in
        stats\<lparr>rp_MinLatency := l ! 0, rp_MaxLatency := l ! (n - 1), rp_AvgLatency := go_div s (int n),
          rp_P50Latency := l ! (n * 50 div 100), rp_P90Latency := l ! (n * 90 div 100),
          rp_P99Latency := l ! (n * 99 div 100)\<rparr>))"

text \<open>\<open>scan_err\<close>: the scanner stopped with an error (a line over 64 KiB, a read error).\<close>

definition ReplayTraffic ::
  "(string \<Rightarrow> string option) \<Rightarrow> (string \<Rightarrow> duration option) \<Rightarrow> bool \<Rightarrow> string list \<Rightarrow> ReplayStats option" where
  "ReplayTraffic body_base64 run scan_err lines =
     (let (successes, failures, latencies) = fold (replay_line body_base64 run) lines (0, 0, []) in
      if scan_err then None
      else if successes + failures = 0 then Some zero_stats
      else Some (replay_stats successes failures latencies))"

lemma replay_lines:
  assumes "fold (replay_line bb run) ls (s, f, lat) = (s', f', lat')"
    and "\<And>b d. run b = Some d \<Longrightarrow> 0 \<le> d" and "\<forall>d\<in>set lat. 0 \<le> d"
  shows "s' + f' = s + f + int (length (filter (\<lambda>l. l \<noteq> []) ls)) \<and> s' - s = int (length lat') - int (length lat) \<and>
    f \<le> f' \<and> (\<forall>d\<in>set lat'. 0 \<le> d)"
  using assms
proof (induction ls arbitrary: s f lat)
  case (Cons l ls)
  obtain s1 f1 l1 where st: "replay_line bb run l (s, f, lat) = (s1, f1, l1)" by (cases "replay_line bb run l (s, f, lat)") auto
  have "s1 + f1 = s + f + (if l = [] then 0 else 1) \<and> s1 - s = int (length l1) - int (length lat) \<and> f \<le> f1 \<and> (\<forall>d\<in>set l1. 0 \<le> d)"
    using st Cons.prems(2,3) by (auto simp: replay_line_def split: if_splits option.splits)
  moreover from this Cons.IH[of s1 f1 l1] Cons.prems st
  have "s' + f' = s1 + f1 + int (length (filter (\<lambda>l. l \<noteq> []) ls)) \<and> s' - s1 = int (length lat') - int (length l1) \<and> f1 \<le> f' \<and> (\<forall>d\<in>set lat'. 0 \<le> d)"
    by simp
  ultimately show ?case by auto
qed simp

lemma sum_no_wrap:
  "\<forall>d\<in>set l. 0 \<le> d \<Longrightarrow> 0 \<le> a \<Longrightarrow> a + sum_list l < 9223372036854775808 \<Longrightarrow>
   fold (\<lambda>lat acc. wrap64 (acc + lat)) l a = a + sum_list l"
proof (induction l arbitrary: a)
  case (Cons d l)
  then have "0 \<le> sum_list l" by (simp add: sum_list_nonneg)
  with Cons.prems have "wrap64 (a + d) = a + d" by (intro wrap64_id int64_okI) auto
  with Cons show ?case by (simp add: add.assoc)
qed simp

lemma sum_list_bounds:
  fixes l :: "int list"
  assumes "\<forall>x\<in>set l. lo \<le> x \<and> x \<le> hi"
  shows "int (length l) * lo \<le> sum_list l \<and> sum_list l \<le> int (length l) * hi"
  using assms by (induction l) (auto simp: algebra_simps)

lemma percentile_index: "0 < n \<Longrightarrow> k < 100 \<Longrightarrow> n * k div 100 < (n :: nat)"
  by (simp add: div_less_iff_less_mult)

lemma sorted_avg:
  fixes l :: "int list"
  assumes "sorted l" "l \<noteq> []" "\<forall>d\<in>set l. 0 \<le> d"
  shows "l ! 0 \<le> go_div (sum_list l) (int (length l)) \<and> go_div (sum_list l) (int (length l)) \<le> l ! (length l - 1)"
proof -
  have b: "\<forall>x\<in>set l. l ! 0 \<le> x \<and> x \<le> l ! (length l - 1)"
    using assms(1) by (auto simp: in_set_conv_nth intro!: sorted_nth_mono)
  have n: "0 < int (length l)" using assms(2) by simp
  have "0 \<le> sum_list l" using assms(3) by (simp add: sum_list_nonneg)
  then have g: "go_div (sum_list l) (int (length l)) = sum_list l div int (length l)" using n by (rule go_div_nonneg)
  from sum_list_bounds[OF b] have "int (length l) * l ! 0 \<le> sum_list l" "sum_list l \<le> int (length l) * l ! (length l - 1)"
    by simp_all
  from zdiv_mono1[OF this(1) n] zdiv_mono1[OF this(2) n] show ?thesis unfolding g using n by simp
qed

section \<open>Properties\<close>

text \<open>The rates published by a tick are the numbers of requests and errors since the tick before,
  exactly, for any mix of fewer than \<open>2^53\<close> events, also when the 64-bit totals wrap around in
  between.\<close>

theorem metrics_rate_exact:
  assumes "length evs < 9007199254740992"
  shows "reqRate (Tick (fold count_event evs (Tick m))) = of_nat (length (filter (\<lambda>e. e = Request) evs)) \<and>
    errRate (Tick (fold count_event evs (Tick m))) = of_nat (length (filter (\<lambda>e. e = Error) evs))"
proof -
  let ?m = "fold count_event evs (Tick m)"
  have l: "length (filter P evs) < 9007199254740992" for P using assms length_filter_le[of P evs] by linarith
  have "totalRequests ?m - lastRequests ?m = word_of_nat (length (filter (\<lambda>e. e = Request) evs))"
    "totalErrors ?m - lastErrors ?m = word_of_nat (length (filter (\<lambda>e. e = Error) evs))"
    using count_events[of evs "Tick m"] by (simp_all add: Tick_def)
  then show ?thesis unfolding Tick_def[of ?m] by (simp add: rate_exact[OF l])
qed

theorem metrics_rate_exact_witness:
  "reqRate (Tick (fold count_event [Request, Error, Request] (Tick (new_tracker\<lparr>totalRequests := - 1\<rparr>)))) = 2"
  using metrics_rate_exact[of "[Request, Error, Request]" "new_tracker\<lparr>totalRequests := - 1\<rparr>"] by simp

text \<open>Replay statistics: every non-empty line is counted once, as a success or a failure, and when
  there are successes the latencies are ordered min, p50, p90, p99, max with the average between
  min and max (for non-negative latencies whose sum is in range); no index is out of range.\<close>

theorem replay_stats_ordered:
  assumes "\<And>b d. run b = Some d \<Longrightarrow> 0 \<le> d" and "ReplayTraffic bb run False ls = Some st"
    and "fold (replay_line bb run) ls (0, 0, []) = (s, f, lat)" and "sum_list lat < 9223372036854775808"
  shows "rp_Total st = int (length (filter (\<lambda>l. l \<noteq> []) ls)) \<and> rp_Total st = rp_Successes st + rp_Failures st \<and>
    rp_MinLatency st \<le> rp_P50Latency st \<and> rp_P50Latency st \<le> rp_P90Latency st \<and> rp_P90Latency st \<le> rp_P99Latency st \<and>
    rp_P99Latency st \<le> rp_MaxLatency st \<and> rp_MinLatency st \<le> rp_AvgLatency st \<and> rp_AvgLatency st \<le> rp_MaxLatency st"
proof -
  have p: "run b = Some d \<Longrightarrow> 0 \<le> d" for b d using assms(1) by blast
  have "s + f = 0 + 0 + int (length (filter (\<lambda>l. l \<noteq> []) ls)) \<and> s - 0 = int (length lat) - int (length ([] :: duration list)) \<and>
      0 \<le> f \<and> (\<forall>d\<in>set lat. 0 \<le> d)"
    by (rule replay_lines[OF assms(3)]) (use p in auto)
  then have c: "s + f = int (length (filter (\<lambda>l. l \<noteq> []) ls))" "s = int (length lat)" "0 \<le> f"
    "\<forall>d\<in>set lat. 0 \<le> d" by simp_all
  show ?thesis
  proof (cases "lat = []")
    case True
    then show ?thesis using assms(2,3) c
      by (auto simp: ReplayTraffic_def replay_stats_def zero_stats_def split: if_splits)
  next
    case False
    let ?l = "sort lat" and ?n = "length lat"
    have "0 < int (length lat)" using False by simp
    with c(2,3) have s0: "s + f \<noteq> 0" by linarith
    have sm: "sum_list ?l = sum_list lat" by (metis mset_sort sum_mset_sum_list)
    then have "fold (\<lambda>x acc. wrap64 (acc + x)) ?l 0 = sum_list ?l" using sum_no_wrap[of ?l 0] c(4) assms(4) by simp
    with sorted_avg[of ?l] False c(4)
    have avg: "?l ! 0 \<le> go_div (fold (\<lambda>x acc. wrap64 (acc + x)) ?l 0) (int ?n)"
      "go_div (fold (\<lambda>x acc. wrap64 (acc + x)) ?l 0) (int ?n) \<le> ?l ! (?n - 1)"
      by (simp_all flip: set_empty length_0_conv)
    have mono: "?l ! i \<le> ?l ! j" if "i \<le> j" "j < ?n" for i j
      using that by (intro sorted_nth_mono) simp_all
    have "0 < ?n" using False by simp
    then have idx: "?n * 50 div 100 \<le> ?n * 90 div 100" "?n * 90 div 100 \<le> ?n * 99 div 100" "?n * 99 div 100 \<le> ?n - 1"
      "?n * 50 div 100 < ?n" "?n * 90 div 100 < ?n" "?n * 99 div 100 < ?n"
      using percentile_index[of ?n 50] percentile_index[of ?n 90] percentile_index[of ?n 99] by (simp_all add: div_le_mono)
    from assms(2,3) s0 False have st: "st = replay_stats s f lat" by (simp add: ReplayTraffic_def)
    show ?thesis unfolding st replay_stats_def Let_def
      using False c(1) avg mono idx by (simp add: zero_stats_def)
  qed
qed

theorem replay_stats_ordered_witness:
  "\<exists>st. ReplayTraffic (\<lambda>l. Some []) (\<lambda>b. Some 5) False [''a'', [], ''b''] = Some st \<and> rp_Total st = 2 \<and> rp_P99Latency st \<le> rp_MaxLatency st"
proof -
  have d: "StdDecode [] = Some []" by (simp add: StdDecode_def decode_with_def)
  have f: "fold (replay_line (\<lambda>l. Some []) (\<lambda>b. Some 5)) [''a'', [], ''b''] (0, 0, []) = (2, 0, [5, 5])"
    by (simp add: replay_line_def d)
  then obtain st where st: "ReplayTraffic (\<lambda>l. Some []) (\<lambda>b. Some 5) False [''a'', [], ''b''] = Some st"
    by (simp add: ReplayTraffic_def)
  from replay_stats_ordered[OF _ st f] st show ?thesis by auto
qed

end
