(* ===== verification/Json.thy ===== *)
theory Json
  imports Complex_Main Prelude
begin

text \<open>
  JSON values as Go's \<^verbatim>\<open>encoding/json\<close> decodes them into \<^verbatim>\<open>interface{}\<close>, and the
  declarative body transformation of handler.go (\<^verbatim>\<open>transformJSON\<close>, \<^verbatim>\<open>transformValue\<close>). An
  object is a Go map: an association list with distinct keys, in the order in which a range over
  it would visit it. The text encoding is a parameter: \<open>unmarshal\<close> and \<open>marshal\<close>.
\<close>

datatype json =
    JNull
  | JBool bool
  | JNum rat
  | JStr string
  | JArr "json list"
  | JObj "(string \<times> json) list"

primrec wf_json :: "json \<Rightarrow> bool" where
  "wf_json JNull = True"
| "wf_json (JBool b) = True"
| "wf_json (JNum n) = True"
| "wf_json (JStr s) = True"
| "wf_json (JArr xs) = list_all id (map wf_json xs)"
| "wf_json (JObj kvs) = (distinct (map fst kvs) \<and> list_all snd (map (map_prod id wf_json) kvs))"

text \<open>Decoding into a \<^verbatim>\<open>map[string]interface{}\<close>: \<^verbatim>\<open>null\<close> gives the nil map.\<close>

definition as_object :: "json option \<Rightarrow> (string \<times> json) list option" where
  "as_object v = (case v of Some (JObj kvs) \<Rightarrow> Some kvs | Some JNull \<Rightarrow> Some [] | _ \<Rightarrow> None)"

section \<open>Transformation\<close>

definition rename_key :: "(string \<times> string) list \<Rightarrow> string \<Rightarrow> string" where
  "rename_key mapping key = (case map_of mapping key of Some mapped \<Rightarrow> mapped | None \<Rightarrow> key)"

definition insert_renamed :: "(string \<times> string) list \<Rightarrow> (string \<times> json) list \<Rightarrow> (string \<times> json) list" where
  "insert_renamed mapping kvs = fold (\<lambda>(key, v) res. AList.update (rename_key mapping key) v res) kvs []"

primrec transformValue :: "(string \<times> string) list \<Rightarrow> json \<Rightarrow> json" where
  "transformValue mapping JNull = JNull"
| "transformValue mapping (JBool b) = JBool b"
| "transformValue mapping (JNum n) = JNum n"
| "transformValue mapping (JStr s) = JStr s"
| "transformValue mapping (JArr xs) = JArr (map (transformValue mapping) xs)"
| "transformValue mapping (JObj kvs) = JObj (insert_renamed mapping (map (map_prod id (transformValue mapping)) kvs))"

definition transformJSON ::
  "(string \<Rightarrow> json option) \<Rightarrow> (json \<Rightarrow> string option) \<Rightarrow> string \<Rightarrow> (string \<times> string) list \<Rightarrow> string option" where
  "transformJSON unmarshal marshal body mapping =
     (if body = [] \<or> mapping = [] then Some body
      else (case unmarshal body of None \<Rightarrow> None | Some data \<Rightarrow> marshal (transformValue mapping data)))"

section \<open>Lemmas\<close>

primrec json_keys :: "json \<Rightarrow> string set" where
  "json_keys JNull = {}"
| "json_keys (JBool b) = {}"
| "json_keys (JNum n) = {}"
| "json_keys (JStr s) = {}"
| "json_keys (JArr xs) = \<Union> (set (map json_keys xs))"
| "json_keys (JObj kvs) = fst ` set kvs \<union> \<Union> (snd ` set (map (map_prod id json_keys) kvs))"

lemma update_fresh: "k \<notin> fst ` set xs \<Longrightarrow> AList.update k v xs = xs @ [(k, v)]"
  by (induction xs) auto

lemma set_update_subset: "set (AList.update k v xs) \<subseteq> insert (k, v) (set xs)"
  by (induction xs) auto

lemma insert_renamed_fold:
  "distinct (map fst acc @ map (rename_key m \<circ> fst) kvs) \<Longrightarrow>
   fold (\<lambda>(key, v) res. AList.update (rename_key m key) v res) kvs acc = acc @ map (\<lambda>(k, v). (rename_key m k, v)) kvs"
proof (induction kvs arbitrary: acc)
  case (Cons a kvs)
  then have "rename_key m (fst a) \<notin> fst ` set acc" by auto
  then have "AList.update (rename_key m (fst a)) (snd a) acc = acc @ [(rename_key m (fst a), snd a)]" by (rule update_fresh)
  with Cons.IH[of "acc @ [(rename_key m (fst a), snd a)]"] Cons.prems show ?case
    by (simp add: case_prod_unfold)
qed simp

lemma insert_renamed_eq:
  "distinct (map fst kvs) \<Longrightarrow> inj_on (rename_key m) (fst ` set kvs) \<Longrightarrow>
   insert_renamed m kvs = map (\<lambda>(k, v). (rename_key m k, v)) kvs"
  using insert_renamed_fold[of "[]" m kvs]
  by (simp add: insert_renamed_def distinct_map comp_inj_on_iff flip: map_map)

lemma keys_distinct_insert_renamed: "distinct (map fst (insert_renamed m kvs))"
proof -
  have "distinct (map fst acc) \<Longrightarrow> distinct (map fst (fold (\<lambda>(key, v) res. AList.update (rename_key m key) v res) kvs acc))" for acc
    by (induction kvs arbitrary: acc) (auto simp: distinct_update)
  then show ?thesis by (simp add: insert_renamed_def)
qed

lemma insert_renamed_vals: "(k, v) \<in> set (insert_renamed m kvs) \<Longrightarrow> v \<in> snd ` set kvs"
proof -
  have "set (fold (\<lambda>(key, v) res. AList.update (rename_key m key) v res) kvs acc) \<subseteq>
      set acc \<union> UNIV \<times> snd ` set kvs" for acc
  proof (induction kvs arbitrary: acc)
    case (Cons a kvs)
    have "set (AList.update (rename_key m (fst a)) (snd a) acc) \<subseteq> set acc \<union> UNIV \<times> {snd a}"
      using set_update_subset by fastforce
    with Cons.IH[of "AList.update (rename_key m (fst a)) (snd a) acc"] show ?case
      by (auto simp: case_prod_unfold)
  qed simp
  from this[of "[]"] show "(k, v) \<in> set (insert_renamed m kvs) \<Longrightarrow> v \<in> snd ` set kvs"
    by (auto simp: insert_renamed_def)
qed

lemma wf_json_obj: "wf_json (JObj kvs) \<longleftrightarrow> distinct (map fst kvs) \<and> (\<forall>(k, v)\<in>set kvs. wf_json v)"
  by (auto simp: list_all_iff)

lemma wf_json_arr: "wf_json (JArr xs) \<longleftrightarrow> (\<forall>v\<in>set xs. wf_json v)"
  by (auto simp: list_all_iff)

lemma json_keys_obj: "json_keys (JObj kvs) = fst ` set kvs \<union> (\<Union>(k, v)\<in>set kvs. json_keys v)"
  by (auto simp: image_iff)

lemmas json_shape = wf_json_obj wf_json_arr json_keys_obj

text \<open>The result is again a value with one entry per key, also when two keys are renamed to one.\<close>

lemma wf_transformValue: "wf_json v \<Longrightarrow> wf_json (transformValue m v)"
proof (induction v)
  case (JArr xs)
  then show ?case by (auto simp: wf_json_arr simp del: wf_json.simps)
next
  case (JObj kvs)
  let ?kvs = "map (map_prod id (transformValue m)) kvs"
  have "wf_json v" if "(k, v) \<in> set (insert_renamed m ?kvs)" for k v
  proof -
    from insert_renamed_vals[OF that] obtain k' v' where "(k', v') \<in> set kvs" "v = transformValue m v'" by auto
    with JObj show ?thesis by (fastforce simp: wf_json_obj simp del: wf_json.simps)
  qed
  then show ?case by (auto simp: wf_json_obj keys_distinct_insert_renamed simp del: wf_json.simps)
qed simp_all

lemma inverse_inj: "(\<And>k. k \<in> K \<Longrightarrow> rename_key m' (rename_key m k) = k) \<Longrightarrow> inj_on (rename_key m) K"
  by (rule inj_on_inverseI)

lemma transformValue_obj:
  assumes "distinct (map fst kvs)" "inj_on (rename_key m) (fst ` set kvs)"
  shows "transformValue m (JObj kvs) = JObj (map (\<lambda>(k, v). (rename_key m k, transformValue m v)) kvs)"
proof -
  have "fst ` set (map (map_prod id (transformValue m)) kvs) = fst ` set kvs" "map fst (map (map_prod id (transformValue m)) kvs) = map fst kvs"
    by (simp_all add: image_image comp_def)
  with insert_renamed_eq[of "map (map_prod id (transformValue m)) kvs" m] assms show ?thesis
    by (simp add: case_prod_unfold map_prod_def comp_def)
qed

lemma transform_inverse:
  assumes "wf_json v" "\<And>k. k \<in> json_keys v \<Longrightarrow> rename_key m' (rename_key m k) = k"
  shows "transformValue m' (transformValue m v) = v"
  using assms
proof (induction v)
  case (JArr xs)
  have "transformValue m' (transformValue m x) = x" if "x \<in> set xs" for x
    using JArr that by (fastforce simp: wf_json_arr simp del: wf_json.simps)
  then show ?case by (simp add: map_idI)
next
  case (JObj kvs)
  from JObj.prems have d: "distinct (map fst kvs)" and w: "\<And>k v. (k, v) \<in> set kvs \<Longrightarrow> wf_json v"
    by (auto simp: wf_json_obj simp del: wf_json.simps)
  from JObj.prems(2) have k: "\<And>k. k \<in> fst ` set kvs \<Longrightarrow> rename_key m' (rename_key m k) = k"
    and kv: "\<And>k v l. (k, v) \<in> set kvs \<Longrightarrow> l \<in> json_keys v \<Longrightarrow> rename_key m' (rename_key m l) = l"
    by (auto simp: json_keys_obj simp del: json_keys.simps)
  let ?kvs = "map (\<lambda>(k, v). (rename_key m k, transformValue m v)) kvs"
  have inj: "inj_on (rename_key m) (fst ` set kvs)" using k by (rule inverse_inj)
  have "map fst ?kvs = map (rename_key m) (map fst kvs)" by (simp add: case_prod_unfold comp_def)
  with d inj have d': "distinct (map fst ?kvs)" by (simp only: distinct_map) simp
  have "inj_on (rename_key m') (fst ` set ?kvs)"
    by (rule inverse_inj[of _ m]) (auto simp: k[OF imageI, simplified] image_iff, metis fst_conv imageI k)
  with d' d inj have "transformValue m' (transformValue m (JObj kvs)) =
      JObj (map (\<lambda>(k, v). (rename_key m' (rename_key m k), transformValue m' (transformValue m v))) kvs)"
    by (simp only: transformValue_obj) (simp add: case_prod_unfold comp_def)
  also have "\<dots> = JObj kvs"
  proof -
    have "transformValue m' (transformValue m v) = v" if "(l, v) \<in> set kvs" for l v
      using JObj.IH[of "(l, v)" v] that w kv by simp
    then have "map (\<lambda>(k, v). (rename_key m' (rename_key m k), transformValue m' (transformValue m v))) kvs = kvs"
      using k by (intro map_idI) (force simp: case_prod_unfold)
    then show ?thesis by simp
  qed
  finally show ?case .
qed simp_all

section \<open>Properties\<close>

text \<open>C40: a response mapping that undoes the request mapping on the keys that occur restores the
  document, at every depth of objects and arrays.\<close>

theorem transform_roundtrip:
  assumes "unmarshal b = Some v" and "wf_json v" and "marshal (transformValue m v) = Some b'"
    and "unmarshal b' = Some (transformValue m v)" and "b' \<noteq> []" and "b \<noteq> []" and "m \<noteq> []" and "m' \<noteq> []"
    and "\<And>k. k \<in> json_keys v \<Longrightarrow> rename_key m' (rename_key m k) = k"
  shows "transformJSON unmarshal marshal b m = Some b' \<and> transformJSON unmarshal marshal b' m' = marshal v"
  using assms transform_inverse[of v m' m] by (simp add: transformJSON_def)

theorem transform_roundtrip_witness:
  "transformJSON (\<lambda>b. if b = ''o'' then Some (JObj [(''id'', JArr [JObj [(''id'', JNull)]])])
        else Some (JObj [(''uid'', JArr [JObj [(''uid'', JNull)]])]))
     (\<lambda>v. if v = JObj [(''id'', JArr [JObj [(''id'', JNull)]])] then Some ''o'' else Some ''n'') ''o'' [(''id'', ''uid'')] = Some ''n'' \<and>
   transformJSON (\<lambda>b. if b = ''o'' then Some (JObj [(''id'', JArr [JObj [(''id'', JNull)]])])
        else Some (JObj [(''uid'', JArr [JObj [(''uid'', JNull)]])]))
     (\<lambda>v. if v = JObj [(''id'', JArr [JObj [(''id'', JNull)]])] then Some ''o'' else Some ''n'') ''n'' [(''uid'', ''id'')] = Some ''o''"
  using transform_roundtrip[where v = "JObj [(''id'', JArr [JObj [(''id'', JNull)]])]" and b = "''o''" and b' = "''n''"
      and m = "[(''id'', ''uid'')]" and m' = "[(''uid'', ''id'')]"
      and unmarshal = "\<lambda>b. if b = ''o'' then Some (JObj [(''id'', JArr [JObj [(''id'', JNull)]])])
        else Some (JObj [(''uid'', JArr [JObj [(''uid'', JNull)]])])"
      and marshal = "\<lambda>v. if v = JObj [(''id'', JArr [JObj [(''id'', JNull)]])] then Some ''o'' else Some ''n''"]
  by (simp add: insert_renamed_def rename_key_def)

end
