(* ===== verification/AI.thy ===== *)
theory AI
  imports Json Float64 Balancer Http
begin

text \<open>
  The AI helpers: pkg/proxy/ai.go (prompt extraction, prompt guard, redaction, semantic cache,
  prompt A/B selection) and the open-source request extension of ai\_billing\_oss.go. The four
  regular expressions of the prompt guard are literals under \<^verbatim>\<open>(?i)\<close>, that is substring tests
  up to case; the redaction patterns are parameters, one replacement function each; \<^verbatim>\<open>math.Sqrt\<close>
  is the parameter \<open>fsqrt\<close>.
\<close>

section \<open>Prompts\<close>

definition extractPrompt :: "(string \<Rightarrow> json option) \<Rightarrow> string \<Rightarrow> string" where
  "extractPrompt unmarshal body = (case as_object (unmarshal body) of
     None \<Rightarrow> []
   | Some data \<Rightarrow> (case map_of data ''prompt'' of
       Some (JStr prompt) \<Rightarrow> prompt
     | _ \<Rightarrow> (case map_of data ''messages'' of
         Some (JArr messages) \<Rightarrow>
           (if messages = [] then []
            else (case messages ! (length messages - 1) of
               JObj lastMsg \<Rightarrow> (case map_of lastMsg ''content'' of Some (JStr content) \<Rightarrow> content | _ \<Rightarrow> [])
             | _ \<Rightarrow> []))
       | _ \<Rightarrow> [])))"

definition injectionPatterns :: "string list" where
  "injectionPatterns = [''ignore previous instructions'', ''system prompt override'', ''you are now in developer mode'', ''jailbreak'']"

definition IsPromptInjection :: "string \<Rightarrow> bool" where
  "IsPromptInjection prompt = list_ex (\<lambda>p. Contains (ToLower prompt) p) injectionPatterns"

text \<open>\<open>patterns\<close>: for each replacement text, in the order of Go's range, its \<^verbatim>\<open>ReplaceAllString\<close>.\<close>

definition RedactPii :: "(string \<Rightarrow> string) list \<Rightarrow> string \<Rightarrow> string" where
  "RedactPii patterns text = fold (\<lambda>replaceAll t. replaceAll t) patterns text"

section \<open>Semantic cache\<close>

record CacheEntry =
  sc_Prompt :: string
  sc_Response :: string
  sc_TermFreq :: "(string \<times> rat) list"
  sc_Magnitude :: rat

record SemanticCache =
  sc_entries :: "CacheEntry list"
  sc_threshold :: rat

definition NewSemanticCache :: "rat \<Rightarrow> SemanticCache" where
  "NewSemanticCache threshold = \<lparr>sc_entries = [], sc_threshold = (if threshold \<le> 0 then f64_round (85 / 100) else threshold)\<rparr>"

definition tokenize :: "string \<Rightarrow> (string \<times> rat) list" where
  "tokenize text = fold (\<lambda>w tf. (let w = Trim w (''.,!?;:()'' @ [CHR 0x22, CHR 39]) in
       if 0 < length w then AList.update w (f64_round ((case map_of tf w of None \<Rightarrow> 0 | Some n \<Rightarrow> n) + 1)) tf else tf))
     (Fields (ToLower text)) []"

definition getMagnitude :: "(rat \<Rightarrow> rat) \<Rightarrow> (string \<times> rat) list \<Rightarrow> rat" where
  "getMagnitude fsqrt tf = fsqrt (fold (\<lambda>(_, v) s. f64_round (s + f64_mul v v)) tf 0)"

definition cosineSimilarity :: "(string \<times> rat) list \<Rightarrow> (string \<times> rat) list \<Rightarrow> rat \<Rightarrow> rat \<Rightarrow> rat" where
  "cosineSimilarity tf1 tf2 mag1 mag2 =
     (if mag1 = 0 \<or> mag2 = 0 then 0
      else (let dotProduct = fold (\<lambda>(k, v1) d. (case map_of tf2 k of Some v2 \<Rightarrow> f64_round (d + f64_mul v1 v2) | None \<Rightarrow> d)) tf1 0
            in f64_div dotProduct (f64_mul mag1 mag2)))"

definition SemanticCache_Get :: "(rat \<Rightarrow> rat) \<Rightarrow> string \<Rightarrow> SemanticCache \<Rightarrow> string option" where
  "SemanticCache_Get fsqrt prompt c =
     (let tf = tokenize prompt; mag = getMagnitude fsqrt tf in
      if mag = 0 then None
      else map_option sc_Response
        (find (\<lambda>entry. sc_threshold c \<le> cosineSimilarity tf (sc_TermFreq entry) mag (sc_Magnitude entry)) (sc_entries c)))"

definition SemanticCache_Set :: "(rat \<Rightarrow> rat) \<Rightarrow> string \<Rightarrow> string \<Rightarrow> SemanticCache \<Rightarrow> SemanticCache" where
  "SemanticCache_Set fsqrt prompt resp c =
     (let tf = tokenize prompt; mag = getMagnitude fsqrt tf in
      if mag = 0 then c
      else c\<lparr>sc_entries := sc_entries c @ [\<lparr>sc_Prompt = prompt, sc_Response = resp, sc_TermFreq = tf, sc_Magnitude = mag\<rparr>]\<rparr>)"

section \<open>Prompt A/B selection\<close>

text \<open>The lists give the order of Go's map ranges; \<open>first_version\<close> is the range that returns at once.\<close>

definition first_version :: "PromptABTest \<Rightarrow> string \<times> string" where
  "first_version test = (case ab_Versions test of [] \<Rightarrow> ([], []) | (v, tpl) # _ \<Rightarrow> (v, tpl))"

definition SelectABPromptVersion :: "PromptABTest \<Rightarrow> int \<Rightarrow> string \<times> string" where
  "SelectABPromptVersion test seed =
     (let total = totalWeight (ab_Weights test) in
      if total \<le> 0 then first_version test
      else (case weighted_walk (go_mod seed total) 0 (ab_Weights test) of
         Some v \<Rightarrow> (v, mget [] (map_of (ab_Versions test)) v)
       | None \<Rightarrow> first_version test))"

section \<open>Cost estimate\<close>

fun digits_padded :: "nat \<Rightarrow> nat \<Rightarrow> string" where
  "digits_padded 0 n = []"
| "digits_padded (Suc k) n = digits_padded k (n div 10) @ [char_of (48 + n mod 10)]"

text \<open>The verb \<^verbatim>\<open>%.kf\<close> on a non-negative number: the exact value rounded to \<open>k\<close> decimals.\<close>

definition fmt_fixed :: "nat \<Rightarrow> rat \<Rightarrow> string" where
  "fmt_fixed k x = (let n = nat (round_half_even (x * 10 ^ k)) in show_nat (n div 10 ^ k) @ ''.'' @ digits_padded k (n mod 10 ^ k))"

definition estimated_cost :: "string \<Rightarrow> rat" where
  "estimated_cost reqBody =
     (let reqTokens = max 1 (int (length reqBody) div 4);
          estTokens = reqTokens + 500;
          estCost = f64_mul (f64_of_int estTokens) (f64_round (2 / 1000000))
      in if estCost < f64_round (3 / 1000) then f64_round (3 / 1000) else estCost)"

definition applyAIRequestExtensions :: "request \<Rightarrow> string \<Rightarrow> response_writer \<Rightarrow> (string \<times> bool) \<times> response_writer" where
  "applyAIRequestExtensions r reqBody w =
     (let estCost = estimated_cost reqBody;
          w = w_Set ''X-Estimated-Cost'' (''$'' @ fmt_fixed 3 estCost) w
      in if Header_Get (rq_Header r) ''X-Dry-Run'' = ''true'' \<or> Header_Get (rq_Header r) ''X-Estimate-Only'' = ''true''
         then ((reqBody, False),
           w_Write (''{\"status\":\"dry-run\",\"estimated_cost_usd\":'' @ fmt_fixed 6 estCost @
               '',\"estimated_cost_str\":\"$'' @ fmt_fixed 3 estCost @ ''\"}'')
             (w_WriteHeader 200 (w_Set ''Content-Type'' ''application/json'' w)))
         else ((reqBody, True), w))"

section \<open>Lemmas\<close>

lemma SemanticCache_Get_None: "SemanticCache_Get fsqrt p (NewSemanticCache th) = None"
  by (simp add: SemanticCache_Get_def NewSemanticCache_def Let_def)

text \<open>Earlier entries win: a stored answer is found unless an earlier one is similar enough.\<close>

lemma SemanticCache_Get_Set:
  assumes "getMagnitude fsqrt (tokenize p) \<noteq> 0"
  shows "SemanticCache_Get fsqrt q (SemanticCache_Set fsqrt p resp c) = (case SemanticCache_Get fsqrt q c of
     Some r \<Rightarrow> Some r
   | None \<Rightarrow> if getMagnitude fsqrt (tokenize q) \<noteq> 0 \<and>
        sc_threshold c \<le> cosineSimilarity (tokenize q) (tokenize p) (getMagnitude fsqrt (tokenize q)) (getMagnitude fsqrt (tokenize p))
      then Some resp else None)"
proof -
  have "find P (xs @ [y]) = (case find P xs of Some z \<Rightarrow> Some z | None \<Rightarrow> if P y then Some y else None)"
    for P and xs :: "CacheEntry list" and y by (induction xs) auto
  with assms show ?thesis
    by (auto simp: SemanticCache_Get_def SemanticCache_Set_def Let_def split: option.splits)
qed

lemma Contains_ToLower: "Contains (ToLower s) p \<longleftrightarrow> (\<exists>a t b. s = a @ t @ b \<and> ToLower t = p)"
proof
  assume "Contains (ToLower s) p"
  then obtain a b where "map lower_char s = a @ p @ b" by (auto simp: Contains_iff ToLower_def)
  then obtain a' t b' where "s = a' @ t @ b'" "map lower_char t = p" by (metis map_eq_append_conv)
  then show "\<exists>a t b. s = a @ t @ b \<and> ToLower t = p" by (auto simp: ToLower_def)
next
  assume "\<exists>a t b. s = a @ t @ b \<and> ToLower t = p"
  then obtain a t b where "s = a @ t @ b" "ToLower t = p" by blast
  then show "Contains (ToLower s) p" by (auto simp: Contains_iff ToLower_def)
qed

lemma filter_key: "keys_distinct ws \<Longrightarrow> map_of ws v = Some w \<Longrightarrow> filter (\<lambda>(y, w). y = v) ws = [(v, w)]"
proof (induction ws)
  case (Cons a ws)
  show ?case
  proof (cases "fst a = v")
    case True
    with Cons.prems have "filter (\<lambda>(y, w). y = v) ws = []" by (auto simp: keys_distinct_def filter_empty_conv image_iff)
    with True Cons.prems show ?thesis by (cases a) simp
  next
    case False
    with Cons show ?thesis by (cases a) (auto simp: keys_distinct_def)
  qed
qed simp

section \<open>Properties\<close>

text \<open>The prompt guard stops a prompt exactly when one of the four phrases occurs in it, in any
  mixture of upper and lower case and at any position.\<close>

theorem prompt_guard_iff:
  "IsPromptInjection prompt \<longleftrightarrow>
   (\<exists>a s b. prompt = a @ s @ b \<and> (\<exists>p\<in>set injectionPatterns. EqualFold s p))"
proof -
  have low: "ToLower p = p" if "p \<in> set injectionPatterns" for p
    using that by (auto simp: injectionPatterns_def ToLower_def lower_char_def)
  show ?thesis
    using low by (simp add: IsPromptInjection_def list_ex_iff EqualFold_def Contains_ToLower) blast
qed

text \<open>Prompt versions are chosen in proportion to their weights: among the seeds from 0 to the total
  weight, each version is selected for as many as its weight says, in whatever order Go ranges
  over the map.\<close>

theorem ab_version_share:
  assumes "keys_distinct (ab_Weights test)" and "map_of (ab_Weights test) v = Some w"
    and "list_all (\<lambda>(x, w). 0 \<le> w) (ab_Weights test)" and "int64_ok (sum_list (map snd (ab_Weights test)))"
    and "0 < sum_list (map snd (ab_Weights test))"
  shows "int (card {seed. 0 \<le> seed \<and> seed < sum_list (map snd (ab_Weights test)) \<and> fst (SelectABPromptVersion test seed) = v}) = w"
proof -
  let ?ws = "ab_Weights test" and ?S = "sum_list (map snd (ab_Weights test))"
  have tot: "totalWeight ?ws = ?S" using assms(3,4) by (simp add: totalWeight_sum weights_ok_def)
  have sel: "fst (SelectABPromptVersion test s) = v \<longleftrightarrow> weighted_walk s 0 ?ws = Some v" if "0 \<le> s" "s < ?S" for s
  proof -
    have "go_mod s ?S = s" using that by (simp add: go_mod_nonneg)
    moreover have "weighted_walk s 0 ?ws \<noteq> None"
      using weighted_walk_hits[of s ?ws] tot that assms(5) by force
    ultimately show ?thesis using tot assms(5) by (auto simp: SelectABPromptVersion_def Let_def split: option.splits)
  qed
  then have "{seed. 0 \<le> seed \<and> seed < ?S \<and> fst (SelectABPromptVersion test seed) = v} =
      {r. 0 \<le> r \<and> r < 0 + ?S \<and> weighted_walk r 0 ?ws = Some v}" by auto
  moreover have "filter (\<lambda>(y, w). y = v) ?ws = [(v, w)]" using assms(1,2) by (rule filter_key)
  ultimately show ?thesis
    using weighted_walk_count[of 0 ?ws v] assms(3,4) by simp
qed

theorem ab_version_share_witness:
  "int (card {seed. 0 \<le> seed \<and> seed < sum_list (map snd [(''a'', 1), (''b'', 3)]) \<and>
     fst (SelectABPromptVersion \<lparr>PromptName = ''p'', ab_Versions = [], ab_Weights = [(''a'', 1), (''b'', 3)]\<rparr> seed) = ''b''}) = 3"
  using ab_version_share[of "\<lparr>PromptName = ''p'', ab_Versions = [], ab_Weights = [(''a'', 1), (''b'', 3)]\<rparr>" "''b''" 3]
  by (simp add: keys_distinct_def int64_ok_def)

end
