(* ===== verification/Gateway.thy ===== *)
theory Gateway
  imports Rate_Limit Backpressure Circuit_Breaker Balancer Canary Upstream Jwt Policy Metrics AI
begin

text \<open>
  The state of the gateway, \<^verbatim>\<open>GatewayHandler\<close> of pkg/proxy/handler.go, and the operations that
  configure it: \<^verbatim>\<open>NewGatewayHandler\<close>, \<^verbatim>\<open>UpdateRoutes\<close>, \<^verbatim>\<open>RegisterRoute\<close>,
  \<^verbatim>\<open>SetAPIKeys\<close>, \<^verbatim>\<open>EnableCacheOnRoute\<close>, \<^verbatim>\<open>InvalidateCache\<close>, \<^verbatim>\<open>UpdatePolicySchema\<close>,
  \<^verbatim>\<open>Close\<close>. Each runs under the handler's locks and is one step. A panic in the middle leaves
  the state as it is at that point, so these operations return the panic beside the state.
\<close>

section \<open>State\<close>

record mtls_transport =
  tr_cert :: "(string \<times> string) option"
  tr_rootCA :: "string option"

record GatewayHandler =
  routes :: "Route list"
  authToken :: string
  ratLimiters :: rate_limiters
  balancing :: balancer
  semanticCaches :: "string \<rightharpoonup> SemanticCache"
  accessLoggers :: "(string \<times> string) list"
  responseCaches :: "(string \<times> ResponseCache) list"
  metricsTracker :: MetricsTracker
  transports :: "string \<rightharpoonup> mtls_transport"
  limiters :: "string \<rightharpoonup> BackpressureLimiter"
  apiKeys :: "string \<rightharpoonup> APIKey"
  redisEnabled :: bool
  session :: sessions
  canaryStats :: canary_stats
  policySchema :: "PolicySchema option"
  tenantPolicies :: "(string \<times> TenantPolicy) list"
  circuitBreakers :: "string \<rightharpoonup> CircuitBreaker"

text \<open>
  What setting up a route asks of the system: whether a log file can be opened, a key pair
  loaded, a CA file read, the Redis address parsed.
\<close>

record setup_env =
  can_open_log :: "string \<Rightarrow> bool"
  can_load_pair :: "string \<Rightarrow> string \<Rightarrow> bool"
  can_read_ca :: "string \<Rightarrow> bool"
  redis_url_ok :: "string \<Rightarrow> bool"
  setup_getenv :: "string \<Rightarrow> string"

definition createMTLSTransport :: "setup_env \<Rightarrow> string \<Rightarrow> string \<Rightarrow> string \<Rightarrow> mtls_transport option" where
  "createMTLSTransport env clientCertPath clientKeyPath rootCAPath =
     (let pair = clientCertPath \<noteq> [] \<and> clientKeyPath \<noteq> [] in
      if pair \<and> \<not> can_load_pair env clientCertPath clientKeyPath then None
      else if rootCAPath \<noteq> [] \<and> \<not> can_read_ca env rootCAPath then None
      else Some \<lparr>tr_cert = (if pair then Some (clientCertPath, clientKeyPath) else None),
                 tr_rootCA = (if rootCAPath \<noteq> [] then Some rootCAPath else None)\<rparr>)"

definition log_path :: "Route \<Rightarrow> string" where
  "log_path route = (if AccessLogPath route = [] then ''./logs/access.jsonl'' else AccessLogPath route)"

definition route_cache :: "Route \<Rightarrow> ResponseCache" where
  "route_cache route = NewResponseCache (wrap64 (CacheTTLSeconds route * time_Second))"

section \<open>Per-route resources\<close>

text \<open>
  The five blocks of the loop bodies. \<open>fresh\<close> is the test of the two update operations that the
  map has no entry yet; \<^verbatim>\<open>NewGatewayHandler\<close> stores without the test.
\<close>

definition setup_semantic :: "bool \<Rightarrow> Route \<Rightarrow> GatewayHandler \<Rightarrow> GatewayHandler" where
  "setup_semantic always route h =
     (if UseSemanticCache route \<and> (always \<or> semanticCaches h (Prefix route) = None)
      then h\<lparr>semanticCaches := (semanticCaches h)(Prefix route \<mapsto> NewSemanticCache (f64_round (85 / 100)))\<rparr> else h)"

definition setup_logger :: "setup_env \<Rightarrow> bool \<Rightarrow> Route \<Rightarrow> GatewayHandler \<Rightarrow> GatewayHandler" where
  "setup_logger env always route h =
     (if AccessLog route \<and> (always \<or> map_of (accessLoggers h) (Prefix route) = None) \<and> can_open_log env (log_path route)
      then h\<lparr>accessLoggers := AList.update (Prefix route) (log_path route) (accessLoggers h)\<rparr> else h)"

definition setup_cache :: "bool \<Rightarrow> Route \<Rightarrow> GatewayHandler \<Rightarrow> GatewayHandler" where
  "setup_cache always route h =
     (if 0 < CacheTTLSeconds route \<and> (always \<or> map_of (responseCaches h) (Prefix route) = None)
      then h\<lparr>responseCaches := AList.update (Prefix route) (route_cache route) (responseCaches h)\<rparr> else h)"

definition setup_transport :: "setup_env \<Rightarrow> bool \<Rightarrow> Route \<Rightarrow> GatewayHandler \<Rightarrow> GatewayHandler" where
  "setup_transport env always route h =
     (if (ClientCertPath route \<noteq> [] \<or> RootCAPath route \<noteq> []) \<and> (always \<or> transports h (Prefix route) = None)
      then (case createMTLSTransport env (ClientCertPath route) (ClientKeyPath route) (RootCAPath route) of
              None \<Rightarrow> h
            | Some tr \<Rightarrow> h\<lparr>transports := (transports h)(Prefix route \<mapsto> tr)\<rparr>)
      else h)"

definition setup_limiter :: "bool \<Rightarrow> Route \<Rightarrow> GatewayHandler \<Rightarrow> go_panic option \<times> GatewayHandler" where
  "setup_limiter always route h =
     (if 0 < MaxConcurrentRequests route \<and> (always \<or> limiters h (Prefix route) = None)
      then (case NewBackpressureLimiter (MaxConcurrentRequests route) (MaxQueueSize route) (QueueTimeoutMs route) of
              Inl p \<Rightarrow> (Some p, h)
            | Inr None \<Rightarrow> (None, h)
            | Inr (Some l) \<Rightarrow> (None, h\<lparr>limiters := (limiters h)(Prefix route \<mapsto> l)\<rparr>))
      else (None, h))"

definition setup_route :: "setup_env \<Rightarrow> bool \<Rightarrow> Route \<Rightarrow> GatewayHandler \<Rightarrow> go_panic option \<times> GatewayHandler" where
  "setup_route env always route h =
     setup_limiter always route (setup_transport env always route
       (if always then setup_cache always route (setup_logger env always route (setup_semantic always route h))
        else setup_logger env always route (setup_cache always route (setup_semantic always route h))))"

fun setup_routes :: "setup_env \<Rightarrow> bool \<Rightarrow> Route list \<Rightarrow> GatewayHandler \<Rightarrow> go_panic option \<times> GatewayHandler" where
  "setup_routes env always [] h = (None, h)"
| "setup_routes env always (r # rs) h = (case setup_route env always r h of
     (Some p, h') \<Rightarrow> (Some p, h')
   | (None, h') \<Rightarrow> setup_routes env always rs h')"

section \<open>Operations\<close>

definition empty_handler :: "Route list \<Rightarrow> string \<Rightarrow> bool \<Rightarrow> GatewayHandler" where
  "empty_handler rs tok redis =
     \<lparr>routes = rs, authToken = tok, ratLimiters = Map.empty,
      balancing = \<lparr>rrIndices = Map.empty, activeConns = Map.empty, targetLoad = Map.empty\<rparr>,
      semanticCaches = Map.empty, accessLoggers = [], responseCaches = [], metricsTracker = new_tracker,
      transports = Map.empty, limiters = Map.empty, apiKeys = Map.empty, redisEnabled = redis,
      session = \<lparr>revokedSessions = Map.empty, policyVersion = 0\<rparr>, canaryStats = Map.empty, policySchema = None,
      tenantPolicies = [], circuitBreakers = Map.empty\<rparr>"

definition NewGatewayHandler :: "setup_env \<Rightarrow> Route list \<Rightarrow> string \<Rightarrow> go_panic + GatewayHandler" where
  "NewGatewayHandler env rs tok =
     (let redisURL = setup_getenv env ''SERV_GATE_LIMITS_REDIS_URL'' in
      case setup_routes env True rs (empty_handler rs tok (redisURL \<noteq> [] \<and> redis_url_ok env redisURL)) of
        (Some p, _) \<Rightarrow> Inl p
      | (None, h) \<Rightarrow> Inr h)"

definition SetAPIKeys :: "APIKey list \<Rightarrow> GatewayHandler \<Rightarrow> GatewayHandler" where
  "SetAPIKeys keys h = h\<lparr>apiKeys := fold (\<lambda>k m. m(ak_Key k \<mapsto> k)) keys Map.empty\<rparr>"

definition UpdateRoutes :: "setup_env \<Rightarrow> Route list \<Rightarrow> GatewayHandler \<Rightarrow> go_panic option \<times> GatewayHandler" where
  "UpdateRoutes env newRoutes h = setup_routes env False newRoutes (h\<lparr>routes := newRoutes\<rparr>)"

fun upsert_route :: "Route \<Rightarrow> Route list \<Rightarrow> Route list" where
  "upsert_route route [] = [route]"
| "upsert_route route (r # rs) = (if Prefix r = Prefix route then route # rs else r # upsert_route route rs)"

definition RegisterRoute :: "setup_env \<Rightarrow> Route \<Rightarrow> GatewayHandler \<Rightarrow> go_panic option \<times> GatewayHandler" where
  "RegisterRoute env route h = setup_route env False route (h\<lparr>routes := upsert_route route (routes h)\<rparr>)"

definition EnableCacheOnRoute :: "string \<Rightarrow> int \<Rightarrow> GatewayHandler \<Rightarrow> GatewayHandler" where
  "EnableCacheOnRoute pfx ttlSeconds h =
     h\<lparr>routes := map (\<lambda>r. if Prefix r = pfx then r\<lparr>CacheTTLSeconds := ttlSeconds, CacheMethods := [''GET'', ''POST'']\<rparr> else r) (routes h),
       responseCaches := (if (\<exists>r\<in>set (routes h). Prefix r = pfx) \<and> map_of (responseCaches h) pfx = None
          then AList.update pfx (NewResponseCache (wrap64 (ttlSeconds * time_Second))) (responseCaches h)
          else responseCaches h)\<rparr>"

definition UpdatePolicySchema :: "PolicySchema option \<Rightarrow> GatewayHandler \<Rightarrow> GatewayHandler" where
  "UpdatePolicySchema schema h = h\<lparr>policySchema := schema\<rparr>"

text \<open>
  \<^verbatim>\<open>InvalidateCache\<close>: the cache of the named route, or else every cache of a route whose prefix
  starts with the given one is cleared.
\<close>

fun invalidate_all :: "string \<Rightarrow> (string \<times> ResponseCache) list \<Rightarrow> int \<times> (string \<times> ResponseCache) list" where
  "invalidate_all routePrefix [] = (0, [])"
| "invalidate_all routePrefix ((rp, cache) # cs) =
     (let (n, cs') = invalidate_all routePrefix cs in
      if HasPrefix rp routePrefix \<or> routePrefix = []
      then (let (k, cache') = Invalidate [] cache in (k + n, (rp, cache') # cs'))
      else (n, (rp, cache) # cs'))"

definition InvalidateCache :: "string \<Rightarrow> string \<Rightarrow> GatewayHandler \<Rightarrow> int \<times> GatewayHandler" where
  "InvalidateCache routePrefix keyPrefix h = (case map_of (responseCaches h) routePrefix of
     Some cache \<Rightarrow> (let (n, cache') = Invalidate keyPrefix cache
                   in (n, h\<lparr>responseCaches := AList.update routePrefix cache' (responseCaches h)\<rparr>))
   | None \<Rightarrow> (let (n, cs) = invalidate_all routePrefix (responseCaches h) in (n, h\<lparr>responseCaches := cs\<rparr>)))"

fun stop_all :: "(string \<times> ResponseCache) list \<Rightarrow> go_panic + (string \<times> ResponseCache) list" where
  "stop_all [] = Inr []"
| "stop_all ((rp, cache) # cs) = (case Stop cache of
     Inl p \<Rightarrow> Inl p
   | Inr cache' \<Rightarrow> (case stop_all cs of Inl p \<Rightarrow> Inl p | Inr cs' \<Rightarrow> Inr ((rp, cache') # cs')))"

definition Close :: "GatewayHandler \<Rightarrow> go_panic + GatewayHandler" where
  "Close h = (case stop_all (responseCaches h) of Inl p \<Rightarrow> Inl p | Inr cs \<Rightarrow> Inr (h\<lparr>responseCaches := cs\<rparr>))"

section \<open>Invariants\<close>

text \<open>
  Every route that asks for a response cache or a concurrency limit has one; caches and loggers
  have one entry per prefix.
\<close>

definition route_ready :: "GatewayHandler \<Rightarrow> Route \<Rightarrow> bool" where
  "route_ready h r \<longleftrightarrow>
     (0 < CacheTTLSeconds r \<longrightarrow> map_of (responseCaches h) (Prefix r) \<noteq> None) \<and>
     (0 < MaxConcurrentRequests r \<longrightarrow> limiters h (Prefix r) \<noteq> None)"

definition handler_inv :: "GatewayHandler \<Rightarrow> bool" where
  "handler_inv h \<longleftrightarrow> keys_distinct (responseCaches h) \<and> keys_distinct (accessLoggers h) \<and>
     (\<forall>(p, c)\<in>set (responseCaches h). cache_inv c) \<and> (\<forall>r\<in>set (routes h). route_ready h r)"

definition caches_ok :: "GatewayHandler \<Rightarrow> bool" where
  "caches_ok h \<longleftrightarrow> keys_distinct (responseCaches h) \<and> keys_distinct (accessLoggers h) \<and>
     (\<forall>(p, c)\<in>set (responseCaches h). cache_inv c)"

lemma handler_inv_split: "handler_inv h \<longleftrightarrow> caches_ok h \<and> (\<forall>r\<in>set (routes h). route_ready h r)"
  by (auto simp: handler_inv_def caches_ok_def)

text \<open>Later set-ups never take a resource away.\<close>

definition grows :: "GatewayHandler \<Rightarrow> GatewayHandler \<Rightarrow> bool" where
  "grows h h' \<longleftrightarrow> routes h' = routes h \<and> dom (map_of (responseCaches h)) \<subseteq> dom (map_of (responseCaches h')) \<and>
     dom (limiters h) \<subseteq> dom (limiters h') \<and> (caches_ok h \<longrightarrow> caches_ok h')"

lemma grows_refl [simp]: "grows h h" by (simp add: grows_def)

lemma grows_trans: "grows h h' \<Longrightarrow> grows h' h'' \<Longrightarrow> grows h h''"
  unfolding grows_def by (intro conjI) (simp, blast, blast, blast)

lemma grows_ready: "grows h h' \<Longrightarrow> route_ready h r \<Longrightarrow> route_ready h' r"
  by (auto simp: grows_def route_ready_def)

lemma caches_ok_update:
  assumes "caches_ok h" "cache_inv c"
  shows "caches_ok (h\<lparr>responseCaches := AList.update p c (responseCaches h)\<rparr>)"
  using assms set_update_subset[of p c "responseCaches h"] by (auto simp: caches_ok_def)

lemmas setup_defs = setup_semantic_def setup_logger_def setup_transport_def

lemma grows_simple:
  "grows h (setup_semantic a r h)" "grows h (setup_logger env a r h)" "grows h (setup_transport env a r h)"
  by (auto simp: setup_defs grows_def caches_ok_def split: option.splits)

lemma grows_cache: "grows h (setup_cache a r h)"
  using caches_ok_update[of h "route_cache r" "Prefix r"]
  by (auto simp: setup_cache_def grows_def route_cache_def dom_def update_conv)

lemma grows_limiter: "setup_limiter a r h = (p, h') \<Longrightarrow> grows h h'"
  by (auto simp: setup_limiter_def grows_def caches_ok_def split: if_splits sum.splits option.splits)

lemma grows_setup: "setup_route env a r h = (p, h') \<Longrightarrow> grows h h'"
  unfolding setup_route_def
  by (cases a) (auto dest!: grows_limiter intro: grows_trans[OF grows_trans[OF grows_trans[OF grows_trans]]] grows_simple grows_cache)

lemma setup_frame [simp]:
  "limiters (setup_semantic a r h) = limiters h" "responseCaches (setup_semantic a r h) = responseCaches h"
  "limiters (setup_logger env a r h) = limiters h" "responseCaches (setup_logger env a r h) = responseCaches h"
  "limiters (setup_transport env a r h) = limiters h" "responseCaches (setup_transport env a r h) = responseCaches h"
  "limiters (setup_cache a r h) = limiters h"
  by (auto simp: setup_defs setup_cache_def split: option.splits)

text \<open>Without the \<open>always\<close> flag an existing limiter and an existing cache are kept.\<close>

lemma setup_route_keeps:
  assumes "limiters h (Prefix r) = Some l" "map_of (responseCaches h) (Prefix r) = Some c"
  shows "limiters (snd (setup_route env False r h)) (Prefix r) = Some l"
    "map_of (responseCaches (snd (setup_route env False r h))) (Prefix r) = Some c"
proof -
  have "setup_cache False r h' = h'" if "responseCaches h' = responseCaches h" for h'
    using assms(2) that by (simp add: setup_cache_def)
  moreover have "setup_limiter False r h' = (None, h')" if "limiters h' = limiters h" for h'
    using assms(1) that by (simp add: setup_limiter_def)
  ultimately show "limiters (snd (setup_route env False r h)) (Prefix r) = Some l"
    "map_of (responseCaches (snd (setup_route env False r h))) (Prefix r) = Some c"
    using assms by (simp_all add: setup_route_def)
qed

lemma has_cache: "0 < CacheTTLSeconds r \<Longrightarrow> Prefix r \<in> dom (map_of (responseCaches (setup_cache a r h)))"
  by (auto simp: setup_cache_def update_conv)

lemma has_limiter: "setup_limiter a r h = (None, h') \<Longrightarrow> 0 < MaxConcurrentRequests r \<Longrightarrow> Prefix r \<in> dom (limiters h')"
  by (auto simp: setup_limiter_def NewBackpressureLimiter_def Let_def split: if_splits sum.splits option.splits)

lemma setup_route_ready:
  assumes "setup_route env a r h = (None, h')"
  shows "route_ready h' r"
proof -
  obtain h1 where l: "setup_limiter a r (setup_transport env a r h1) = (None, h')"
    and c: "0 < CacheTTLSeconds r \<longrightarrow> Prefix r \<in> dom (map_of (responseCaches h1))"
  proof (cases a)
    case True
    with assms that[of "setup_cache a r (setup_logger env a r (setup_semantic a r h))"] has_cache show thesis
      by (simp add: setup_route_def)
  next
    case False
    have "grows (setup_cache a r (setup_semantic a r h)) (setup_logger env a r (setup_cache a r (setup_semantic a r h)))"
      by (rule grows_simple)
    with False assms that[of "setup_logger env a r (setup_cache a r (setup_semantic a r h))"] has_cache show thesis
      by (simp add: setup_route_def grows_def)
  qed
  have "grows h1 h'" using grows_trans[OF grows_simple(3) grows_limiter[OF l]] .
  with c has_limiter[OF l] show ?thesis by (auto simp: route_ready_def grows_def)
qed

lemma setup_routes_ready:
  "setup_routes env a rs h = (None, h') \<Longrightarrow> grows h h' \<and> (\<forall>r\<in>set rs. route_ready h' r)"
proof (induction rs arbitrary: h)
  case (Cons r rs)
  then obtain h1 where s: "setup_route env a r h = (None, h1)" and t: "setup_routes env a rs h1 = (None, h')"
    by (auto split: prod.splits option.splits)
  from Cons.IH[OF t] have g: "grows h1 h'" "\<forall>r\<in>set rs. route_ready h' r" by auto
  show ?case using grows_trans[OF grows_setup[OF s] g(1)] grows_ready[OF g(1) setup_route_ready[OF s]] g(2) by simp
qed simp

lemma upsert_set: "set (upsert_route route rs) \<subseteq> insert route (set rs)"
  by (induction rs) auto

lemma upsert_prefixes:
  "map Prefix (upsert_route route rs) = (if Prefix route \<in> Prefix ` set rs then map Prefix rs else map Prefix rs @ [Prefix route])"
  by (induction rs) auto

lemma upsert_lookup:
  "find (\<lambda>r. Prefix r = p) (upsert_route route rs) = (if p = Prefix route then Some route else find (\<lambda>r. Prefix r = p) rs)"
  by (induction rs) auto

lemma caches_ok_empty: "caches_ok (empty_handler rs tok redis)"
  by (simp add: caches_ok_def empty_handler_def)

section \<open>Properties\<close>

datatype route_op = Reg Route | Upd "Route list" | Ena string int

fun apply_op :: "setup_env \<Rightarrow> route_op \<Rightarrow> GatewayHandler \<Rightarrow> go_panic option \<times> GatewayHandler" where
  "apply_op env (Reg r) h = RegisterRoute env r h"
| "apply_op env (Upd rs) h = UpdateRoutes env rs h"
| "apply_op env (Ena p t) h = (None, EnableCacheOnRoute p t h)"

fun apply_ops :: "setup_env \<Rightarrow> route_op list \<Rightarrow> GatewayHandler \<Rightarrow> go_panic option \<times> GatewayHandler" where
  "apply_ops env [] h = (None, h)"
| "apply_ops env (op # ops) h = (case apply_op env op h of (Some p, h') \<Rightarrow> (Some p, h') | (None, h') \<Rightarrow> apply_ops env ops h')"

lemma handler_inv_register:
  assumes "handler_inv h" "RegisterRoute env r h = (None, h')"
  shows "handler_inv h'"
proof -
  let ?h = "h\<lparr>routes := upsert_route r (routes h)\<rparr>"
  from assms(2) have s: "setup_route env False r ?h = (None, h')" by (simp add: RegisterRoute_def)
  from grows_setup[OF s] have g: "grows ?h h'" .
  have c: "caches_ok ?h" using assms(1) by (simp add: handler_inv_split caches_ok_def)
  have "route_ready h' q" if "q \<in> set (routes h)" for q
    using that assms(1) grows_ready[OF g, of q] by (auto simp: handler_inv_split route_ready_def)
  then show ?thesis
    using g c setup_route_ready[OF s] upsert_set[of r "routes h"] by (auto simp: handler_inv_split grows_def)
qed

lemma handler_inv_update:
  assumes "handler_inv h" "UpdateRoutes env rs h = (None, h')"
  shows "handler_inv h'"
proof -
  from setup_routes_ready[OF assms(2)[unfolded UpdateRoutes_def]] have g: "grows (h\<lparr>routes := rs\<rparr>) h'" "\<forall>r\<in>set rs. route_ready h' r"
    by auto
  moreover have "caches_ok (h\<lparr>routes := rs\<rparr>)" using assms(1) by (simp add: handler_inv_split caches_ok_def)
  ultimately show ?thesis by (simp add: handler_inv_split grows_def)
qed

lemma handler_inv_enable:
  assumes "handler_inv h" shows "handler_inv (EnableCacheOnRoute p t h)"
proof -
  let ?h = "EnableCacheOnRoute p t h"
  have c: "caches_ok ?h"
    using assms caches_ok_update[of h "NewResponseCache (wrap64 (t * time_Second))" p]
    by (auto simp: handler_inv_split EnableCacheOnRoute_def caches_ok_def)
  have d: "dom (map_of (responseCaches h)) \<subseteq> dom (map_of (responseCaches ?h))"
    by (auto simp: EnableCacheOnRoute_def update_conv)
  have e: "p \<in> dom (map_of (responseCaches ?h))" if "r \<in> set (routes h)" "Prefix r = p" for r
    using that by (auto simp: EnableCacheOnRoute_def update_conv)
  have "route_ready ?h (if Prefix r = p then r\<lparr>CacheTTLSeconds := t, CacheMethods := [''GET'', ''POST'']\<rparr> else r)"
    if "r \<in> set (routes h)" for r
  proof -
    have "limiters ?h = limiters h" by (simp add: EnableCacheOnRoute_def)
    moreover have "route_ready h r" using assms that by (simp add: handler_inv_split)
    ultimately show ?thesis using d e[OF that] by (auto simp: route_ready_def simp del: bex_simps)
  qed
  moreover have "routes ?h = map (\<lambda>r. if Prefix r = p then r\<lparr>CacheTTLSeconds := t, CacheMethods := [''GET'', ''POST'']\<rparr> else r) (routes h)"
    by (simp add: EnableCacheOnRoute_def)
  ultimately have "\<forall>q\<in>set (routes ?h). route_ready ?h q" by (simp only: set_map ball_simps) blast
  with c show ?thesis by (simp add: handler_inv_split)
qed

text \<open>C34: after any sequence of route registrations and wholesale updates that ran without a panic, from
  the handler that \<^verbatim>\<open>NewGatewayHandler\<close> builds, every route that asks for a response cache or
  for a concurrency limit has one, and caches and loggers have one entry per prefix.\<close>

theorem route_resources_ready:
  assumes "NewGatewayHandler env rs tok = Inr h" and "apply_ops env ops h = (None, h')"
  shows "handler_inv h'"
proof -
  from assms(1) obtain b where s: "setup_routes env True rs (empty_handler rs tok b) = (None, h)"
    by (auto simp: NewGatewayHandler_def Let_def split: prod.splits option.splits)
  from setup_routes_ready[OF s] caches_ok_empty have "handler_inv h"
    by (auto simp: handler_inv_split grows_def empty_handler_def)
  with assms(2) show ?thesis
  proof (induction ops arbitrary: h)
    case (Cons op ops)
    then obtain h1 where o: "apply_op env op h = (None, h1)" and r: "apply_ops env ops h1 = (None, h')"
      by (auto split: prod.splits option.splits)
    have "handler_inv h1" using o Cons.prems(2)
      by (cases op) (auto intro: handler_inv_register handler_inv_update handler_inv_enable)
    with Cons.IH r show ?case by blast
  qed simp
qed

definition plain_setup :: setup_env where
  "plain_setup = \<lparr>can_open_log = (\<lambda>_. True), can_load_pair = (\<lambda>_ _. True), can_read_ca = (\<lambda>_. True),
     redis_url_ok = (\<lambda>_. False), setup_getenv = (\<lambda>_. [])\<rparr>"

definition limited_route :: "int \<Rightarrow> Route" where
  "limited_route n = zero_route\<lparr>Prefix := ''/a'', MaxConcurrentRequests := n\<rparr>"

lemmas route_op_defs = RegisterRoute_def UpdateRoutes_def setup_route_def setup_defs setup_cache_def setup_limiter_def
  NewBackpressureLimiter_def NewGatewayHandler_def empty_handler_def

theorem route_resources_ready_witness:
  "\<exists>h h'. NewGatewayHandler plain_setup [] ''t'' = Inr h \<and> apply_ops plain_setup [Reg (limited_route 5), Ena ''/a'' 60] h = (None, h') \<and> handler_inv h'"
proof -
  obtain h where h: "NewGatewayHandler plain_setup [] ''t'' = Inr h" by (simp add: NewGatewayHandler_def Let_def)
  obtain h' where h': "apply_ops plain_setup [Reg (limited_route 5), Ena ''/a'' 60] h = (None, h')"
    using h by (auto simp: route_op_defs limited_route_def Let_def)
  from route_resources_ready[OF h h'] h h' show ?thesis by blast
qed

text \<open>Registering a route is an upsert by prefix: it is found under its prefix afterwards, every
  other prefix keeps its route and its position, and prefixes stay unique.\<close>

theorem register_route_upsert:
  assumes "RegisterRoute env r h = (p, h')"
  shows "find (\<lambda>q. Prefix q = Prefix r) (routes h') = Some r \<and>
    (\<forall>x. x \<noteq> Prefix r \<longrightarrow> find (\<lambda>q. Prefix q = x) (routes h') = find (\<lambda>q. Prefix q = x) (routes h)) \<and>
    (distinct (map Prefix (routes h)) \<longrightarrow> distinct (map Prefix (routes h'))) \<and>
    (Prefix r \<in> Prefix ` set (routes h) \<longrightarrow> map Prefix (routes h') = map Prefix (routes h))"
proof -
  from assms grows_setup have "routes h' = upsert_route r (routes h)" by (fastforce simp: RegisterRoute_def grows_def)
  then show ?thesis by (simp add: upsert_lookup upsert_prefixes)
qed

theorem register_route_upsert_witness:
  "find (\<lambda>q. Prefix q = ''/a'') (routes (snd (RegisterRoute plain_setup (limited_route 5) (empty_handler [limited_route 1] [] False)))) = Some (limited_route 5)"
  using register_route_upsert[of plain_setup "limited_route 5" "empty_handler [limited_route 1] [] False", OF prod.collapse[symmetric]]
  by (simp add: limited_route_def)

text \<open>Changing a route's limits at run time has no effect on a limiter or a cache that exists: a
  registration or an update for the same prefix keeps the old concurrency limiter and the old
  time to live, also when the new route asks for none.\<close>

theorem update_keeps_old_limits:
  assumes "limiters h (Prefix r) = Some l" and "map_of (responseCaches h) (Prefix r) = Some c"
  shows "limiters (snd (RegisterRoute env r h)) (Prefix r) = Some l \<and>
    map_of (responseCaches (snd (RegisterRoute env r h))) (Prefix r) = Some c \<and>
    limiters (snd (UpdateRoutes env [r] h)) (Prefix r) = Some l \<and>
    map_of (responseCaches (snd (UpdateRoutes env [r] h))) (Prefix r) = Some c"
proof -
  have "snd (setup_routes env False [r] h') = snd (setup_route env False r h')" for h'
    by (auto split: prod.splits option.splits)
  with assms show ?thesis
    using setup_route_keeps[of "h\<lparr>routes := upsert_route r (routes h)\<rparr>" r l c env] setup_route_keeps[of "h\<lparr>routes := [r]\<rparr>" r l c env]
    by (simp add: RegisterRoute_def UpdateRoutes_def del: setup_routes.simps)
qed

theorem update_keeps_old_limits_witness:
  "\<exists>l. sem_cap l = 1 \<and> limiters (snd (RegisterRoute plain_setup (limited_route 5)
     ((empty_handler [] [] False)\<lparr>limiters := [''/a'' \<mapsto> l], responseCaches := [(''/a'', NewResponseCache 1)]\<rparr>))) ''/a'' = Some l"
  using update_keeps_old_limits[of "(empty_handler [] [] False)\<lparr>limiters := [''/a'' \<mapsto> \<lparr>sem_cap = 1, sem_len = 0, queue_cap = 0, queue_len = 0, bp_timeout = 0\<rparr>],
       responseCaches := [(''/a'', NewResponseCache 1)]\<rparr>" "limited_route 5" "\<lparr>sem_cap = 1, sem_len = 0, queue_cap = 0, queue_len = 0, bp_timeout = 0\<rparr>" "NewResponseCache 1" plain_setup]
  by (intro exI[of _ "\<lparr>sem_cap = 1, sem_len = 0, queue_cap = 0, queue_len = 0, bp_timeout = 0\<rparr>"]) (simp add: limited_route_def)

end
