(* ===== verification/Framing.thy ===== *)
theory Framing
  imports Http Base64 "HOL-Library.Word"
begin

text \<open>
  The two binary framings the gateway writes by hand: the five-byte gRPC message prefix of the
  REST/gRPC transpiling in handler.go (\<^verbatim>\<open>ServeHTTP\<close>), and the WebSocket text frames and
  handshake of pkg/proxy/websocket.go.
\<close>

section \<open>gRPC messages\<close>

definition byte_at :: "nat \<Rightarrow> nat \<Rightarrow> char" where
  "byte_at i n = byte (n div 256 ^ i mod 256)"

text \<open>\<^verbatim>\<open>binary.BigEndian.Uint32\<close> and \<^verbatim>\<open>PutUint32\<close>.\<close>

definition PutUint32 :: "32 word \<Rightarrow> string" where
  "PutUint32 w = [byte_at 3 (unat w), byte_at 2 (unat w), byte_at 1 (unat w), byte_at 0 (unat w)]"

definition Uint32 :: "string \<Rightarrow> 32 word" where
  "Uint32 b = word_of_nat (((byte_val (b ! 0) * 256 + byte_val (b ! 1)) * 256 + byte_val (b ! 2)) * 256 + byte_val (b ! 3))"

definition grpc_pack :: "string \<Rightarrow> string" where
  "grpc_pack bodyBytes = byte 0 # PutUint32 (word_of_nat (length bodyBytes)) @ bodyBytes"

text \<open>
  Unpacking. \<^verbatim>\<open>5+payloadLen\<close> is computed in \<^verbatim>\<open>uint32\<close> and wraps around; the slice
  \<^verbatim>\<open>bodyBytes[5 : 5+payloadLen]\<close> panics when its upper bound is below 5. \<open>Inr None\<close> means
  that the body is not a complete message and is not replaced.
\<close>

definition grpc_unpack :: "string \<Rightarrow> go_panic + string option" where
  "grpc_unpack bodyBytes =
     (if 5 \<le> length bodyBytes then
        (let payloadLen = Uint32 (take 4 (drop 1 bodyBytes)); hi = unat (5 + payloadLen) in
         if hi \<le> length bodyBytes then
           (if hi < 5 then Inl SliceBounds else Inr (Some (take (hi - 5) (drop 5 bodyBytes))))
         else Inr None)
      else Inr None)"

lemma be32_bytes:
  fixes n :: nat
  assumes "n < 4294967296"
  shows "((n div 16777216 mod 256 * 256 + n div 65536 mod 256) * 256 + n div 256 mod 256) * 256 + n mod 256 = n"
proof -
  have h: "n div 16777216 mod 256 = n div 16777216"
    using assms by (simp add: less_mult_imp_div_less)
  have d: "n div 65536 div 256 = n div 16777216" "n div 256 div 256 = n div 65536"
    by (simp_all flip: div_mult2_eq)
  have "n div 16777216 * 256 + n div 65536 mod 256 = n div 65536"
    using div_mult_mod_eq[of "n div 65536" 256] by (simp add: d)
  moreover have "n div 65536 * 256 + n div 256 mod 256 = n div 256"
    using div_mult_mod_eq[of "n div 256" 256] by (simp add: d)
  ultimately show ?thesis by (simp add: h)
qed

lemma byte_val_byte_at [simp]: "byte_val (byte_at i n) = n div 256 ^ i mod 256"
  by (simp add: byte_at_def byte_def byte_val_def)

lemma Uint32_Put [simp]: "Uint32 (PutUint32 w) = w"
proof -
  have "unat w < 4294967296" using unsigned_less[of w] by simp
  then show ?thesis
    using be32_bytes[of "unat w"] by (simp add: Uint32_def PutUint32_def)
qed

lemma length_PutUint32 [simp]: "length (PutUint32 w) = 4"
  by (simp add: PutUint32_def)

lemma uint32_plus5: "unat (5 + w :: 32 word) = (if 4294967291 \<le> unat w then unat w - 4294967291 else 5 + unat w)"
proof -
  have w: "unat w < 4294967296" using unsigned_less[of w] by simp
  have "unat (5 + w) = (5 + unat w) mod 4294967296" by (simp add: unat_word_ariths)
  also have "\<dots> = (if 4294967291 \<le> unat w then unat w - 4294967291 else 5 + unat w)"
    using w by (auto simp: mod_if)
  finally show ?thesis .
qed

lemma uint32_wraps: "unat (5 + w :: 32 word) < 5 \<longleftrightarrow> 4294967291 \<le> unat w"
proof -
  have "unat w < 4294967296" using unsigned_less[of w] by simp
  then show ?thesis by (auto simp: uint32_plus5)
qed

section \<open>WebSocket frames\<close>

definition length_bytes :: "nat \<Rightarrow> nat \<Rightarrow> string" where
  "length_bytes k n = map (\<lambda>i. byte_at i n) (rev [0..<k])"

definition WriteWebSocketTextFrame :: "string \<Rightarrow> string" where
  "WriteWebSocketTextFrame text =
     (let len = length text;
          header = [byte 0x81] @
            (if len < 126 then [byte len]
             else if len < 65536 then [byte 126, byte_at 1 len, byte_at 0 len]
             else byte 127 # length_bytes 8 len)
      in header @ text)"

text \<open>A receiver of unmasked text frames as RFC 6455 section 5.2 lays them out.\<close>

definition be_value :: "string \<Rightarrow> nat" where
  "be_value bs = foldl (\<lambda>n c. n * 256 + byte_val c) 0 bs"

definition ws_length :: "string \<Rightarrow> (nat \<times> string) option" where
  "ws_length bs = (case bs of [] \<Rightarrow> None
     | l # rest \<Rightarrow> (let n = byte_val l in
         if n < 126 then Some (n, rest)
         else if n = 126 then (if length rest < 2 then None else Some (be_value (take 2 rest), drop 2 rest))
         else if n = 127 then (if length rest < 8 then None else Some (be_value (take 8 rest), drop 8 rest))
         else None))"

definition ws_receive :: "string \<Rightarrow> (string \<times> string) option" where
  "ws_receive bs = (case bs of [] \<Rightarrow> None
     | op # rest \<Rightarrow> if op \<noteq> byte 0x81 then None
         else (case ws_length rest of None \<Rightarrow> None
           | Some (n, rest') \<Rightarrow> if length rest' < n then None else Some (take n rest', drop n rest')))"

fun ws_receive_all :: "nat \<Rightarrow> string \<Rightarrow> string list option" where
  "ws_receive_all fuel [] = Some []"
| "ws_receive_all 0 (b # bs) = None"
| "ws_receive_all (Suc fuel) (b # bs) = (case ws_receive (b # bs) of
     None \<Rightarrow> None
   | Some (msg, rest) \<Rightarrow> map_option (Cons msg) (ws_receive_all fuel rest))"

lemma be_value_length_bytes: "be_value (length_bytes k n) = n mod 256 ^ k"
proof (induction k arbitrary: n)
  case (Suc k)
  have "be_value (c # bs) = byte_val c * 256 ^ length bs + be_value bs" for c bs
  proof -
    have "foldl (\<lambda>n c. n * 256 + byte_val c) a bs = a * 256 ^ length bs + foldl (\<lambda>n c. n * 256 + byte_val c) 0 bs" for a
    proof (induction bs arbitrary: a)
      case (Cons b bs)
      show ?case using Cons.IH[of "a * 256 + byte_val b"] Cons.IH[of "byte_val b"] by (simp add: algebra_simps)
    qed simp
    from this[of "byte_val c"] show ?thesis by (simp add: be_value_def)
  qed
  moreover have "length_bytes (Suc k) n = byte_at k n # length_bytes k n" by (simp add: length_bytes_def)
  moreover have "length (length_bytes k n) = k" by (simp add: length_bytes_def)
  ultimately have "be_value (length_bytes (Suc k) n) = n div 256 ^ k mod 256 * 256 ^ k + n mod 256 ^ k"
    using Suc by simp
  also have "\<dots> = n mod 256 ^ Suc k"
    using mod_mult2_eq[of n "256 ^ k" 256] by (simp add: mult_ac add_ac)
  finally show ?case .
qed (simp add: length_bytes_def be_value_def)

lemma length_length_bytes [simp]: "length (length_bytes k n) = k"
  by (simp add: length_bytes_def)

lemma byte_val_byte: "byte_val (byte n) = n mod 256"
  by (simp add: byte_def byte_val_def)

lemma ws_receive_frame:
  assumes "length text < 2 ^ 63"
  shows "ws_receive (WriteWebSocketTextFrame text @ rest) = Some (text, rest)"
proof -
  let ?n = "length text"
  have two: "[byte_at 1 ?n, byte_at 0 ?n] = length_bytes 2 ?n" by (simp add: length_bytes_def eval_nat_numeral(3) upt_rec)
  have v2: "?n < 65536 \<Longrightarrow> be_value (length_bytes 2 ?n) = ?n" by (simp add: be_value_length_bytes)
  have v8: "be_value (length_bytes 8 ?n) = ?n" using assms by (simp add: be_value_length_bytes)
  consider "?n < 126" | "126 \<le> ?n" "?n < 65536" | "65536 \<le> ?n" by linarith
  then show ?thesis
  proof cases
    case 2
    then have "WriteWebSocketTextFrame text @ rest = byte 0x81 # byte 126 # length_bytes 2 ?n @ text @ rest"
      by (simp add: WriteWebSocketTextFrame_def Let_def flip: two)
    with 2 v2 show ?thesis by (simp add: ws_receive_def ws_length_def byte_val_byte Let_def)
  next
    case 3
    then show ?thesis using v8
      by (simp add: WriteWebSocketTextFrame_def ws_receive_def ws_length_def byte_val_byte Let_def)
  qed (simp add: WriteWebSocketTextFrame_def ws_receive_def ws_length_def byte_val_byte Let_def)
qed

section \<open>The metrics socket\<close>

text \<open>
  \<^verbatim>\<open>UpgradeToWebSocket\<close>: \<open>sha1\<close> is the digest; \<open>hijack\<close> is the outcome of taking over the
  connection (\<open>None\<close>: the server does not support it, \<open>Some False\<close>: it fails).
\<close>

datatype upgrade_error = MissingUpgrade | MissingKey | NoHijacker | HijackFailed

definition crlf :: string where "crlf = [CHR 0x0D, CHR 0x0A]"

definition UpgradeToWebSocket :: "(string \<Rightarrow> string) \<Rightarrow> bool option \<Rightarrow> request \<Rightarrow> upgrade_error + string" where
  "UpgradeToWebSocket sha1 hijack r =
     (if Header_Get (rq_Header r) ''Upgrade'' \<noteq> ''websocket'' then Inl MissingUpgrade
      else (let key = Header_Get (rq_Header r) ''Sec-WebSocket-Key'' in
        if key = [] then Inl MissingKey
        else (let accept = StdEncode (sha1 (key @ ''258EAFA5-E914-47DA-95CA-C5AB0DC85B11'')) in
          case hijack of
            None \<Rightarrow> Inl NoHijacker
          | Some False \<Rightarrow> Inl HijackFailed
          | Some True \<Rightarrow> Inr (''HTTP/1.1 101 Switching Protocols'' @ crlf @ ''Upgrade: websocket'' @ crlf @
              ''Connection: Upgrade'' @ crlf @ ''Sec-WebSocket-Accept: '' @ accept @ crlf @ crlf))))"

text \<open>
  The loop of \<^verbatim>\<open>HandleWebSocketMetrics\<close> after the handshake: the first message, then one
  message per tick until the reader goroutine reports the end of the connection or a write fails.
  A tick carries the encoded snapshot (\<open>None\<close> if encoding fails) and whether the write
  succeeds; the result is what was written to the connection.
\<close>

datatype ws_event = ConnClosed | MetricsTick "string option" bool

definition init_message :: string where
  "init_message = ''{\"status\":\"connected\",\"type\":\"connection_established\"}''"

fun metrics_loop :: "ws_event list \<Rightarrow> string" where
  "metrics_loop [] = []"
| "metrics_loop (ConnClosed # evs) = []"
| "metrics_loop (MetricsTick None _ # evs) = metrics_loop evs"
| "metrics_loop (MetricsTick (Some data) sent # evs) =
     (if sent then WriteWebSocketTextFrame data @ metrics_loop evs else [])"

definition HandleWebSocketMetrics ::
  "(string \<Rightarrow> string) \<Rightarrow> bool option \<Rightarrow> request \<Rightarrow> bool \<Rightarrow> ws_event list \<Rightarrow> upgrade_error + string" where
  "HandleWebSocketMetrics sha1 hijack r init_sent evs = (case UpgradeToWebSocket sha1 hijack r of
     Inl e \<Rightarrow> Inl e
   | Inr handshake \<Rightarrow> Inr (handshake @ (if init_sent then WriteWebSocketTextFrame init_message @ metrics_loop evs else [])))"

text \<open>The snapshots that reach the client.\<close>

fun delivered :: "ws_event list \<Rightarrow> string list" where
  "delivered [] = []"
| "delivered (ConnClosed # evs) = []"
| "delivered (MetricsTick None _ # evs) = delivered evs"
| "delivered (MetricsTick (Some data) sent # evs) = (if sent then data # delivered evs else [])"

lemma frame_Cons: "\<exists>b bs. WriteWebSocketTextFrame t = b # bs"
  by (simp add: WriteWebSocketTextFrame_def Let_def)

lemma receive_all_frames:
  "\<forall>m\<in>set msgs. length m < 2 ^ 63 \<Longrightarrow> length msgs \<le> fuel \<Longrightarrow>
   ws_receive_all fuel (concat (map WriteWebSocketTextFrame msgs)) = Some msgs"
proof (induction msgs arbitrary: fuel)
  case (Cons m msgs)
  then obtain f where f: "fuel = Suc f" by (cases fuel) auto
  obtain b bs where b: "WriteWebSocketTextFrame m = b # bs" using frame_Cons by blast
  from ws_receive_frame[of m "concat (map WriteWebSocketTextFrame msgs)"] Cons show ?case by (simp add: f b)
qed simp

lemma metrics_loop_frames: "metrics_loop evs = concat (map WriteWebSocketTextFrame (delivered evs))"
  by (induction evs rule: metrics_loop.induct) auto

section \<open>WebSocket pass-through\<close>

text \<open>
  \<^verbatim>\<open>proxyWebSocket\<close> of handler.go up to the point where the two copy goroutines start: which
  address is dialled and what is forwarded. \<open>hijack\<close> as above; \<open>dial_ok\<close> tells whether the dial
  succeeds.
\<close>

record target_url =
  u_Scheme :: string
  u_Host :: string
  u_Path :: string

datatype ws_proxy_outcome =
    HijackUnsupported
  | HijackError
  | DialFailed string
  | Tunnel string string http_header

definition ws_backend_addr :: "target_url \<Rightarrow> string" where
  "ws_backend_addr u =
     (if \<not> Contains (u_Host u) '':''
      then u_Host u @ (if u_Scheme u = ''https'' \<or> u_Scheme u = ''wss'' then '':443'' else '':80'')
      else u_Host u)"

definition proxyWebSocket ::
  "bool option \<Rightarrow> (string \<Rightarrow> bool) \<Rightarrow> (request \<Rightarrow> string) \<Rightarrow> string \<Rightarrow> request \<Rightarrow> target_url \<Rightarrow> ws_proxy_outcome" where
  "proxyWebSocket hijack dial_ok RequestURI Proto r targetURL = (case hijack of
     None \<Rightarrow> HijackUnsupported
   | Some False \<Rightarrow> HijackError
   | Some True \<Rightarrow>
       (let backendAddr = ws_backend_addr targetURL in
        if \<not> dial_ok backendAddr then DialFailed backendAddr
        else Tunnel backendAddr (rq_Method r @ '' '' @ RequestURI r @ '' '' @ Proto @ crlf)
               (Header_Set ''Host'' (u_Host targetURL) (rq_Header r))))"

lemma ws_backend_addr_default_port:
  "CHR '':'' \<notin> set (u_Host u) \<Longrightarrow>
   ws_backend_addr u = u_Host u @ (if u_Scheme u = ''https'' \<or> u_Scheme u = ''wss'' then '':443'' else '':80'')"
  by (auto simp: ws_backend_addr_def Contains_iff)

text \<open>A host with a colon is dialled as it is, also an IPv6 address in brackets that has no port.\<close>

lemma ws_backend_addr_ipv6: "ws_backend_addr \<lparr>u_Scheme = s, u_Host = ''[::1]'', u_Path = p\<rparr> = ''[::1]''"
  by (simp add: ws_backend_addr_def HasPrefix_def)

section \<open>Properties\<close>

text \<open>C39: what unpacking makes of a packed REST body, for every body. The prefix declares the
  length of the body modulo \<open>2^32\<close>: when that number is below \<open>2^32 - 5\<close>, that many leading bytes
  of the body are unpacked, hence the whole body when it is shorter than \<open>2^32 - 5\<close> bytes; when it
  is one of the last five values the prefix can declare, \<^verbatim>\<open>5+payloadLen\<close> wraps around and
  unpacking panics.\<close>

theorem grpc_roundtrip:
  "grpc_unpack (grpc_pack b) =
     (if length b < 4294967291 then Inr (Some b)
      else if length b mod 4294967296 < 4294967291 then Inr (Some (take (length b mod 4294967296) b))
      else Inl SliceBounds)"
proof -
  let ?n = "word_of_nat (length b) :: 32 word"
  have t: "take 4 (drop 1 (grpc_pack b)) = PutUint32 ?n" by (simp add: grpc_pack_def)
  have d: "drop 5 (grpc_pack b) = b" "length (grpc_pack b) = 5 + length b" by (simp_all add: grpc_pack_def)
  have n: "unat ?n = length b mod 4294967296" by (simp add: unat_of_nat)
  have le: "length b mod 4294967296 \<le> length b" by simp
  show ?thesis
  proof (cases "length b mod 4294967296 < 4294967291")
    case True
    then have "unat (5 + ?n) = 5 + length b mod 4294967296" by (simp add: uint32_plus5 n)
    then have "grpc_unpack (grpc_pack b) = Inr (Some (take (length b mod 4294967296) b))"
      unfolding grpc_unpack_def t Uint32_Put Let_def d using le by simp
    with True show ?thesis by simp
  next
    case False
    moreover from False have "\<not> length b < 4294967291" by auto
    moreover have "unat (5 + ?n) < 5" using False by (simp add: uint32_wraps n)
    then have "grpc_unpack (grpc_pack b) = Inl SliceBounds"
      unfolding grpc_unpack_def t Uint32_Put Let_def d by simp
    ultimately show ?thesis by simp
  qed
qed

text \<open>Unpacking panics exactly on the messages of at least five bytes whose declared length is
  one of the last five values of \<^verbatim>\<open>uint32\<close>, for which \<^verbatim>\<open>5+payloadLen\<close> wraps around; five
  bytes sent by a client are enough.\<close>

theorem grpc_unpack_panics_iff:
  "grpc_unpack b = Inl SliceBounds \<longleftrightarrow> 5 \<le> length b \<and> 4294967291 \<le> unat (Uint32 (take 4 (drop 1 b)))"
  using uint32_wraps[of "Uint32 (take 4 (drop 1 b))"] by (auto simp: grpc_unpack_def Let_def split: if_splits)

text \<open>A client that reads the metrics socket frame by frame receives the greeting and then exactly
  the snapshots that were written, in order, whatever their sizes (7-, 16- and 64-bit length
  forms).\<close>

theorem metrics_stream_roundtrip:
  assumes "HandleWebSocketMetrics sha1 (Some True) r True evs = Inr out"
    and "UpgradeToWebSocket sha1 (Some True) r = Inr handshake"
    and "\<forall>m\<in>set (delivered evs). length m < 2 ^ 63" and "length (delivered evs) < fuel"
  shows "\<exists>frames. out = handshake @ frames \<and> ws_receive_all fuel frames = Some (init_message # delivered evs)"
proof -
  have "out = handshake @ concat (map WriteWebSocketTextFrame (init_message # delivered evs))"
    using assms(1,2) by (simp add: HandleWebSocketMetrics_def metrics_loop_frames)
  moreover have "length init_message < 2 ^ 63" by (simp add: init_message_def)
  with receive_all_frames[of "init_message # delivered evs" fuel] assms(3,4)
  have "ws_receive_all fuel (concat (map WriteWebSocketTextFrame (init_message # delivered evs))) = Some (init_message # delivered evs)"
    by simp
  ultimately show ?thesis by blast
qed

definition ws_request :: request where
  "ws_request = \<lparr>rq_Method = ''GET'', rq_Path = ''/ws'', rq_RawQuery = [],
     rq_Header = [(''Upgrade'', [''websocket'']), (''Sec-Websocket-Key'', [''k''])], rq_RemoteAddr = [], rq_ContentLength = 0,
     rq_Body = Plain [], rq_Host = [], rq_tenant = None, rq_redact = None\<rparr>"

lemma ws_request_upgrades:
  "\<exists>hs. UpgradeToWebSocket sha1 (Some True) ws_request = Inr hs"
proof -
  have "CanonicalHeaderKey ''Upgrade'' = ''Upgrade''" "CanonicalHeaderKey ''Sec-WebSocket-Key'' = ''Sec-Websocket-Key''"
    by (simp_all add: CanonicalHeaderKey_def is_token_char_def upper_char_def lower_char_def char_of_def bit_0)
  then show ?thesis by (simp add: UpgradeToWebSocket_def ws_request_def Header_Get_def Let_def)
qed

theorem metrics_stream_roundtrip_witness:
  "\<exists>handshake out frames. HandleWebSocketMetrics id (Some True) ws_request True
       [MetricsTick (Some ''{}'') True, MetricsTick None True, MetricsTick (Some ''[]'') True, ConnClosed] = Inr out \<and>
     out = handshake @ frames \<and> ws_receive_all 3 frames = Some [init_message, ''{}'', ''[]'']"
proof -
  let ?evs = "[MetricsTick (Some ''{}'') True, MetricsTick None True, MetricsTick (Some ''[]'') True, ConnClosed]"
  obtain hs where hs: "UpgradeToWebSocket id (Some True) ws_request = Inr hs" using ws_request_upgrades by blast
  then obtain out where out: "HandleWebSocketMetrics id (Some True) ws_request True ?evs = Inr out"
    by (simp add: HandleWebSocketMetrics_def)
  from metrics_stream_roundtrip[OF out hs, of 3] out show ?thesis by auto
qed

end
