(* ===== verification/Validation.thy ===== *)
theory Validation
  imports Json Float64 "HOL-Library.Multiset"
begin

text \<open>
  Edge validation of request bodies, pkg/proxy/validation.go. The schema is a Go map from field
  names to rules; \<^verbatim>\<open>ValidateRequest\<close> ranges over it and stops at the first violated rule, so
  the order of the association list is the order of that range. \<open>oob\<close> is the value that the
  conversion \<^verbatim>\<open>int(numVal)\<close> has for a number outside the \<^verbatim>\<open>int64\<close> range, which Go leaves to
  the implementation.
\<close>

definition parse_rule :: "string \<Rightarrow> bool \<times> string" where
  "parse_rule rule = fold (\<lambda>p (required, expectedType).
      (let p = TrimSpace p in
       if p = ''required'' then (True, expectedType)
       else if p \<noteq> [] then (required, p) else (required, expectedType)))
     (Split rule CHR '','') (False, [])"

definition go_int_of_float :: "(rat \<Rightarrow> int) \<Rightarrow> rat \<Rightarrow> int" where
  "go_int_of_float oob x = (if int64_ok (f64_trunc x) then f64_trunc x else oob x)"

definition field_error :: "string \<Rightarrow> string \<Rightarrow> string" where
  "field_error field what = ''Validation failed: field '' @ [CHR 39] @ field @ [CHR 39] @ what"

definition check_type :: "(rat \<Rightarrow> int) \<Rightarrow> string \<Rightarrow> string \<Rightarrow> json \<Rightarrow> string option" where
  "check_type oob field expectedType val =
     (if expectedType = ''string'' then
        (case val of JStr _ \<Rightarrow> None | _ \<Rightarrow> Some (field_error field '' must be a string''))
      else if expectedType = ''email'' then
        (case val of
           JStr strVal \<Rightarrow> if \<not> Contains strVal ''@'' \<or> \<not> Contains strVal ''.''
             then Some (field_error field '' must be a valid email'') else None
         | _ \<Rightarrow> Some (field_error field '' must be a string''))
      else if expectedType = ''int'' \<or> expectedType = ''integer'' then
        (case val of
           JNum numVal \<Rightarrow> if numVal \<noteq> f64_of_int (go_int_of_float oob numVal)
             then Some (field_error field '' must be an integer'') else None
         | _ \<Rightarrow> Some (field_error field '' must be an integer''))
      else if expectedType = ''float'' \<or> expectedType = ''number'' \<or> expectedType = ''double'' then
        (case val of JNum _ \<Rightarrow> None | _ \<Rightarrow> Some (field_error field '' must be a number''))
      else if expectedType = ''bool'' \<or> expectedType = ''boolean'' then
        (case val of JBool _ \<Rightarrow> None | _ \<Rightarrow> Some (field_error field '' must be a boolean''))
      else None)"

definition check_field :: "(rat \<Rightarrow> int) \<Rightarrow> (string \<times> json) list \<Rightarrow> string \<times> string \<Rightarrow> string option" where
  "check_field oob data fr = (case fr of (field, rule) \<Rightarrow>
     (let (required, expectedType) = parse_rule rule in
      case map_of data field of
        None \<Rightarrow> if required then Some (field_error field '' is required'') else None
      | Some JNull \<Rightarrow> if required then Some (field_error field '' is required'') else None
      | Some val \<Rightarrow> check_type oob field expectedType val))"

fun check_fields :: "(rat \<Rightarrow> int) \<Rightarrow> (string \<times> json) list \<Rightarrow> (string \<times> string) list \<Rightarrow> string option" where
  "check_fields oob data [] = None"
| "check_fields oob data (fr # schema) =
     (case check_field oob data fr of Some e \<Rightarrow> Some e | None \<Rightarrow> check_fields oob data schema)"

definition ValidateRequest ::
  "(rat \<Rightarrow> int) \<Rightarrow> (string \<Rightarrow> json option) \<Rightarrow> string \<Rightarrow> (string \<times> string) list \<Rightarrow> string option" where
  "ValidateRequest oob unmarshal bodyBytes schema =
     (if schema = [] then None
      else if bodyBytes = [] then check_fields oob [] schema
      else (case as_object (unmarshal bodyBytes) of
         None \<Rightarrow> Some ''Validation failed: request body is not valid JSON''
       | Some data \<Rightarrow> check_fields oob data schema))"

section \<open>What a rule asks for\<close>

text \<open>The specification of one rule, on the value of the field (\<open>None\<close>: absent or null).\<close>

definition present :: "(string \<times> json) list \<Rightarrow> string \<Rightarrow> json option" where
  "present data f = (case map_of data f of Some JNull \<Rightarrow> None | v \<Rightarrow> v)"

definition type_ok :: "string \<Rightarrow> json \<Rightarrow> bool" where
  "type_ok ty v \<longleftrightarrow>
     (ty = ''string'' \<longrightarrow> (\<exists>s. v = JStr s)) \<and>
     (ty = ''email'' \<longrightarrow> (\<exists>s. v = JStr s \<and> CHR ''@'' \<in> set s \<and> CHR ''.'' \<in> set s)) \<and>
     (ty \<in> {''int'', ''integer''} \<longrightarrow> (\<exists>n. v = JNum (of_int n))) \<and>
     (ty \<in> {''float'', ''number'', ''double''} \<longrightarrow> (\<exists>n. v = JNum n)) \<and>
     (ty \<in> {''bool'', ''boolean''} \<longrightarrow> (\<exists>b. v = JBool b))"

definition field_ok :: "(string \<times> json) list \<Rightarrow> string \<times> string \<Rightarrow> bool" where
  "field_ok data fr \<longleftrightarrow> (case present data (fst fr) of
     None \<Rightarrow> \<not> fst (parse_rule (snd fr))
   | Some v \<Rightarrow> type_ok (snd (parse_rule (snd fr))) v)"

text \<open>The numbers of a document within the range in which a \<^verbatim>\<open>float64\<close> holds every integer.\<close>

definition nums_exact :: "(string \<times> json) list \<Rightarrow> bool" where
  "nums_exact data \<longleftrightarrow> (\<forall>f n. map_of data f = Some (JNum n) \<longrightarrow> \<bar>n\<bar> < 9007199254740992)"

lemma Contains_char: "Contains s [c] \<longleftrightarrow> c \<in> set s"
  by (auto simp: Contains_iff) (metis split_list)

lemma f64_trunc_of_int [simp]: "f64_trunc (of_int n) = n"
  by (simp add: f64_trunc_def)

lemma f64_trunc_bound: "\<bar>f64_trunc x\<bar> \<le> \<lfloor>\<bar>x\<bar>\<rfloor>"
  by (auto simp: f64_trunc_def abs_if)

lemma int_check:
  assumes "\<bar>x\<bar> < 9007199254740992"
  shows "x = f64_of_int (go_int_of_float oob x) \<longleftrightarrow> (\<exists>n. x = of_int n)"
proof -
  have "\<lfloor>\<bar>x\<bar>\<rfloor> < 9007199254740992" using assms by (simp add: floor_less_iff)
  with f64_trunc_bound[of x] have t: "\<bar>f64_trunc x\<bar> < 9007199254740992" by linarith
  then have "int64_ok (f64_trunc x)" by (auto simp: int64_ok_def abs_less_iff)
  then have "f64_of_int (go_int_of_float oob x) = of_int (f64_trunc x)"
    using f64_of_int_exact[of "f64_trunc x"] t by (simp add: go_int_of_float_def)
  then show ?thesis by auto
qed

lemma check_type_ok:
  assumes "\<And>n. v = JNum n \<Longrightarrow> \<bar>n\<bar> < 9007199254740992"
  shows "check_type oob f ty v = None \<longleftrightarrow> type_ok ty v"
proof (cases v)
  case (JNum n)
  with assms have "n = f64_of_int (go_int_of_float oob n) \<longleftrightarrow> (\<exists>k. n = of_int k)" by (intro int_check) simp
  with JNum show ?thesis by (simp add: check_type_def type_ok_def)
qed (auto simp: check_type_def type_ok_def Contains_char)

lemma check_field_ok: "nums_exact data \<Longrightarrow> check_field oob data fr = None \<longleftrightarrow> field_ok data fr"
  using check_type_ok[of "the (map_of data (fst fr))" oob "fst fr" "snd (parse_rule (snd fr))"]
  by (cases fr; cases "map_of data (fst fr)")
    (auto simp: check_field_def field_ok_def present_def nums_exact_def case_prod_unfold split: json.splits)

lemma check_fields_ok: "check_fields oob data schema = None \<longleftrightarrow> (\<forall>fr\<in>set schema. check_field oob data fr = None)"
  by (induction schema) (auto split: option.splits)

section \<open>Properties\<close>

text \<open>C35: a body is accepted exactly when it decodes to an object in which every field of the schema
  satisfies its rule: required fields are present and not null, and present fields have the type
  the rule names. In particular the outcome does not depend on the order in which Go ranges over
  the schema (only the message of a refusal does). Stated for documents whose numbers are below
  \<open>2^53\<close>, where the integer test is exact.\<close>

theorem validate_accepts_iff:
  assumes "schema \<noteq> []" and "b \<noteq> []" and "\<And>data. as_object (unmarshal b) = Some data \<Longrightarrow> nums_exact data"
  shows "ValidateRequest oob unmarshal b schema = None \<longleftrightarrow>
    (\<exists>data. as_object (unmarshal b) = Some data \<and> (\<forall>fr\<in>set schema. field_ok data fr))"
  using assms by (auto simp: ValidateRequest_def check_fields_ok check_field_ok split: option.splits)

theorem validate_accepts_iff_witness:
  "ValidateRequest (\<lambda>_. 0) (\<lambda>_. Some (JObj [(''n'', JNum 3)])) ''b'' [(''n'', ''required, int'')] = None \<and>
   ValidateRequest (\<lambda>_. 0) (\<lambda>_. Some (JObj [(''n'', JNum (1 / 2))])) ''b'' [(''n'', ''required, int'')] \<noteq> None"
proof -
  have r: "parse_rule ''required, int'' = (True, ''int'')"
    by (simp add: parse_rule_def TrimSpace_def is_space_def)
  have h: "(1 / 2 :: rat) \<noteq> of_int k" for k
  proof
    assume "(1 / 2 :: rat) = of_int k"
    then have "(of_int 1 :: rat) = of_int (2 * k)" by simp
    then have "1 = 2 * k" by (simp only: of_int_eq_iff)
    then show False by presburger
  qed
  have t: "type_ok ''int'' (JNum 3)" by (auto simp: type_ok_def intro: exI[of _ 3])
  have u: "\<not> type_ok ''int'' (JNum (1 / 2))" using h by (auto simp: type_ok_def)
  show ?thesis
    using validate_accepts_iff[of "[(''n'', ''required, int'')]" "''b''" "\<lambda>_. Some (JObj [(''n'', JNum 3)])" "\<lambda>_. 0"]
      validate_accepts_iff[of "[(''n'', ''required, int'')]" "''b''" "\<lambda>_. Some (JObj [(''n'', JNum (1 / 2))])" "\<lambda>_. 0"]
    by (simp add: as_object_def nums_exact_def field_ok_def present_def r t u)
qed

end
