(* ===== verification/Openapi.thy ===== *)
theory Openapi
  imports Validation Config
begin

text \<open>
  The discovery document of the gateway, \<^verbatim>\<open>serveOpenAPIDocs\<close> of handler.go: an OpenAPI
  description of the configured routes, built as nested maps. A Go map is an association list in
  the order of insertion; the document's fixed part keeps the order of the source.
\<close>

section \<open>The document\<close>

definition path_key :: "Route \<Rightarrow> string" where
  "path_key route = (if HasSuffix (Prefix route) ''/'' then Prefix route else Prefix route @ ''/'') @ ''{path}''"

definition doc_part :: "string \<Rightarrow> string \<times> bool \<Rightarrow> string \<times> bool" where
  "doc_part part acc = (let p = TrimSpace part; (pType, req) = acc in
     if p = ''required'' then (pType, True)
     else if p = ''int'' \<or> p = ''integer'' then (''integer'', req)
     else if p = ''float'' \<or> p = ''number'' then (''number'', req)
     else if p = ''bool'' \<or> p = ''boolean'' then (''boolean'', req)
     else if p = ''string'' then (''string'', req)
     else (pType, req))"

definition doc_rule :: "string \<Rightarrow> string \<times> bool" where
  "doc_rule fieldType = fold doc_part (Split fieldType CHR '','') (''string'', False)"

definition doc_properties :: "(string \<times> string) list \<Rightarrow> (string \<times> json) list" where
  "doc_properties schema = fold (\<lambda>(fieldName, fieldType) ps.
     AList.update fieldName (JObj [(''type'', JStr (fst (doc_rule fieldType)))]) ps) schema []"

definition doc_required :: "(string \<times> string) list \<Rightarrow> string list" where
  "doc_required schema = map fst (filter (\<lambda>(_, fieldType). snd (doc_rule fieldType)) schema)"

definition request_body :: "(string \<times> string) list \<Rightarrow> json" where
  "request_body schema =
     JObj [(''required'', JBool True),
           (''content'', JObj [(''application/json'', JObj [(''schema'',
              JObj ([(''type'', JStr ''object''), (''properties'', JObj (doc_properties schema))] @
                (if doc_required schema \<noteq> [] then [(''required'', JArr (map JStr (doc_required schema)))] else [])))])])]"

definition operation :: "Route \<Rightarrow> string \<Rightarrow> json" where
  "operation route m =
     JObj ([(''summary'', JStr (''Proxy to '' @ Target route)),
            (''description'', JStr (''Proxies requests starting with '' @ Prefix route @ '' to target: '' @ Target route)),
            (''responses'', JObj [(''200'', JObj [(''description'', JStr ''Successful proxy response'')])])] @
       (if (m = ''post'' \<or> m = ''put'') \<and> ValidationSchema route \<noteq> []
        then [(''requestBody'', request_body (ValidationSchema route))] else []))"

definition path_item :: "Route \<Rightarrow> json" where
  "path_item route =
     JObj ((''parameters'', JArr [JObj [(''name'', JStr ''path''), (''in'', JStr ''path''), (''required'', JBool True),
              (''description'', JStr ''Sub-route path parameter''), (''schema'', JObj [(''type'', JStr ''string'')])]]) #
       map (\<lambda>m. (m, operation route m)) [''get'', ''post'', ''put'', ''delete'', ''patch''])"

definition doc_paths :: "Route list \<Rightarrow> (string \<times> json) list" where
  "doc_paths rs = fold (\<lambda>route ps. AList.update (path_key route) (path_item route) ps) rs []"

definition openapi_doc :: "Route list \<Rightarrow> json" where
  "openapi_doc rs =
     JObj [(''openapi'', JStr ''3.1.0''),
           (''info'', JObj [(''title'', JStr ''ServGate API Gateway Discovery''), (''version'', JStr ''1.0.0''),
              (''description'', JStr ''Auto-discovered gateway proxy routes'')]),
           (''paths'', JObj (doc_paths rs)),
           (''components'', JObj [(''securitySchemes'', JObj [(''BearerAuth'',
              JObj [(''type'', JStr ''http''), (''scheme'', JStr ''bearer''), (''bearerFormat'', JStr ''JWT'')])])]),
           (''security'', JArr [JObj [(''BearerAuth'', JArr [])]])]"

text \<open>\<^verbatim>\<open>json.NewEncoder(w).Encode(openapi)\<close>: the text and a newline.\<close>

definition serveOpenAPIDocs :: "(json \<Rightarrow> string option) \<Rightarrow> Route list \<Rightarrow> string" where
  "serveOpenAPIDocs marshal rs = (case marshal (openapi_doc rs) of Some t \<Rightarrow> t @ [CHR 0x0A] | None \<Rightarrow> [])"

section \<open>The page that shows it\<close>

definition docsHTML :: string where
  "docsHTML = Join [
      ''<!DOCTYPE html>'',
      ''<html lang=\"en\">'',
      ''<head>'',
      ''  <meta charset=\"utf-8\" />'',
      ''  <meta name=\"viewport\" content=\"width=device-width, initial-scale=1\" />'',
      ''  <title>ServGate API Portal</title>'',
      ''  <link rel=\"stylesheet\" href=\"https://unpkg.com/swagger-ui-dist@5.11.0/swagger-ui.css\" />'',
      ''  <link rel=\"preconnect\" href=\"https://fonts.googleapis.com\">'',
      ''  <link rel=\"preconnect\" href=\"https://fonts.gstatic.com\" crossorigin>'',
      ''  <link href=\"https://fonts.googleapis.com/css2?family=Outfit:wght@100..900&display=swap\" rel=\"stylesheet\">'',
      ''  <style>'',
      ''    body {'',
      ''      margin: 0;'',
      ''      background: #0f172a;'',
      ''      color: #f8fafc;'',
      ''      font-family: 'Outfit', sans-serif;'',
      ''    }'',
      ''    .swagger-ui {'',
      ''      filter: invert(88%) hue-rotate(180deg);'',
      ''    }'',
      ''    .swagger-ui .topbar {'',
      ''      display: none;'',
      ''    }'',
      ''    .header-panel {'',
      ''      background: linear-gradient(135deg, #1e1b4b 0%, #0f172a 100%);'',
      ''      padding: 24px;'',
      ''      border-bottom: 1px solid rgba(255, 255, 255, 0.1);'',
      ''      display: flex;'',
      ''      justify-content: space-between;'',
      ''      align-items: center;'',
      ''    }'',
      ''    .header-panel h1 {'',
      ''      margin: 0;'',
      ''      font-size: 24px;'',
      ''      font-weight: 700;'',
      ''      color: #fff;'',
      ''    }'',
      ''    .badge {'',
      ''      background: #4f46e5;'',
      ''      color: #fff;'',
      ''      padding: 4px 8px;'',
      ''      border-radius: 4px;'',
      ''      font-size: 12px;'',
      ''      margin-left: 8px;'',
      ''    }'',
      ''  </style>'',
      ''</head>'',
      ''<body>'',
      ''  <div class=\"header-panel\">'',
      ''    <div>'',
      ''      <h1>'' @ [CHR 0xE2] @ [CHR 0x9A] @ [CHR 0xA1] @ '' ServGate <span style=\"color: #818cf8;\">Developer Portal</span><span class=\"badge\">Docs</span></h1>'',
      ''    </div>'',
      ''  </div>'',
      ''  <div id=\"swagger-ui\"></div>'',
      ''  <script src=\"https://unpkg.com/swagger-ui-dist@5.11.0/swagger-ui-bundle.js\"></script>'',
      ''  <script>'',
      ''    window.onload = () => {'',
      ''      window.ui = SwaggerUIBundle({'',
      ''        url: '/api/docs/openapi.json','',
      ''        dom_id: '#swagger-ui','',
      ''        deepLinking: true,'',
      ''        presets: ['',
      ''          SwaggerUIBundle.presets.apis,'',
      ''          SwaggerUIBundle.swaggerPlugins.DownloadUrl'',
      ''        ],'',
      ''        layout: \"BaseLayout\"'',
      ''      });'',
      ''    };'',
      ''  </script>'',
      ''</body>'',
      ''</html>'',
      []] [CHR 0x0A]"

section \<open>The document against the validator\<close>

text \<open>
  What the schemas of the document mean, as OpenAPI defines it for the keywords the gateway
  writes: \<^verbatim>\<open>type\<close> for a field, and \<^verbatim>\<open>type\<close>, \<^verbatim>\<open>properties\<close> and \<^verbatim>\<open>required\<close> for a body. A schema is
  read out of the JSON document (\<open>json_at\<close> follows member names).
\<close>

fun json_at :: "string list \<Rightarrow> json \<Rightarrow> json option" where
  "json_at [] v = Some v"
| "json_at (k # ks) v = (case v of JObj members \<Rightarrow> Option.bind (map_of members k) (json_at ks) | _ \<Rightarrow> None)"

definition doc_accepts :: "string \<Rightarrow> json \<Rightarrow> bool" where
  "doc_accepts ty v \<longleftrightarrow> (if ty = ''string'' then \<exists>s. v = JStr s else if ty = ''integer'' then \<exists>n. v = JNum (of_int n)
     else if ty = ''number'' then \<exists>n. v = JNum n else if ty = ''boolean'' then \<exists>b. v = JBool b
     else if ty = ''object'' then \<exists>d. v = JObj d else False)"

definition field_schema_accepts :: "json \<Rightarrow> json \<Rightarrow> bool" where
  "field_schema_accepts sch v \<longleftrightarrow> (case json_at [''type''] sch of Some (JStr ty) \<Rightarrow> doc_accepts ty v | _ \<Rightarrow> True)"

definition body_schema_accepts :: "json \<Rightarrow> (string \<times> json) list \<Rightarrow> bool" where
  "body_schema_accepts sch data \<longleftrightarrow>
     field_schema_accepts sch (JObj data) \<and>
     (case json_at [''properties''] sch of
        Some (JObj ps) \<Rightarrow> (\<forall>(f, fsch)\<in>set ps. (case map_of data f of None \<Rightarrow> True | Some v \<Rightarrow> field_schema_accepts fsch v))
      | _ \<Rightarrow> True) \<and>
     (case json_at [''required''] sch of
        Some (JArr fs) \<Rightarrow> (\<forall>f\<in>set fs. (case f of JStr n \<Rightarrow> map_of data n \<noteq> None | _ \<Rightarrow> True))
      | _ \<Rightarrow> True)"

text \<open>The fields of a body that are not null.\<close>

definition non_null :: "(string \<times> json) list \<Rightarrow> (string \<times> json) list" where
  "non_null data = filter (\<lambda>(_, v). v \<noteq> JNull) data"

definition known_types :: "string list" where
  "known_types = [''string'', ''int'', ''integer'', ''float'', ''number'', ''bool'', ''boolean'']"

definition doc_type :: "string \<Rightarrow> string" where
  "doc_type ty = (if ty = ''int'' \<or> ty = ''integer'' then ''integer'' else if ty = ''float'' \<or> ty = ''number'' then ''number''
     else if ty = ''bool'' \<or> ty = ''boolean'' then ''boolean'' else ''string'')"

abbreviation parse_parts :: "string list \<Rightarrow> bool \<times> string \<Rightarrow> bool \<times> string" where
  "parse_parts parts st \<equiv> fold (\<lambda>p (required, expectedType). (let p = TrimSpace p in
     if p = ''required'' then (True, expectedType) else if p \<noteq> [] then (required, p) else (required, expectedType))) parts st"

lemma doc_fold_required: "snd (fold doc_part parts (t, b)) = fst (parse_parts parts (b, e))"
  by (induction parts arbitrary: t b e) (simp_all add: doc_part_def Let_def)

lemma doc_fold_type:
  assumes "e \<in> set known_types \<or> e = [] \<longrightarrow> t = doc_type e"
    and "snd (parse_parts parts (b, e)) \<in> set known_types \<or> snd (parse_parts parts (b, e)) = []"
  shows "fst (fold doc_part parts (t, b)) = doc_type (snd (parse_parts parts (b, e)))"
  using assms
proof (induction parts arbitrary: t b e)
  case (Cons p ps)
  let ?q = "TrimSpace p"
  consider "?q = ''required''" | "?q = []" | "?q \<noteq> ''required''" "?q \<noteq> []" "?q \<in> set known_types" | "?q \<noteq> ''required''" "?q \<noteq> []" "?q \<notin> set known_types"
    by blast
  then show ?case
  proof cases
    case 1
    with Cons.prems Cons.IH[of e t True] show ?thesis by (simp add: doc_part_def Let_def)
  next
    case 2
    with Cons.prems Cons.IH[of e t b] show ?thesis by (simp add: doc_part_def Let_def)
  next
    case 3
    then have "doc_part p (t, b) = (doc_type ?q, b)" by (auto simp: doc_part_def Let_def known_types_def doc_type_def)
    with 3 Cons.prems(2) Cons.IH[of ?q "doc_type ?q" b] show ?thesis by simp
  next
    case 4
    then have "doc_part p (t, b) = (t, b)" by (simp add: doc_part_def Let_def known_types_def)
    with 4 Cons.prems(2) Cons.IH[of ?q t b] show ?thesis by simp
  qed
qed auto

lemma doc_rule_parse:
  "snd (doc_rule rule) = fst (parse_rule rule)"
  "snd (parse_rule rule) \<in> set known_types \<or> snd (parse_rule rule) = [] \<Longrightarrow> fst (doc_rule rule) = doc_type (snd (parse_rule rule))"
  using doc_fold_required[of "Split rule CHR '',''" "''string''" False "[]"]
    doc_fold_type[of "[]" "''string''" "Split rule CHR '',''" False]
  by (simp_all add: doc_rule_def parse_rule_def doc_type_def)

lemma doc_type_accepts:
  assumes "ty \<in> set known_types"
  shows "doc_accepts (doc_type ty) v \<longleftrightarrow> type_ok ty v"
proof -
  from assms have "ty = ''string'' \<or> ty = ''int'' \<or> ty = ''integer'' \<or> ty = ''float'' \<or> ty = ''number'' \<or> ty = ''bool'' \<or> ty = ''boolean''"
    by (simp add: known_types_def)
  then show ?thesis by (elim disjE) (simp_all add: doc_type_def doc_accepts_def type_ok_def)
qed

text \<open>Every route is in the document, under the last description for its path.\<close>

lemma doc_paths_lookup: "map_of (doc_paths rs) k = map_option path_item (find (\<lambda>r. path_key r = k) (rev rs))"
proof (induction rs rule: rev_induct)
  case (snoc r rs)
  then show ?case by (simp add: doc_paths_def update_conv)
qed (simp add: doc_paths_def)

lemma doc_properties_lookup:
  "map_of (doc_properties schema) f = map_option (\<lambda>(_, rule). JObj [(''type'', JStr (fst (doc_rule rule)))]) (find (\<lambda>p. fst p = f) (rev schema))"
proof (induction schema rule: rev_induct)
  case (snoc p ps)
  then show ?case by (auto simp: doc_properties_def update_conv split: prod.splits)
qed (simp add: doc_properties_def)

text \<open>A field of type \<open>double\<close> is documented as a string, and the validator takes numbers only.\<close>

lemma double_documented_as_string: "doc_rule ''double'' = (''string'', False)" "parse_rule ''double'' = (False, ''double'')"
  by code_simp+

lemma update_new: "k \<notin> fst ` set al \<Longrightarrow> AList.update k v al = al @ [(k, v)]"
  by (induction al) auto

lemma doc_properties_map:
  "distinct (map fst schema) \<Longrightarrow>
   doc_properties schema = map (\<lambda>(f, rule). (f, JObj [(''type'', JStr (fst (doc_rule rule)))])) schema"
proof (induction schema rule: rev_induct)
  case (snoc p ps)
  then show ?case
    by (cases p) (auto simp: doc_properties_def image_image case_prod_unfold intro!: update_new)
qed (simp add: doc_properties_def)

lemma non_null_present: "distinct (map fst data) \<Longrightarrow> map_of (non_null data) f = present data f"
proof (induction data)
  case (Cons p data)
  then have "map_of data (fst p) = None" by (simp add: map_of_eq_None_iff)
  with Cons show ?case by (cases p; cases "snd p") (auto simp: non_null_def present_def)
qed (simp add: non_null_def present_def)

text \<open>The schema the document gives for the bodies of a route.\<close>

definition body_schema :: "(string \<times> string) list \<Rightarrow> json" where
  "body_schema schema = JObj ([(''type'', JStr ''object''), (''properties'', JObj (doc_properties schema))] @
     (if doc_required schema \<noteq> [] then [(''required'', JArr (map JStr (doc_required schema)))] else []))"

lemma json_at_step: "json_at [k] v = Some w \<Longrightarrow> json_at (k # ks) v = json_at ks w"
  by (cases v) (auto simp: Option.bind_eq_Some_conv)

lemma field_schema_type [simp]: "field_schema_accepts (JObj [(''type'', JStr ty)]) v \<longleftrightarrow> doc_accepts ty v"
  by (simp add: field_schema_accepts_def)

lemma body_schema_at:
  assumes "find (\<lambda>r. path_key r = path_key route) (rev rs) = Some route"
    and "m = ''post'' \<or> m = ''put''" and "ValidationSchema route \<noteq> []"
  shows "json_at [''paths'', path_key route, m, ''requestBody'', ''content'', ''application/json'', ''schema''] (openapi_doc rs) =
    Some (body_schema (ValidationSchema route))"
proof -
  have 1: "json_at [''paths''] (openapi_doc rs) = Some (JObj (doc_paths rs))" by (simp add: openapi_doc_def)
  have 2: "json_at [path_key route] (JObj (doc_paths rs)) = Some (path_item route)"
    using assms(1) by (simp add: doc_paths_lookup)
  have 3: "json_at [m] (path_item route) = Some (operation route m)"
    using assms(2) by (elim disjE) (simp_all add: path_item_def)
  have 4: "json_at [''requestBody''] (operation route m) = Some (request_body (ValidationSchema route))"
    using assms(2,3) by (simp add: operation_def)
  have 5: "json_at [''content'', ''application/json'', ''schema''] (request_body s) = Some (body_schema s)" for s
    by (simp add: request_body_def body_schema_def)
  show ?thesis
    unfolding json_at_step[OF 1] json_at_step[OF 2] json_at_step[OF 3] json_at_step[OF 4] by (rule 5)
qed

lemma body_schema_accepts_iff:
  assumes "distinct (map fst schema)"
  shows "body_schema_accepts (body_schema schema) data \<longleftrightarrow>
    (\<forall>(f, rule)\<in>set schema. case map_of data f of
       None \<Rightarrow> \<not> snd (doc_rule rule) | Some v \<Rightarrow> doc_accepts (fst (doc_rule rule)) v)"
proof -
  have props: "(\<forall>(f, fsch)\<in>set (doc_properties schema). P f fsch) \<longleftrightarrow>
      (\<forall>(f, rule)\<in>set schema. P f (JObj [(''type'', JStr (fst (doc_rule rule)))]))" for P
    by (auto simp: doc_properties_map[OF assms])
  have req: "(\<forall>f\<in>set (doc_required schema). Q f) \<longleftrightarrow> (\<forall>(f, rule)\<in>set schema. snd (doc_rule rule) \<longrightarrow> Q f)" for Q
    by (auto simp: doc_required_def)
  have "json_at [''type''] (body_schema schema) = Some (JStr ''object'')"
    "json_at [''properties''] (body_schema schema) = Some (JObj (doc_properties schema))"
    "json_at [''required''] (body_schema schema) =
       (if doc_required schema = [] then None else Some (JArr (map JStr (doc_required schema))))"
    by (simp_all add: body_schema_def)
  then have "body_schema_accepts (body_schema schema) data \<longleftrightarrow>
      (\<forall>(f, fsch)\<in>set (doc_properties schema). case map_of data f of None \<Rightarrow> True | Some v \<Rightarrow> field_schema_accepts fsch v) \<and>
      (\<forall>f\<in>set (doc_required schema). map_of data f \<noteq> None)"
    by (auto simp: body_schema_accepts_def field_schema_accepts_def[of "body_schema schema"] doc_accepts_def)
  also have "\<dots> \<longleftrightarrow> (\<forall>(f, rule)\<in>set schema. case map_of data f of None \<Rightarrow> True | Some v \<Rightarrow> doc_accepts (fst (doc_rule rule)) v) \<and>
      (\<forall>(f, rule)\<in>set schema. snd (doc_rule rule) \<longrightarrow> map_of data f \<noteq> None)"
    unfolding props req field_schema_type ..
  also have "\<dots> \<longleftrightarrow> (\<forall>(f, rule)\<in>set schema. case map_of data f of
       None \<Rightarrow> \<not> snd (doc_rule rule) | Some v \<Rightarrow> doc_accepts (fst (doc_rule rule)) v)"
    by (auto split: option.splits)
  finally show ?thesis .
qed

section \<open>Properties\<close>

text \<open>C36: the document states the contract the gateway enforces. Take a route with a validation
  schema (a map, so without repeated fields) that is the last route of the table for its path, each
  of whose rules names a type the document can express: string, int, integer, float, number, bool
  or boolean. The document holds a schema for the POST and PUT bodies at this path, and the
  validator accepts a JSON object (without repeated members, its numbers below \<open>2^53\<close>) exactly
  when that schema, read as OpenAPI defines it, accepts the object without its null members: the
  validator treats a null member as absent. Rules that name no type, \<^verbatim>\<open>email\<close> or \<^verbatim>\<open>double\<close> are not
  covered: all three are documented as string.\<close>

theorem openapi_matches_validator:
  assumes "find (\<lambda>r. path_key r = path_key route) (rev rs) = Some route"
    and "m = ''post'' \<or> m = ''put''" and "ValidationSchema route \<noteq> []" and "distinct (map fst (ValidationSchema route))"
    and "\<forall>(f, rule)\<in>set (ValidationSchema route). snd (parse_rule rule) \<in> set known_types"
    and "b \<noteq> []" and "unmarshal b = Some (JObj data)" and "distinct (map fst data)" and "nums_exact data"
  shows "\<exists>sch. json_at [''paths'', path_key route, m, ''requestBody'', ''content'', ''application/json'', ''schema''] (openapi_doc rs) = Some sch \<and>
    (ValidateRequest oob unmarshal b (ValidationSchema route) = None \<longleftrightarrow> body_schema_accepts sch (non_null data))"
proof -
  let ?S = "ValidationSchema route"
  have "ValidateRequest oob unmarshal b ?S = None \<longleftrightarrow> (\<forall>fr\<in>set ?S. field_ok data fr)"
    using assms(3,6,7,9) by (simp add: ValidateRequest_def as_object_def check_fields_ok check_field_ok)
  moreover have "(\<forall>fr\<in>set ?S. field_ok data fr) \<longleftrightarrow> body_schema_accepts (body_schema ?S) (non_null data)"
    unfolding body_schema_accepts_iff[OF assms(4)] non_null_present[OF assms(8)] field_ok_def case_prod_unfold
    using assms(5) by (intro ball_cong refl) (auto simp: doc_rule_parse doc_type_accepts split: option.splits)
  ultimately show ?thesis using body_schema_at[OF assms(1-3)] by auto
qed

theorem openapi_matches_validator_witness:
  "\<exists>sch. json_at [''paths'', ''/u/{path}'', ''post'', ''requestBody'', ''content'', ''application/json'', ''schema'']
      (openapi_doc [zero_route\<lparr>Prefix := ''/u'', ValidationSchema := [(''n'', ''required,int''), (''s'', ''string'')]\<rparr>]) = Some sch \<and>
    (ValidateRequest (\<lambda>_. 0) (\<lambda>_. Some (JObj [(''n'', JNum 3), (''s'', JNull)])) ''b'' [(''n'', ''required,int''), (''s'', ''string'')] = None \<longleftrightarrow>
     body_schema_accepts sch [(''n'', JNum 3)])"
proof -
  let ?S = "[(''n'', ''required,int''), (''s'', ''string'')]"
  let ?r = "zero_route\<lparr>Prefix := ''/u'', ValidationSchema := ?S\<rparr>"
  have k: "path_key ?r = ''/u/{path}''" by (simp add: path_key_def HasSuffix_def)
  have p: "parse_rule ''required,int'' = (True, ''int'')" "parse_rule ''string'' = (False, ''string'')" by code_simp+
  have n: "non_null [(''n'', JNum 3), (''s'', JNull)] = [(''n'', JNum 3)]" by (simp add: non_null_def)
  have "nums_exact [(''n'', JNum 3), (''s'', JNull)]" by (simp add: nums_exact_def)
  then show ?thesis
    using openapi_matches_validator[of ?r "[?r]" "''post''" "''b''" "\<lambda>_. Some (JObj [(''n'', JNum 3), (''s'', JNull)])"
        "[(''n'', JNum 3), (''s'', JNull)]" "\<lambda>_. 0"]
    by (simp add: k p n known_types_def)
qed

text \<open>A rule that names no type is documented as a string, and the validator takes any value.\<close>

lemma untyped_documented_as_string: "doc_rule ''required'' = (''string'', True)" "parse_rule ''required'' = (True, [])"
  by code_simp+

text \<open>What the document does not say: an optional field that is null is accepted by the validator and
  refused by the documented type.\<close>

lemma optional_null_diverges:
  "ValidateRequest oob (\<lambda>_. Some (JObj [(f, JNull)])) ''b'' [(f, ''string'')] = None \<and>
   \<not> body_schema_accepts (body_schema [(f, ''string'')]) [(f, JNull)]"
proof -
  have "parse_rule ''string'' = (False, ''string'')" "doc_rule ''string'' = (''string'', False)" by code_simp+
  then show ?thesis
    by (simp add: ValidateRequest_def as_object_def check_field_def body_schema_accepts_iff doc_accepts_def)
qed

end
