(* ===== verification/Wasm_Runner.thy ===== *)
theory Wasm_Runner
  imports Prelude "HOL-Library.Word"
begin

text \<open>
  The WASM middleware manager, pkg/wasm/runner.go. The wazero runtime is a parameter: compiled
  modules are values of a type \<open>'c\<close>, an instance is a number, and what its exports do is given
  by a record of functions.

  \<^verbatim>\<open>Register\<close> runs under the manager's mutex. \<^verbatim>\<open>Run\<close> does not: it reads the cache and the
  pool under the mutex, takes an instance from the pool channel, or instantiates the module,
  runs, and sends the instance back to the channel it read at the beginning. These are its
  atomic steps here, and \<open>wasm_step\<close> interleaves them between any number of calls and
  registrations.
\<close>

section \<open>What one call computes\<close>

record wasm_exports =
  fn_allocate :: "(64 word \<Rightarrow> 64 word list option) option"
  fn_malloc :: "(64 word \<Rightarrow> 64 word list option) option"
  fn_transform :: "(64 word \<Rightarrow> 64 word \<Rightarrow> 64 word list option) option"
  fn_process :: "(64 word \<Rightarrow> 64 word \<Rightarrow> 64 word list option) option"
  mem_Write :: "32 word \<Rightarrow> string \<Rightarrow> bool"
  mem_Read :: "32 word \<Rightarrow> 32 word \<Rightarrow> string option"

definition or_else :: "'a option \<Rightarrow> 'a option \<Rightarrow> 'a option" where
  "or_else a b = (case a of None \<Rightarrow> b | Some x \<Rightarrow> Some x)"

text \<open>
  The direct-memory path. The exports are called one after the other; \<open>None\<close> in a result stands
  for a trap or a time-out. The upper half of the result is a pointer, the lower half a length.
\<close>

definition direct_call :: "wasm_exports \<Rightarrow> string \<Rightarrow> string option" where
  "direct_call m input =
     (case (or_else (fn_allocate m) (fn_malloc m), or_else (fn_transform m) (fn_process m)) of
        (Some allocFn, Some transformFn) \<Rightarrow>
          (let size = word_of_nat (length input) in
           case allocFn size of
             Some (ptr # _) \<Rightarrow>
               if mem_Write m (ucast ptr) input then
                 (case transformFn ptr size of
                    Some (resPtr # _) \<Rightarrow> mem_Read m (ucast (drop_bit 32 resPtr)) (ucast resPtr)
                  | _ \<Rightarrow> None)
               else None
           | _ \<Rightarrow> None)
      | _ \<Rightarrow> None)"

text \<open>
  \<^verbatim>\<open>Run\<close> after an instance has been obtained: the output (there is no error any more) and
  whether the instance may go back to the pool. The standard output buffer belongs to the new
  instance; a reused one writes to the buffer of an earlier call.
\<close>

definition run_output :: "wasm_exports \<Rightarrow> bool \<Rightarrow> string \<Rightarrow> string \<Rightarrow> string \<times> bool" where
  "run_output m reused stdout input = (case direct_call m input of
     Some outCopy \<Rightarrow> (outCopy, True)
   | None \<Rightarrow> (if reused then [] else stdout, False))"

section \<open>Pools\<close>

record pool_chan =
  pc_buf :: "nat list"
  pc_closed :: bool

datatype 'c run_phase =
    Looked 'c "nat option"
  | Missed 'c "nat option"
  | HasInst 'c "nat option" nat bool
  | Finished
  | PanickedSend

record 'c wasm_state =
  wm_cache :: "string \<rightharpoonup> 'c"
  wm_pools :: "string \<rightharpoonup> nat"
  wm_chans :: "nat \<Rightarrow> pool_chan"
  wm_next_chan :: nat
  wm_code :: "nat \<rightharpoonup> 'c"
  wm_next_inst :: nat
  wm_runs :: "nat \<rightharpoonup> 'c run_phase"

definition wasm_init :: "'c wasm_state" where
  "wasm_init = \<lparr>wm_cache = Map.empty, wm_pools = Map.empty, wm_chans = (\<lambda>_. \<lparr>pc_buf = [], pc_closed = False\<rparr>),
     wm_next_chan = 0, wm_code = Map.empty, wm_next_inst = 0, wm_runs = Map.empty\<rparr>"

text \<open>\<^verbatim>\<open>Register\<close> (compilation succeeded): replace the module, close and drain the old pool.\<close>

definition Register :: "string \<Rightarrow> 'c \<Rightarrow> 'c wasm_state \<Rightarrow> 'c wasm_state" where
  "Register name compiled m =
     (let m = m\<lparr>wm_cache := (wm_cache m)(name \<mapsto> compiled)\<rparr>;
          m = (case wm_pools m name of
                 None \<Rightarrow> m
               | Some oldPool \<Rightarrow> m\<lparr>wm_chans := (wm_chans m)(oldPool := \<lparr>pc_buf = [], pc_closed = True\<rparr>)\<rparr>)
      in m\<lparr>wm_pools := (wm_pools m)(name \<mapsto> wm_next_chan m),
           wm_chans := (wm_chans m)(wm_next_chan m := \<lparr>pc_buf = [], pc_closed = False\<rparr>),
           wm_next_chan := wm_next_chan m + 1\<rparr>)"

definition set_run :: "nat \<Rightarrow> 'c run_phase \<Rightarrow> 'c wasm_state \<Rightarrow> 'c wasm_state" where
  "set_run t p m = m\<lparr>wm_runs := (wm_runs m)(t \<mapsto> p)\<rparr>"

text \<open>The lookup under the mutex; \<open>Finished\<close> with an error when the name is not registered.\<close>

definition run_lookup :: "nat \<Rightarrow> string \<Rightarrow> 'c wasm_state \<Rightarrow> 'c wasm_state" where
  "run_lookup t name m = (case wm_cache m name of
     None \<Rightarrow> set_run t Finished m
   | Some compiled \<Rightarrow> set_run t (Looked compiled (wm_pools m name)) m)"

text \<open>The non-blocking receive.\<close>

definition run_take :: "nat \<Rightarrow> 'c \<Rightarrow> nat option \<Rightarrow> 'c wasm_state \<Rightarrow> 'c wasm_state" where
  "run_take t compiled pool m = (case pool of
     None \<Rightarrow> set_run t (Missed compiled pool) m
   | Some p \<Rightarrow> (case pc_buf (wm_chans m p) of
       [] \<Rightarrow> set_run t (Missed compiled pool) m
     | inst # rest \<Rightarrow> set_run t (HasInst compiled pool inst True)
         (m\<lparr>wm_chans := (wm_chans m)(p := (wm_chans m p)\<lparr>pc_buf := rest\<rparr>)\<rparr>)))"

definition run_instantiate :: "nat \<Rightarrow> 'c \<Rightarrow> nat option \<Rightarrow> 'c wasm_state \<Rightarrow> 'c wasm_state" where
  "run_instantiate t compiled pool m =
     set_run t (HasInst compiled pool (wm_next_inst m) False)
       (m\<lparr>wm_code := (wm_code m)(wm_next_inst m \<mapsto> compiled), wm_next_inst := wm_next_inst m + 1\<rparr>)"

text \<open>
  The end of a call: the non-blocking send to the channel the call holds (capacity 10). A send on
  a closed channel panics, also inside a \<^verbatim>\<open>select\<close> with a default case. An instance that does
  not go back is closed.
\<close>

definition run_return :: "nat \<Rightarrow> nat option \<Rightarrow> nat \<Rightarrow> 'c wasm_state \<Rightarrow> 'c wasm_state" where
  "run_return t pool inst m = (case pool of
     None \<Rightarrow> set_run t Finished m
   | Some p \<Rightarrow>
       if pc_closed (wm_chans m p) then set_run t PanickedSend m
       else if length (pc_buf (wm_chans m p)) < 10
       then set_run t Finished (m\<lparr>wm_chans := (wm_chans m)(p := (wm_chans m p)\<lparr>pc_buf := pc_buf (wm_chans m p) @ [inst]\<rparr>)\<rparr>)
       else set_run t Finished m)"

inductive wasm_step :: "'c wasm_state \<Rightarrow> 'c wasm_state \<Rightarrow> bool" where
  register: "wasm_step m (Register name compiled m)"
| lookup: "wm_runs m t = None \<Longrightarrow> wasm_step m (run_lookup t name m)"
| take: "wm_runs m t = Some (Looked compiled pool) \<Longrightarrow> wasm_step m (run_take t compiled pool m)"
| instantiate: "wm_runs m t = Some (Missed compiled pool) \<Longrightarrow> wasm_step m (run_instantiate t compiled pool m)"
| inst_failed: "wm_runs m t = Some (Missed compiled pool) \<Longrightarrow> wasm_step m (set_run t Finished m)"
| return: "wm_runs m t = Some (HasInst compiled pool inst reused) \<Longrightarrow> wasm_step m (run_return t pool inst m)"
| close: "wm_runs m t = Some (HasInst compiled pool inst reused) \<Longrightarrow> wasm_step m (set_run t Finished m)"

inductive wasm_reach :: "'c wasm_state \<Rightarrow> bool" where
  init: "wasm_reach wasm_init"
| step: "wasm_reach m \<Longrightarrow> wasm_step m m' \<Longrightarrow> wasm_reach m'"

section \<open>The invariant\<close>

text \<open>
  Instances are owned by one call or lie in one pool, once. A pool holds only instances of the
  module it was created for, and a call holds a module together with its own pool.
  \<open>src p\<close> is the module that channel \<open>p\<close> was created for.
\<close>

definition held_by :: "'c run_phase \<Rightarrow> nat set" where
  "held_by ph = (case ph of HasInst _ _ i _ \<Rightarrow> {i} | _ \<Rightarrow> {})"

definition phase_ok :: "(nat \<rightharpoonup> 'c) \<Rightarrow> (nat \<rightharpoonup> 'c) \<Rightarrow> 'c run_phase \<Rightarrow> bool" where
  "phase_ok src code ph = (case ph of
     Looked c pool \<Rightarrow> (\<exists>p. pool = Some p \<and> src p = Some c)
   | Missed c pool \<Rightarrow> (\<exists>p. pool = Some p \<and> src p = Some c)
   | HasInst c pool i _ \<Rightarrow> (\<exists>p. pool = Some p \<and> src p = Some c) \<and> code i = Some c
   | _ \<Rightarrow> True)"

abbreviation buf :: "'c wasm_state \<Rightarrow> nat \<Rightarrow> nat list" where
  "buf m p \<equiv> pc_buf (wm_chans m p)"

definition reg_inv :: "(nat \<rightharpoonup> 'c) \<Rightarrow> 'c wasm_state \<Rightarrow> bool" where
  "reg_inv src m \<longleftrightarrow>
     (\<forall>n. wm_cache m n = (case wm_pools m n of None \<Rightarrow> None | Some p \<Rightarrow> src p)) \<and>
     (\<forall>n p. wm_pools m n = Some p \<longrightarrow> src p \<noteq> None \<and> p < wm_next_chan m) \<and>
     (\<forall>p. wm_next_chan m \<le> p \<longrightarrow> src p = None)"

definition buf_inv :: "(nat \<rightharpoonup> 'c) \<Rightarrow> 'c wasm_state \<Rightarrow> bool" where
  "buf_inv src m \<longleftrightarrow>
     (\<forall>p i. i \<in> set (buf m p) \<longrightarrow> wm_code m i = src p \<and> src p \<noteq> None) \<and>
     (\<forall>p. distinct (buf m p) \<and> length (buf m p) \<le> 10) \<and>
     (\<forall>p q i. i \<in> set (buf m p) \<longrightarrow> i \<in> set (buf m q) \<longrightarrow> p = q) \<and>
     (\<forall>i. wm_next_inst m \<le> i \<longrightarrow> wm_code m i = None)"

definition run_inv :: "(nat \<rightharpoonup> 'c) \<Rightarrow> 'c wasm_state \<Rightarrow> bool" where
  "run_inv src m \<longleftrightarrow>
     (\<forall>t ph. wm_runs m t = Some ph \<longrightarrow> phase_ok src (wm_code m) ph) \<and>
     (\<forall>t ph i p. wm_runs m t = Some ph \<longrightarrow> i \<in> held_by ph \<longrightarrow> i \<notin> set (buf m p)) \<and>
     (\<forall>t u ph qh i. wm_runs m t = Some ph \<longrightarrow> wm_runs m u = Some qh \<longrightarrow> i \<in> held_by ph \<longrightarrow> i \<in> held_by qh \<longrightarrow> t = u)"

definition wasm_inv :: "(nat \<rightharpoonup> 'c) \<Rightarrow> 'c wasm_state \<Rightarrow> bool" where
  "wasm_inv src m \<longleftrightarrow> reg_inv src m \<and> buf_inv src m \<and> run_inv src m"

lemma wasm_inv_init: "wasm_inv Map.empty wasm_init"
  by (simp add: wasm_inv_def reg_inv_def buf_inv_def run_inv_def wasm_init_def)

lemma inv_regD:
  assumes "wasm_inv src m"
  shows "wm_cache m n = (case wm_pools m n of None \<Rightarrow> None | Some p \<Rightarrow> src p)"
    "wm_pools m n = Some p \<Longrightarrow> (\<exists>c. src p = Some c) \<and> p < wm_next_chan m"
    "wm_next_chan m \<le> p \<Longrightarrow> src p = None"
  using assms unfolding wasm_inv_def reg_inv_def by auto

lemma inv_bufD:
  assumes "wasm_inv src m"
  shows "i \<in> set (buf m p) \<Longrightarrow> wm_code m i = src p \<and> (\<exists>c. src p = Some c)"
    "distinct (buf m p)" "length (buf m p) \<le> 10"
    "i \<in> set (buf m p) \<Longrightarrow> i \<in> set (buf m q) \<Longrightarrow> p = q"
    "wm_next_inst m \<le> i \<Longrightarrow> wm_code m i = None"
  using assms unfolding wasm_inv_def buf_inv_def by auto

lemma inv_runD:
  assumes "wasm_inv src m" "wm_runs m t = Some ph"
  shows "phase_ok src (wm_code m) ph" "i \<in> held_by ph \<Longrightarrow> i \<notin> set (buf m p)"
    "wm_runs m u = Some qh \<Longrightarrow> i \<in> held_by ph \<Longrightarrow> i \<in> held_by qh \<Longrightarrow> t = u"
  using assms unfolding wasm_inv_def run_inv_def by blast+

text \<open>
  A new phase for one call, over a state that differs in pools, channels or instances: the rule
  from which every step follows.
\<close>

lemma wasm_inv_phase:
  assumes "reg_inv src m" "buf_inv src m"
    and "\<And>u qh. u \<noteq> t \<Longrightarrow> wm_runs m u = Some qh \<Longrightarrow> phase_ok src (wm_code m) qh"
    and "\<And>u qh i p. u \<noteq> t \<Longrightarrow> wm_runs m u = Some qh \<Longrightarrow> i \<in> held_by qh \<Longrightarrow> i \<notin> set (buf m p) \<and> i \<notin> held_by ph"
    and "\<And>u v qh rh i. u \<noteq> t \<Longrightarrow> v \<noteq> t \<Longrightarrow> wm_runs m u = Some qh \<Longrightarrow> wm_runs m v = Some rh \<Longrightarrow> i \<in> held_by qh \<Longrightarrow> i \<in> held_by rh \<Longrightarrow> u = v"
    and "phase_ok src (wm_code m) ph" and "\<And>i p. i \<in> held_by ph \<Longrightarrow> i \<notin> set (buf m p)"
  shows "wasm_inv src (set_run t ph m)"
proof -
  have "run_inv src (set_run t ph m)"
    unfolding run_inv_def set_run_def using assms(3-7)
    by (auto split: if_splits)
  moreover have "reg_inv src (set_run t ph m)" "buf_inv src (set_run t ph m)"
    using assms(1,2) by (simp_all add: reg_inv_def buf_inv_def set_run_def)
  ultimately show ?thesis by (simp add: wasm_inv_def)
qed

lemma wasm_inv_drop:
  assumes "wasm_inv src m" "held_by ph = {}" "phase_ok src (wm_code m) ph"
  shows "wasm_inv src (set_run t ph m)"
  using assms(2,3) inv_runD[OF assms(1)] assms(1) by (intro wasm_inv_phase) (auto simp: wasm_inv_def)

lemma wasm_inv_lookup:
  assumes "wasm_inv src m"
  shows "wasm_inv src (run_lookup t name m)"
proof (cases "wm_pools m name")
  case None
  then show ?thesis using assms inv_regD(1)[OF assms, of name]
    by (auto simp: run_lookup_def phase_ok_def held_by_def intro!: wasm_inv_drop)
next
  case (Some p)
  then show ?thesis using assms inv_regD(1,2)[OF assms, of name]
    by (auto simp: run_lookup_def phase_ok_def held_by_def intro!: wasm_inv_drop)
qed

text \<open>Taking an instance out of a pool.\<close>

lemma wasm_inv_take:
  assumes inv: "wasm_inv src m" and t: "wm_runs m t = Some (Looked c pool)"
  shows "wasm_inv src (run_take t c pool m)"
proof -
  from inv_runD(1)[OF inv t] obtain p where p: "pool = Some p" "src p = Some c" by (auto simp: phase_ok_def)
  show ?thesis
  proof (cases "buf m p")
    case Nil
    with p inv show ?thesis
      by (auto simp: run_take_def phase_ok_def held_by_def intro!: wasm_inv_drop)
  next
    case (Cons i rest)
    let ?m = "m\<lparr>wm_chans := (wm_chans m)(p := (wm_chans m p)\<lparr>pc_buf := rest\<rparr>)\<rparr>"
    have eq: "run_take t c pool m = set_run t (HasInst c pool i True) ?m" using p Cons by (simp add: run_take_def)
    have sub: "x \<in> set (buf m q)" if "x \<in> set (buf ?m q)" for x q using Cons that by (auto split: if_splits)
    have ib: "i \<in> set (buf m p)" using Cons by simp
    have "distinct (i # rest)" using inv_bufD(2)[OF inv, of p] Cons by metis
    then have i: "i \<notin> set (buf ?m q)" for q
    proof (cases "q = p")
      case False
      then show ?thesis using inv_bufD(4)[OF inv ib, of q] by auto
    qed simp
    have "buf_inv src ?m"
      unfolding buf_inv_def
    proof (intro conjI allI impI)
      fix q x assume "x \<in> set (buf ?m q)"
      from inv_bufD(1)[OF inv sub[OF this]] show "wm_code ?m x = src q" "src q \<noteq> None" by auto
    next
      fix q show "distinct (buf ?m q)" "length (buf ?m q) \<le> 10"
        using inv_bufD(2,3)[OF inv, of q] Cons by auto
    next
      fix q q' x assume "x \<in> set (buf ?m q)" "x \<in> set (buf ?m q')"
      then show "q = q'" using inv_bufD(4)[OF inv] sub by blast
    qed (use inv_bufD(5)[OF inv] in simp)
    moreover have "reg_inv src ?m" using inv by (simp add: wasm_inv_def reg_inv_def)
    moreover have "held_by (HasInst c pool i True) = {i}" by (simp add: held_by_def)
    moreover have "phase_ok src (wm_code ?m) (HasInst c pool i True)"
      using inv_bufD(1)[OF inv ib] p by (simp add: phase_ok_def)
    moreover have "x \<notin> set (buf ?m q) \<and> x \<noteq> i" if "wm_runs m u = Some qh" "x \<in> held_by qh" for u qh x q
      using inv_runD(2)[OF inv that] sub ib by blast
    ultimately show ?thesis unfolding eq
      using inv_runD(1,3)[OF inv] i by (intro wasm_inv_phase) (simp, simp, simp, simp, simp, simp, simp)
  qed
qed

lemma phase_ok_mono: "phase_ok src code ph \<Longrightarrow> src \<subseteq>\<^sub>m src' \<Longrightarrow> code \<subseteq>\<^sub>m code' \<Longrightarrow> phase_ok src' code' ph"
  by (auto simp: phase_ok_def map_le_def dom_def split: run_phase.splits)

lemma wasm_inv_instantiate:
  assumes inv: "wasm_inv src m" and t: "wm_runs m t = Some (Missed c pool)"
  shows "wasm_inv src (run_instantiate t c pool m)"
proof -
  let ?i = "wm_next_inst m"
  let ?m = "m\<lparr>wm_code := (wm_code m)(?i \<mapsto> c), wm_next_inst := ?i + 1\<rparr>"
  have new: "wm_code m ?i = None" using inv_bufD(5)[OF inv] by simp
  then have le: "wm_code m \<subseteq>\<^sub>m wm_code ?m" by (auto simp: map_le_def)
  have nb: "?i \<notin> set (buf m q)" for q using inv_bufD(1)[OF inv, of ?i q] new by auto
  have nh: "?i \<notin> held_by qh" if "wm_runs m u = Some qh" for u qh
    using inv_runD(1)[OF inv that] new by (auto simp: phase_ok_def held_by_def split: run_phase.splits)
  have "buf_inv src ?m"
    using inv_bufD[OF inv] nb unfolding buf_inv_def by (auto simp: less_Suc_eq_le Suc_le_eq)
  moreover have "reg_inv src ?m" using inv by (simp add: wasm_inv_def reg_inv_def)
  moreover have "held_by (HasInst c pool ?i False) = {?i}" by (simp add: held_by_def)
  moreover have "phase_ok src (wm_code ?m) (HasInst c pool ?i False)"
    using inv_runD(1)[OF inv t] by (simp add: phase_ok_def)
  moreover have "phase_ok src (wm_code ?m) qh" if "wm_runs m u = Some qh" for u qh
    using phase_ok_mono[OF inv_runD(1)[OF inv that] map_le_refl le] .
  ultimately show ?thesis
    unfolding run_instantiate_def
    using inv_runD(2,3)[OF inv] nb nh by (intro wasm_inv_phase) (simp, simp, simp, fastforce, simp, simp, simp)
qed

text \<open>Putting an instance back.\<close>

lemma wasm_inv_return:
  assumes inv: "wasm_inv src m" and t: "wm_runs m t = Some (HasInst c pool i re)"
  shows "wasm_inv src (run_return t pool i m)"
proof -
  from inv_runD(1)[OF inv t] obtain p where p: "pool = Some p" "src p = Some c" "wm_code m i = Some c"
    by (auto simp: phase_ok_def)
  have fin: "held_by (Finished :: 'a run_phase) = {}" "held_by (PanickedSend :: 'a run_phase) = {}"
    "phase_ok src (wm_code m) Finished" "phase_ok src (wm_code m) PanickedSend"
    by (simp_all add: held_by_def phase_ok_def)
  show ?thesis
  proof (cases "pc_closed (wm_chans m p) \<or> 10 \<le> length (buf m p)")
    case True
    then show ?thesis using wasm_inv_drop[OF inv] fin p by (auto simp: run_return_def)
  next
    case False
    let ?m = "m\<lparr>wm_chans := (wm_chans m)(p := (wm_chans m p)\<lparr>pc_buf := buf m p @ [i]\<rparr>)\<rparr>"
    have eq: "run_return t pool i m = set_run t Finished ?m" using p False by (simp add: run_return_def)
    have nb: "i \<notin> set (buf m q)" for q using inv_runD(2)[OF inv t] by (simp add: held_by_def)
    have mem: "x \<in> set (buf ?m q) \<longleftrightarrow> x \<in> set (buf m q) \<or> (x = i \<and> q = p)" for x q by auto
    have "buf_inv src ?m"
      unfolding buf_inv_def
    proof (intro conjI allI impI)
      fix q x assume "x \<in> set (buf ?m q)"
      then show "wm_code ?m x = src q" "src q \<noteq> None"
        unfolding mem using inv_bufD(1)[OF inv, of x q] p by auto
    next
      fix q show "distinct (buf ?m q)" "length (buf ?m q) \<le> 10"
        using inv_bufD(2,3)[OF inv, of q] False nb[of q] by auto
    next
      fix q q' x assume "x \<in> set (buf ?m q)" "x \<in> set (buf ?m q')"
      then show "q = q'" unfolding mem using inv_bufD(4)[OF inv] nb by blast
    qed (use inv_bufD(5)[OF inv] in simp)
    moreover have "reg_inv src ?m" using inv by (simp add: wasm_inv_def reg_inv_def)
    moreover have "x \<notin> set (buf ?m q)" if "u \<noteq> t" "wm_runs m u = Some qh" "x \<in> held_by qh" for u qh x q
      unfolding mem using inv_runD(2)[OF inv that(2,3)] inv_runD(3)[OF inv that(2) t that(3)] that(1) by (auto simp: held_by_def)
    ultimately show ?thesis unfolding eq
      using inv_runD(1,3)[OF inv] fin by (intro wasm_inv_phase) (simp, simp, simp, simp, simp, simp, simp)
  qed
qed

text \<open>Registering a module: the new pool belongs to the new module.\<close>

lemma Register_simps:
  "wm_cache (Register name c m) = (wm_cache m)(name \<mapsto> c)"
  "wm_pools (Register name c m) = (wm_pools m)(name \<mapsto> wm_next_chan m)"
  "wm_next_chan (Register name c m) = wm_next_chan m + 1"
  "wm_code (Register name c m) = wm_code m" "wm_next_inst (Register name c m) = wm_next_inst m"
  "wm_runs (Register name c m) = wm_runs m"
  by (simp_all add: Register_def Let_def split: option.splits)

lemma Register_buf: "set (buf (Register name c m) p) \<subseteq> set (buf m p)" "buf (Register name c m) p = [] \<or> buf (Register name c m) p = buf m p"
  by (auto simp: Register_def Let_def split: option.splits if_splits)

lemma wasm_inv_register:
  assumes inv: "wasm_inv src m"
  shows "wasm_inv (src(wm_next_chan m \<mapsto> c)) (Register name c m)"
proof -
  let ?m = "Register name c m" and ?s = "src(wm_next_chan m \<mapsto> c)"
  have le: "src \<subseteq>\<^sub>m ?s" using inv_regD(3)[OF inv] by (auto simp: map_le_def)
  have sub: "i \<in> set (buf ?m p) \<Longrightarrow> i \<in> set (buf m p)" for i p by (rule subsetD[OF Register_buf(1)])
  have old: "?s p = src p" if "src p \<noteq> None" for p using that inv_regD(3)[OF inv, of p] by auto
  have "reg_inv ?s ?m"
    using inv_regD[OF inv] unfolding reg_inv_def Register_simps
    by (auto split: option.splits) (metis less_irrefl_nat less_SucI)+
  moreover have "buf_inv ?s ?m"
    unfolding buf_inv_def Register_simps
  proof (intro conjI allI impI)
    fix q x assume "x \<in> set (buf ?m q)"
    then have "x \<in> set (buf m q)" by (rule subsetD[OF Register_buf(1)])
    from inv_bufD(1)[OF inv this] show "wm_code m x = ?s q" "?s q \<noteq> None" using old[of q] by auto
  next
    fix q show "distinct (buf ?m q)" "length (buf ?m q) \<le> 10"
      using Register_buf(2)[of name c m q] inv_bufD(2,3)[OF inv, of q] by auto
  next
    fix q q' x assume "x \<in> set (buf ?m q)" "x \<in> set (buf ?m q')"
    then show "q = q'" using inv_bufD(4)[OF inv, of x q q'] sub by blast
  qed (use inv_bufD(5)[OF inv] in simp)
  moreover have "run_inv ?s ?m"
    unfolding run_inv_def Register_simps
    using inv_runD[OF inv] phase_ok_mono[OF _ le map_le_refl] sub by blast
  ultimately show ?thesis by (simp add: wasm_inv_def)
qed

lemma wasm_inv_step:
  assumes "wasm_step m m'" "wasm_inv src m"
  shows "\<exists>src'. src \<subseteq>\<^sub>m src' \<and> wasm_inv src' m'"
  using assms
proof (induction rule: wasm_step.induct)
  case (register m name compiled)
  have "src \<subseteq>\<^sub>m src(wm_next_chan m \<mapsto> compiled)"
    using inv_regD(3)[OF register, of "wm_next_chan m"] by (auto simp: map_le_def)
  with wasm_inv_register[OF register] show ?case by blast
qed (auto intro!: exI[of _ src] wasm_inv_lookup wasm_inv_take wasm_inv_instantiate wasm_inv_return wasm_inv_drop
      simp: held_by_def phase_ok_def)

lemma wasm_reach_inv: "wasm_reach m \<Longrightarrow> \<exists>src. wasm_inv src m"
proof (induction rule: wasm_reach.induct)
  case init
  then show ?case using wasm_inv_init by blast
next
  case (step m m')
  then show ?case using wasm_inv_step by blast
qed

section \<open>A call keeps its module\<close>

fun runs_module :: "'c \<Rightarrow> 'c run_phase \<Rightarrow> bool" where
  "runs_module c (Looked c' _) = (c' = c)"
| "runs_module c (Missed c' _) = (c' = c)"
| "runs_module c (HasInst c' _ _ _) = (c' = c)"
| "runs_module c Finished = True"
| "runs_module c PanickedSend = True"

lemma set_run_runs [simp]: "wm_runs (set_run t ph m) = (wm_runs m)(t \<mapsto> ph)"
  by (simp add: set_run_def)

lemmas run_step_defs = run_lookup_def run_take_def run_instantiate_def run_return_def

lemma keeps_module_step:
  "wasm_step m m' \<Longrightarrow> wm_runs m t = Some ph \<Longrightarrow> runs_module c ph \<Longrightarrow> \<exists>ph'. wm_runs m' t = Some ph' \<and> runs_module c ph'"
  by (induction rule: wasm_step.induct) (auto simp: Register_simps run_step_defs split: option.splits list.splits)

lemma keeps_module:
  "wasm_step\<^sup>*\<^sup>* m m' \<Longrightarrow> wm_runs m t = Some ph \<Longrightarrow> runs_module c ph \<Longrightarrow> \<exists>ph'. wm_runs m' t = Some ph' \<and> runs_module c ph'"
  by (induction rule: rtranclp_induct) (auto dest: keeps_module_step)

lemma wasm_reach_steps: "wasm_step\<^sup>*\<^sup>* m m' \<Longrightarrow> wasm_reach m \<Longrightarrow> wasm_reach m'"
  by (induction rule: rtranclp_induct) (auto intro: wasm_reach.step)

text \<open>Every step but a registration of \<open>name\<close>; none of them touches what is registered under it.\<close>

definition other_step :: "string \<Rightarrow> 'c wasm_state \<Rightarrow> 'c wasm_state \<Rightarrow> bool" where
  "other_step name m m' \<longleftrightarrow> wasm_step m m' \<and> (\<nexists>c. m' = Register name c m)"

lemma set_run_tables [simp]: "wm_cache (set_run t ph m) = wm_cache m" "wm_pools (set_run t ph m) = wm_pools m"
  by (simp_all add: set_run_def)

lemma other_step_keeps:
  assumes "other_step name m m'"
  shows "wm_cache m' name = wm_cache m name \<and> wm_pools m' name = wm_pools m name"
proof -
  have "wasm_step m m'" using assms by (simp add: other_step_def)
  then show ?thesis
  proof cases
    case (register n c)
    with assms have "n \<noteq> name" by (auto simp: other_step_def)
    with register show ?thesis by (simp add: Register_simps)
  qed (auto simp: run_step_defs split: option.splits list.splits)
qed

lemma other_steps_keep:
  "(other_step name)\<^sup>*\<^sup>* m m' \<Longrightarrow> wm_cache m' name = wm_cache m name \<and> wm_pools m' name = wm_pools m name"
  by (induction rule: rtranclp_induct) (auto dest: other_step_keeps)

lemma other_steps_reach: "(other_step name)\<^sup>*\<^sup>* m m' \<Longrightarrow> wasm_reach m \<Longrightarrow> wasm_reach m'"
  by (induction rule: rtranclp_induct) (auto simp: other_step_def intro: wasm_reach.step)

section \<open>Properties\<close>

text \<open>C26: in every state that concurrent calls and registrations can reach, no instance is used by
  two calls at once, none is in a pool and in use, none is in two pools, and no pool holds more
  than ten.\<close>

theorem wasm_instances_exclusive:
  assumes "wasm_reach m"
  shows "(wm_runs m t = Some (HasInst c p i r) \<longrightarrow> wm_runs m u = Some (HasInst c' p' i r') \<longrightarrow> t = u) \<and>
    (wm_runs m t = Some (HasInst c p i r) \<longrightarrow> i \<notin> set (pc_buf (wm_chans m q))) \<and>
    (i \<in> set (pc_buf (wm_chans m q)) \<longrightarrow> i \<in> set (pc_buf (wm_chans m q')) \<longrightarrow> q = q') \<and>
    distinct (pc_buf (wm_chans m q)) \<and> length (pc_buf (wm_chans m q)) \<le> 10"
proof -
  obtain src where inv: "wasm_inv src m" using wasm_reach_inv[OF assms] by blast
  have h: "held_by (HasInst d p j r) = {j}" for d :: 'a and p j r by (simp add: held_by_def)
  show ?thesis
    using inv_runD(2)[OF inv, of t "HasInst c p i r" i q] inv_runD(3)[OF inv, of t "HasInst c p i r" u "HasInst c' p' i r'" i]
      inv_bufD(2,3)[OF inv, of q] inv_bufD(4)[OF inv, of i q q'] by (simp add: h)
qed

theorem wasm_instances_exclusive_witness:
  "length (pc_buf (wm_chans (Register ''f'' (1 :: nat) wasm_init) 0)) \<le> 10"
  using wasm_instances_exclusive[OF wasm_reach.step[OF wasm_reach.init wasm_step.register[of _ "''f''" 1]]] by blast

text \<open>C27: hot swap: a call that looks up \<open>name\<close> after \<^verbatim>\<open>Register name c\<close> has returned, any steps of
  other calls and registrations of other names having come in between but no further registration
  of \<open>name\<close>, finds \<open>c\<close>; and if it then obtains an instance, new or pooled, it is an instance of \<open>c\<close>,
  whatever calls and registrations, also of \<open>name\<close>, are interleaved from the lookup on.\<close>

theorem wasm_hot_swap:
  assumes "wasm_reach m" and "(other_step name)\<^sup>*\<^sup>* (Register name c m) m1" and "wm_runs m1 t = None"
    and "wasm_step\<^sup>*\<^sup>* (run_lookup t name m1) m2"
  shows "(\<exists>pool. wm_runs (run_lookup t name m1) t = Some (Looked c pool)) \<and>
    (wm_runs m2 t = Some (HasInst c' pool i reused) \<longrightarrow> c' = c \<and> wm_code m2 i = Some c)"
proof -
  let ?m = "run_lookup t name m1"
  have l: "?m = set_run t (Looked c (Some (wm_next_chan m))) m1"
    using other_steps_keep[OF assms(2)] by (simp add: run_lookup_def Register_simps)
  have "wasm_reach m1"
    using other_steps_reach[OF assms(2)] wasm_reach.step[OF assms(1) wasm_step.register] by blast
  then have "wasm_reach ?m" using assms(3) by (intro wasm_reach.step[OF _ wasm_step.lookup])
  then obtain src where inv: "wasm_inv src m2" using wasm_reach_steps[OF assms(4)] wasm_reach_inv by blast
  have "c' = c \<and> wm_code m2 i = Some c" if h: "wm_runs m2 t = Some (HasInst c' pool i reused)"
    using keeps_module[OF assms(4), of t "Looked c (Some (wm_next_chan m))" c] inv_runD(1)[OF inv h] h
    by (simp add: l phase_ok_def)
  then show ?thesis by (simp add: l)
qed

theorem wasm_hot_swap_witness:
  "wm_code (run_instantiate 0 (7 :: nat) (Some 0)
     (run_take 0 7 (Some 0) (run_lookup 0 ''f'' (Register ''g'' 8 (Register ''f'' 7 wasm_init))))) 0 = Some 7"
proof -
  let ?r = "Register ''f'' (7 :: nat) wasm_init"
  let ?m = "Register ''g'' 8 ?r"
  let ?a = "run_lookup 0 ''f'' ?m"
  let ?b = "run_take 0 7 (Some 0) ?a"
  have "wm_pools ?m ''f'' \<noteq> wm_pools (Register ''f'' c ?r) ''f''" for c by (simp add: Register_simps wasm_init_def)
  then have "?m \<noteq> Register ''f'' c ?r" for c by metis
  then have o: "(other_step ''f'')\<^sup>*\<^sup>* ?r ?m"
    by (intro r_into_rtranclp) (simp add: other_step_def wasm_step.register)
  have a: "wm_runs ?a 0 = Some (Looked 7 (Some 0))" by (simp add: run_lookup_def Register_simps wasm_init_def)
  have e: "pc_buf (wm_chans ?a 0) = []" by (simp add: run_lookup_def Register_def wasm_init_def set_run_def)
  then have b: "wm_runs ?b 0 = Some (Missed 7 (Some 0))" by (simp add: run_take_def)
  have i: "wm_next_inst ?b = 0" using e by (simp add: run_take_def run_lookup_def Register_simps wasm_init_def set_run_def)
  have st: "wasm_step\<^sup>*\<^sup>* ?a (run_instantiate 0 7 (Some 0) ?b)"
    using wasm_step.take[OF a] wasm_step.instantiate[OF b] by (meson converse_rtranclp_into_rtranclp rtranclp.rtrancl_refl)
  have h: "wm_runs (run_instantiate 0 7 (Some 0) ?b) 0 = Some (HasInst 7 (Some 0) 0 False)"
    by (simp add: run_instantiate_def i)
  have n: "wm_runs ?m 0 = None" by (simp add: Register_simps wasm_init_def)
  show ?thesis using wasm_hot_swap[OF wasm_reach.init o n st] h by blast
qed

text \<open>The swap is not safe for calls already running: a call that obtained its instance before a
  re-registration panics when it sends the instance back, because the pool channel it holds has
  been closed.\<close>

theorem wasm_reregister_panics:
  assumes "wasm_reach m" and "wm_pools m name = Some p" and "wm_runs m t = Some (HasInst c (Some p) i reused)"
  shows "wasm_reach (run_return t (Some p) i (Register name c' m)) \<and>
    wm_runs (run_return t (Some p) i (Register name c' m)) t = Some PanickedSend"
proof -
  obtain src where inv: "wasm_inv src m" using wasm_reach_inv[OF assms(1)] by blast
  have "p < wm_next_chan m" using inv_regD(2)[OF inv assms(2)] by simp
  then have "pc_closed (wm_chans (Register name c' m) p)" using assms(2) by (simp add: Register_def Let_def)
  moreover have "wasm_reach (run_return t (Some p) i (Register name c' m))"
    by (intro wasm_reach.step[OF wasm_reach.step[OF assms(1) wasm_step.register[of m name c']]] wasm_step.return)
      (use assms(3) in \<open>simp add: Register_simps\<close>)
  ultimately show ?thesis by (simp add: run_return_def)
qed

theorem wasm_reregister_panics_witness:
  "\<exists>m :: nat wasm_state. wasm_reach m \<and> wm_runs m 0 = Some PanickedSend"
proof -
  let ?r = "Register ''f'' (7 :: nat) wasm_init"
  let ?a = "run_lookup 0 ''f'' ?r"
  let ?b = "run_take 0 7 (Some 0) ?a"
  let ?c = "run_instantiate 0 7 (Some 0) ?b"
  have a: "wm_runs ?a 0 = Some (Looked 7 (Some 0))" by (simp add: run_lookup_def Register_simps wasm_init_def)
  have e: "pc_buf (wm_chans ?a 0) = []" by (simp add: run_lookup_def Register_def wasm_init_def set_run_def)
  then have b: "wm_runs ?b 0 = Some (Missed 7 (Some 0))" by (simp add: run_take_def)
  have r: "wasm_reach ?r" by (rule wasm_reach.step[OF wasm_reach.init wasm_step.register])
  have n: "wm_runs ?r 0 = None" by (simp add: Register_simps wasm_init_def)
  have c: "wasm_reach ?c"
    by (rule wasm_reach.step[OF wasm_reach.step[OF wasm_reach.step[OF r wasm_step.lookup[OF n]] wasm_step.take[OF a]]
          wasm_step.instantiate[OF b]])
  have pl: "wm_pools ?c ''f'' = Some 0"
    using e by (simp add: run_instantiate_def run_take_def run_lookup_def Register_simps wasm_init_def set_run_def)
  have ru: "wm_runs ?c 0 = Some (HasInst 7 (Some 0) (wm_next_inst ?b) False)" by (simp add: run_instantiate_def)
  from wasm_reregister_panics[OF c pl ru, of 8] show ?thesis by blast
qed

end
