(* ===== verification/Serve_Access.thy ===== *)
theory Serve_Access
  imports Gateway Framing Validation Openapi Wasm_Runner
begin

text \<open>
  \<^verbatim>\<open>ServeHTTP\<close> of handler.go, first half: everything that decides whether a request may pass.
  The handler is one long function with early returns; it is cut here at its own section
  comments into stages of type \<open>serve \<Rightarrow> flow\<close>, composed by \<open>bind\<close> in the order of the source.

  \<open>serve\<close> holds the handler, the response writer, the request and the local variables of the
  function. \<open>Halt\<close> is an early return, \<open>Cont\<close> falls through to the next section, \<open>Crash\<close> is a
  run-time panic. What lies outside the repository (the environment, clocks, JSON, the network)
  is the record \<open>serve_env\<close>.
\<close>

section \<open>Environment\<close>

datatype plugin_outcome = PluginError request | PluginResponse response | PluginPass request

record 'ip serve_env =
  getenv :: "string \<Rightarrow> string"
  clock :: "nat \<Rightarrow> time"
  redis :: "nat \<Rightarrow> redis_conn option"
  jwt :: jwt_env
  roles_of :: "string \<Rightarrow> string list option"
  ip_lib :: "'ip net_env"
  split_host_port :: "string \<Rightarrow> string option"
  json_of :: "string \<Rightarrow> json option"
  json_text :: "json \<Rightarrow> string option"
  float_oob :: "rat \<Rightarrow> int"
  error_text :: "APIError \<Rightarrow> string"
  tenants_text :: "(string \<times> TenantPolicy) list \<Rightarrow> string"
  tenant_of :: "string \<Rightarrow> string + TenantPolicy"
  schema_of :: "string \<Rightarrow> PolicySchema option"
  registry :: "string \<Rightarrow> string \<Rightarrow> (bool \<times> string list) option"
  mcp_call :: "string \<Rightarrow> (string \<times> string \<times> json) option"
  acquire :: "BackpressureLimiter \<Rightarrow> acquire_error option"
  span_ids :: "(string \<times> string) option"
  sha_hex :: "string \<Rightarrow> string"
  pii_patterns :: "(string \<Rightarrow> string) list"
  wasm_run :: "string \<Rightarrow> string \<Rightarrow> string + string"
  plugin_request :: "string \<Rightarrow> (request \<Rightarrow> plugin_outcome) option"
  plugin_response :: "string \<Rightarrow> (request \<Rightarrow> StatusRecordingResponseWriter \<Rightarrow> response \<Rightarrow>
    string option \<times> StatusRecordingResponseWriter \<times> response) option"
  intn :: "int \<Rightarrow> int"
  queue_of :: "string \<Rightarrow> string option"
  queue_post :: "string \<Rightarrow> http_header \<Rightarrow> string \<Rightarrow> (int \<times> string) option"
  request_url_ok :: "string \<Rightarrow> bool"
  parse_url :: "string \<Rightarrow> target_url option"
  scan_int :: "string \<Rightarrow> int option"
  hijack :: "bool option"
  hijack_error :: string
  dial_ok :: "string \<Rightarrow> bool"
  request_uri :: "request \<Rightarrow> string"
  proto :: string
  read_error :: "response \<Rightarrow> string option"
  upstream :: "target_url \<Rightarrow> mtls_transport option \<Rightarrow> request \<Rightarrow> transport"

text \<open>
  \<open>clock i\<close> is the \<open>i\<close>-th reading of the clock during the request (0 is \<^verbatim>\<open>start\<close>);
  \<open>redis i\<close> the answer of Redis to the \<open>i\<close>-th rate-limit question. \<open>upstream\<close> is the round trip of the
  reverse proxy up to and including the removal of hop-by-hop headers, \<open>read_error\<close> the error of reading an answer's body. \<open>plugin_request\<close> and
  \<open>plugin_response\<close> are the registered Go plugins' \<^verbatim>\<open>OnRequest\<close> and \<^verbatim>\<open>OnResponse\<close>, which
  may change what they are handed; \<open>wasm_run\<close> is \<^verbatim>\<open>WasmRunner.Run\<close>, whose pool is modelled
  in \<open>Wasm_Runner\<close>; \<open>mcp_call\<close> decodes the method, the tool and the id of a JSON-RPC call; \<open>acquire\<close> is the answer of the limiter, modelled in \<open>Backpressure\<close>.

  \<open>forwarded\<close> is what the gateway hands to the outside for a request: it is forwarded to an
  upstream, a queue or a tunnel (\<open>forwards\<close>), and before that its body may be posted to the schema
  registry. Commands to Redis, which carry the key of a limiter, are not among them.
\<close>

datatype forwarded =
    ToUpstream string request "string list"
  | ToQueue string http_header string
  | ToTunnel ws_proxy_outcome
  | ToRegistry string string

definition forwards :: "forwarded list \<Rightarrow> forwarded list" where
  "forwards out = filter (\<lambda>f. case f of ToRegistry _ _ \<Rightarrow> False | _ \<Rightarrow> True) out"

lemma forwards_simps [simp]:
  "forwards [] = []" "forwards (out @ out') = forwards out @ forwards out'" "forwards [ToRegistry u b] = []"
  "forwards [ToUpstream t r sent] = [ToUpstream t r sent]"
  by (simp_all add: forwards_def)

record serve =
  sv_h :: GatewayHandler
  sv_w :: response_writer
  sv_r :: request
  sv_route :: Route
  sv_clientIP :: string
  sv_traceparent :: string
  sv_traceID :: string
  sv_cacheKey :: "string option"
  sv_reqBody :: string
  sv_target :: string
  sv_out :: "forwarded list"
  sv_log :: "LogEntry list"

datatype flow = Halt serve | Cont serve | Crash go_panic serve

fun bind :: "flow \<Rightarrow> (serve \<Rightarrow> flow) \<Rightarrow> flow" where
  "bind (Halt s) f = Halt s"
| "bind (Cont s) f = f s"
| "bind (Crash p s) f = Crash p s"

fun stages :: "(serve \<Rightarrow> flow) list \<Rightarrow> serve \<Rightarrow> flow" where
  "stages [] s = Cont s"
| "stages (f # fs) s = bind (f s) (stages fs)"

definition error_response :: "'ip serve_env \<Rightarrow> string \<Rightarrow> string \<Rightarrow> int \<Rightarrow> serve \<Rightarrow> serve" where
  "error_response env msg code status s = s\<lparr>sv_w := WriteJSONError (error_text env) (sv_r s) msg code status (sv_w s)\<rparr>"

text \<open>\<^verbatim>\<open>http.Error\<close>.\<close>

definition http_Error :: "string \<Rightarrow> int \<Rightarrow> response_writer \<Rightarrow> response_writer" where
  "http_Error msg status w = w_Write (msg @ [CHR 0x0A])
     (w_WriteHeader status (w_Set ''X-Content-Type-Options'' ''nosniff'' (w_Set ''Content-Type'' ''text/plain; charset=utf-8'' w)))"

text \<open>\<^verbatim>\<open>json.Marshal\<close> with its error dropped, and \<^verbatim>\<open>json.NewEncoder(w).Encode\<close>, which adds a newline.\<close>

definition Marshal :: "'ip serve_env \<Rightarrow> json \<Rightarrow> string" where
  "Marshal env v = (case json_text env v of Some t \<Rightarrow> t | None \<Rightarrow> [])"

definition Encode :: "'ip serve_env \<Rightarrow> json \<Rightarrow> string" where
  "Encode env v = (case json_text env v of Some t \<Rightarrow> t @ [CHR 0x0A] | None \<Rightarrow> [])"

definition count_error :: "serve \<Rightarrow> serve" where
  "count_error s = s\<lparr>sv_h := (sv_h s)\<lparr>metricsTracker := IncError (metricsTracker (sv_h s))\<rparr>\<rparr>"

section \<open>Built-in endpoints\<close>

definition stage_count :: "serve \<Rightarrow> flow" where
  "stage_count s = Cont (s\<lparr>sv_h := (sv_h s)\<lparr>metricsTracker := IncRequest (metricsTracker (sv_h s))\<rparr>\<rparr>)"

definition stage_tenants :: "'ip serve_env \<Rightarrow> serve \<Rightarrow> flow" where
  "stage_tenants env s =
     (if rq_Path (sv_r s) = ''/api/tenants/policies'' then
        (if rq_Method (sv_r s) = ''GET'' then
           Halt (s\<lparr>sv_w := w_Write (tenants_text env (tenantPolicies (sv_h s))) (w_Set ''Content-Type'' ''application/json'' (sv_w s))\<rparr>)
         else if rq_Method (sv_r s) = ''POST'' then
           (case tenant_of env (fst (ReadAll (rq_Body (sv_r s)))) of
              Inl err \<Rightarrow> Halt (s\<lparr>sv_w := http_Error err 400 (sv_w s)\<rparr>)
            | Inr policy \<Rightarrow>
                if tp_TenantID policy = [] then Halt (s\<lparr>sv_w := http_Error ''tenant_id required'' 400 (sv_w s)\<rparr>)
                else Halt (s\<lparr>sv_h := (sv_h s)\<lparr>tenantPolicies := AList.update (tp_TenantID policy) policy (tenantPolicies (sv_h s))\<rparr>,
                             sv_w := w_WriteHeader 201 (sv_w s)\<rparr>))
         else Cont s)
      else Cont s)"

definition stage_policy_reload :: "'ip serve_env \<Rightarrow> serve \<Rightarrow> flow" where
  "stage_policy_reload env s =
     (let h = sv_h s; r = sv_r s in
      if rq_Path r = ''/api/v1/admin/policy/reload'' then
        (if authToken h \<noteq> [] \<and> Header_Get (rq_Header r) ''Authorization'' \<noteq> ''Bearer '' @ authToken h
         then Halt (error_response env ''Unauthorized'' ''ERR_UNAUTHORIZED'' 401 s)
         else if rq_Method r \<noteq> ''POST''
         then Halt (error_response env ''Method not allowed'' ''ERR_METHOD_NOT_ALLOWED'' 405 s)
         else
           (let (bodyBytes, ok, _) = ReadAll (rq_Body r);
                h = (if ok \<and> bodyBytes \<noteq> [] then (case schema_of env bodyBytes of
                        Some schema \<Rightarrow> UpdatePolicySchema (Some schema) h | None \<Rightarrow> h) else h);
                h = h\<lparr>session := IncrementPolicyVersion (session h)\<rparr>
            in Halt (s\<lparr>sv_h := h,
                 sv_w := w_Write (Encode env (JObj [(''status'', JStr ''success''), (''message'', JStr ''Policy schema updated'')]))
                   (w_WriteHeader 200 (w_Set ''Content-Type'' ''application/json'' (sv_w s)))\<rparr>)))
      else Cont s)"

text \<open>
  \<^verbatim>\<open>handleGovernanceCheck\<close>: the score and the warnings. The score is computed in \<^verbatim>\<open>int\<close>; it
  starts at 100 and is lowered by at most 15 per route.
\<close>

definition governance_route :: "Route \<Rightarrow> int \<times> string list \<Rightarrow> int \<times> string list" where
  "governance_route route acc =
     (let (score, warnings) = acc;
          (score, warnings) = (if \<not> RequireAPIKey route
             then (score - 10, warnings @ [''Route prefix '' @ Prefix route @ '' does not require API key''])
             else (score, warnings))
      in if MaxBodySize route \<le> 0
         then (score - 5, warnings @ [''Route prefix '' @ Prefix route @ '' has default unlimited max body size''])
         else (score, warnings))"

definition governance_score :: "GatewayHandler \<Rightarrow> int \<times> string list" where
  "governance_score h =
     (let acc = (if authToken h = [] then (80, [''Gateway authToken is disabled (no global auth token)'']) else (100, []));
          (score, warnings) = fold governance_route (routes h) acc
      in (if score < 0 then 0 else score, warnings))"

text \<open>The warnings start as the nil slice, which is encoded as \<^verbatim>\<open>null\<close>.\<close>

definition governance_doc :: "int \<Rightarrow> string list \<Rightarrow> json" where
  "governance_doc score warnings = JObj [(''compliance_score'', JNum (of_int score)),
     (''warnings'', if warnings = [] then JNull else JArr (map JStr warnings)), (''status'', JStr ''evaluated'')]"

definition stage_governance :: "'ip serve_env \<Rightarrow> serve \<Rightarrow> flow" where
  "stage_governance env s =
     (if rq_Path (sv_r s) = ''/api/v1/governance/check'' then
        (if rq_Method (sv_r s) \<noteq> ''GET'' then Halt (error_response env ''Method not allowed'' ''ERR_METHOD_NOT_ALLOWED'' 405 s)
         else (let (score, warnings) = governance_score (sv_h s)
               in Halt (s\<lparr>sv_w := w_Write (Encode env (governance_doc score warnings))
                    (w_WriteHeader 200 (w_Set ''Content-Type'' ''application/json'' (sv_w s)))\<rparr>)))
      else Cont s)"

definition stage_tenant_placement :: "'ip serve_env \<Rightarrow> serve \<Rightarrow> flow" where
  "stage_tenant_placement env s =
     (let tenantID = Header_Get (rq_Header (sv_r s)) ''X-Tenant-ID'' in
      if tenantID \<noteq> [] then
        (case tenant_placement (map_of (tenantPolicies (sv_h s)) tenantID) (getenv env ''SERV_CLUSTER'') (getenv env ''SERV_REGION'') of
           None \<Rightarrow> Cont s
         | Some msg \<Rightarrow> Halt (error_response env msg ''ERR_TENANT_POLICY_VIOLATION'' 403 s))
      else Cont s)"

definition stage_docs :: "'ip serve_env \<Rightarrow> serve \<Rightarrow> flow" where
  "stage_docs env s =
     (if rq_Path (sv_r s) = ''/api/docs'' then
        Halt (s\<lparr>sv_w := w_Write docsHTML (w_Set ''Content-Type'' ''text/html'' (sv_w s))\<rparr>)
      else if rq_Path (sv_r s) = ''/api/docs/openapi.json'' then
        Halt (s\<lparr>sv_w := w_Write (serveOpenAPIDocs (json_text env) (routes (sv_h s))) (w_Set ''Content-Type'' ''application/json'' (sv_w s))\<rparr>)
      else Cont s)"

section \<open>Authentication\<close>

definition bearer_token :: "request \<Rightarrow> string" where
  "bearer_token r = TrimPrefix (Header_Get (rq_Header r) ''Authorization'') ''Bearer ''"

definition jwt_user :: "'ip serve_env \<Rightarrow> GatewayHandler \<Rightarrow> request \<Rightarrow> string option" where
  "jwt_user env h r = (let jwtSec = getenv env ''SERV_JWT_SECRET'' in
     if jwtSec \<noteq> [] then ValidateJWTWithPolicy (jwt env) (bearer_token r) jwtSec (clock env 1) (session h) else None)"

definition stage_auth :: "'ip serve_env \<Rightarrow> serve \<Rightarrow> flow" where
  "stage_auth env s =
     (let h = sv_h s; r = sv_r s; token = bearer_token r in
      if authToken h \<noteq> [] then
        (if token = authToken h then Cont s
         else (case jwt_user env h r of
           Some _ \<Rightarrow> Cont (if needs_token_refresh (jwt env) token (session h)
                          then s\<lparr>sv_w := w_Set ''X-Token-Refresh'' ''true'' (sv_w s)\<rparr> else s)
         | None \<Rightarrow> Halt (error_response env ''Unauthorized'' ''ERR_UNAUTHORIZED'' 401 s)))
      else Cont s)"

section \<open>Route, limits, keys\<close>

definition match_route :: "string \<Rightarrow> Route list \<Rightarrow> Route option" where
  "match_route path rs = find (\<lambda>route. HasPrefix path (Prefix route)) rs"

definition body_limit :: "Route \<Rightarrow> int" where
  "body_limit route = (if MaxBodySize route \<le> 0 then 10 * 1024 * 1024 else MaxBodySize route)"

definition stage_route :: "'ip serve_env \<Rightarrow> serve \<Rightarrow> flow" where
  "stage_route env s = (case match_route (rq_Path (sv_r s)) (routes (sv_h s)) of
     None \<Rightarrow> Halt (count_error (error_response env ''Bad gateway: route match not found'' ''ERR_ROUTE_NOT_FOUND'' 502 s))
   | Some matchedRoute \<Rightarrow>
       Cont (s\<lparr>sv_route := matchedRoute,
               sv_r := (sv_r s)\<lparr>rq_Body := MaxBytesReader (rq_Body (sv_r s)) (nat (body_limit matchedRoute))\<rparr>\<rparr>))"

definition limited :: "'ip serve_env \<Rightarrow> nat \<Rightarrow> string \<Rightarrow> int \<Rightarrow> serve \<Rightarrow> bool \<times> serve" where
  "limited env i key limit s =
     (let h = sv_h s;
          (b, lims, _) = isRateLimited (if redisEnabled h then redis env i else None) (clock env i) (ratLimiters h) key (Prefix (sv_route s)) limit
      in (b, s\<lparr>sv_h := h\<lparr>ratLimiters := lims\<rparr>\<rparr>))"

definition key_allows :: "APIKey \<Rightarrow> string \<Rightarrow> bool" where
  "key_allows k path = (ak_AllowedRoutes k = [] \<or> list_ex (\<lambda>p. HasPrefix path p) (ak_AllowedRoutes k))"

definition tenant_allowed :: "Route \<Rightarrow> APIKey \<Rightarrow> bool" where
  "tenant_allowed route k = (AllowedTenants route = [] \<or> list_ex (\<lambda>t. t = ak_Tenant k) (AllowedTenants route))"

definition stage_api_key :: "'ip serve_env \<Rightarrow> serve \<Rightarrow> flow" where
  "stage_api_key env s =
     (if RequireAPIKey (sv_route s) then
        (let apiKeyVal = Header_Get (rq_Header (sv_r s)) ''X-API-Key'' in
         if apiKeyVal = [] then Halt (error_response env ''Unauthorized: Missing API Key'' ''ERR_MISSING_API_KEY'' 401 s)
         else (case apiKeys (sv_h s) apiKeyVal of
           None \<Rightarrow> Halt (error_response env ''Unauthorized: Invalid API Key'' ''ERR_INVALID_API_KEY'' 401 s)
         | Some keyInfo \<Rightarrow>
             if \<not> key_allows keyInfo (rq_Path (sv_r s))
             then Halt (error_response env ''Forbidden: API Key not allowed on this path'' ''ERR_FORBIDDEN_ROUTE'' 403 s)
             else if \<not> tenant_allowed (sv_route s) keyInfo
             then Halt (error_response env ''Forbidden: Tenant access denied'' ''ERR_TENANT_ACCESS_DENIED'' 403 s)
             else (let (over, s) = (if 0 < ak_RateLimitRPM keyInfo then limited env 2 (''apikey:'' @ apiKeyVal) (ak_RateLimitRPM keyInfo) s
                                    else (False, s))
                   in if over
                      then Halt (error_response env ''Too Many Requests: API Key rate limit exceeded'' ''ERR_RATE_LIMIT_EXCEEDED'' 429 s)
                      else Cont (s\<lparr>sv_r := (sv_r s)\<lparr>rq_tenant := Some (ak_Tenant keyInfo)\<rparr>\<rparr>))))
      else Cont s)"

text \<open>
  Reading the body and putting it back: \<^verbatim>\<open>ReadAll\<close>, \<^verbatim>\<open>Close\<close>,
  \<^verbatim>\<open>NopCloser(NewReader(bytes))\<close>. When reading fails the drained body stays.
\<close>

definition reread_body :: "request \<Rightarrow> string \<times> bool \<times> request" where
  "reread_body r = (let (b, ok, rest) = ReadAll (rq_Body r) in (b, ok, r\<lparr>rq_Body := (if ok then Plain b else rest)\<rparr>))"

definition stage_registry :: "'ip serve_env \<Rightarrow> serve \<Rightarrow> flow" where
  "stage_registry env s =
     (if SchemaName (sv_route s) \<noteq> [] \<and> rq_Method (sv_r s) \<in> {''POST'', ''PUT'', ''PATCH''} then
        (let (bodyBytes, ok, r) = reread_body (sv_r s); s = s\<lparr>sv_r := r\<rparr> in
         if ok then
           (let registryURL = (if getenv env ''SERV_REGISTRY_URL'' = [] then ''http://localhost:8088'' else getenv env ''SERV_REGISTRY_URL'');
                url = TrimSuffix registryURL ''/'' @ ''/api/v1/schemas/validate'';
                reqPayload = Marshal env (JObj [(''schema'', JStr (SchemaName (sv_route s))), (''payload'', JStr bodyBytes)]);
                s = s\<lparr>sv_out := sv_out s @ [ToRegistry url reqPayload]\<rparr>
            in case registry env url reqPayload of
                 Some (False, errors) \<Rightarrow>
                   Halt (error_response env (''Request schema validation failed: '' @ Join errors '', '') ''ERR_SCHEMA_VALIDATION_FAILED'' 400 s)
               | _ \<Rightarrow> Cont s)
         else Cont s)
      else Cont s)"

definition mcp_limited :: "json \<Rightarrow> json" where
  "mcp_limited rpcId = JObj [(''jsonrpc'', JStr ''2.0''), (''id'', rpcId), (''error'', JObj [(''code'', JNum (- 32001)),
     (''message'', JStr ''Agent rate limit exceeded for tool calls'')])]"

definition stage_mcp :: "'ip serve_env \<Rightarrow> serve \<Rightarrow> flow" where
  "stage_mcp env s =
     (if MCPEnabled (sv_route s) \<and> rq_Method (sv_r s) = ''POST'' then
        (let (bodyBytes, ok, r) = reread_body (sv_r s); s = s\<lparr>sv_r := r\<rparr> in
         if ok then
           (case mcp_call env bodyBytes of
              Some (meth, toolName, rpcId) \<Rightarrow>
                if meth = ''tools/call'' then
                  (let agentID = Header_Get (rq_Header (sv_r s)) ''X-Agent-ID'';
                       agentID = (if agentID = [] then ''default-agent'' else agentID);
                       (over, s) = limited env 3 (''mcp-agent:'' @ agentID) 5 s
                   in if over
                      then Halt (s\<lparr>sv_w := w_Write (Encode env (mcp_limited rpcId))
                             (w_WriteHeader 429 (w_Set ''Content-Type'' ''application/json'' (sv_w s)))\<rparr>)
                      else Cont (s\<lparr>sv_w := w_Set ''X-MCP-Agent'' agentID (w_Set ''X-MCP-Tool'' toolName (sv_w s))\<rparr>))
                else Cont s
            | None \<Rightarrow> Cont s)
         else Cont s)
      else Cont s)"

section \<open>Client address, policy, rate, concurrency\<close>

definition client_ip :: "'ip serve_env \<Rightarrow> request \<Rightarrow> string" where
  "client_ip env r = (let ip = (case split_host_port env (rq_RemoteAddr r) of None \<Rightarrow> [] | Some host \<Rightarrow> host) in
     if ip = [] then
       (let ip = rq_RemoteAddr r in
        if HasPrefix ip ''['' \<and> HasSuffix ip '']'' then take (length ip - 2) (drop 1 ip) else ip)
     else ip)"

definition stage_ip :: "'ip serve_env \<Rightarrow> serve \<Rightarrow> flow" where
  "stage_ip env s =
     (let ip = client_ip env (sv_r s); s = s\<lparr>sv_clientIP := ip\<rparr> in
      if \<not> checkIPAccess (ip_lib env) ip (IPAllowlist (sv_route s)) (IPBlocklist (sv_route s))
      then Halt (error_response env ''Forbidden: IP access denied'' ''ERR_IP_ACCESS_DENIED'' 403 s)
      else Cont s)"

definition stage_policy :: "'ip serve_env \<Rightarrow> serve \<Rightarrow> flow" where
  "stage_policy env s = (case policySchema (sv_h s) of
     None \<Rightarrow> Cont s
   | Some pSchema \<Rightarrow>
       (let (roles, headers) = extractUserRolesAndHeaders (roles_of env) (sv_r s);
            (action, redactFields, customRateLimit, matched) =
              EvaluatePolicy (rq_Method (sv_r s)) (rq_Path (sv_r s)) headers roles (Some pSchema)
        in if matched then
             (if action = ''deny'' then Halt (error_response env ''Forbidden: Access denied by policy rule'' ''ERR_POLICY_DENIED'' 403 s)
              else (let s = (if 0 < customRateLimit then s\<lparr>sv_route := (sv_route s)\<lparr>RateLimitRPM := customRateLimit\<rparr>\<rparr> else s)
                    in Cont (if redactFields \<noteq> [] then s\<lparr>sv_r := (sv_r s)\<lparr>rq_redact := Some redactFields\<rparr>\<rparr> else s)))
           else Cont s))"

definition stage_rate :: "'ip serve_env \<Rightarrow> serve \<Rightarrow> flow" where
  "stage_rate env s =
     (let (over, s) = limited env 4 (sv_clientIP s) (RateLimitRPM (sv_route s)) s in
      if over then Halt (error_response env ''Too Many Requests'' ''ERR_RATE_LIMIT_EXCEEDED'' 429 s) else Cont s)"

definition stage_backpressure :: "'ip serve_env \<Rightarrow> serve \<Rightarrow> flow" where
  "stage_backpressure env s = (case limiters (sv_h s) (Prefix (sv_route s)) of
     None \<Rightarrow> Cont s
   | Some limiter \<Rightarrow> (case acquire env limiter of
       None \<Rightarrow> Cont s
     | Some err \<Rightarrow>
         (let s = s\<lparr>sv_w := w_Set ''Retry-After'' ''5'' (sv_w s)\<rparr> in
          Halt (if err = QueueFull
             then error_response env ''Too Many Requests: backpressure queue full'' ''ERR_QUEUE_FULL'' 429 s
             else error_response env ''Service Unavailable: queue timeout'' ''ERR_BACKPRESSURE_TIMEOUT'' 503 s))))"

text \<open>The open-source \<^verbatim>\<open>handleGraphQLFederation\<close> refuses.\<close>

definition stage_graphql :: "'ip serve_env \<Rightarrow> serve \<Rightarrow> flow" where
  "stage_graphql env s =
     (if GraphQLFederation (sv_route s) \<noteq> [] \<and> rq_Method (sv_r s) = ''POST''
      then Halt (error_response env ''GraphQL Federation requires ServGate Enterprise Edition'' ''ERR_EE_REQUIRED'' 403 s)
      else Cont s)"

definition access_stages :: "'ip serve_env \<Rightarrow> (serve \<Rightarrow> flow) list" where
  "access_stages env = [stage_count, stage_tenants env, stage_policy_reload env, stage_governance env,
     stage_tenant_placement env, stage_docs env, stage_auth env, stage_route env, stage_api_key env, stage_registry env,
     stage_mcp env, stage_ip env, stage_policy env, stage_rate env, stage_backpressure env, stage_graphql env]"

end
