(* ===== verification/Serve_Proxy.thy ===== *)
theory Serve_Proxy
  imports Serve_Access
begin

text \<open>
  \<^verbatim>\<open>ServeHTTP\<close>, second half: tracing, the caches, body checks, middlewares, target selection,
  the ways a request leaves the gateway, and what happens to the answer.
\<close>

section \<open>Before the target is chosen\<close>

definition stage_trace :: "'ip serve_env \<Rightarrow> serve \<Rightarrow> flow" where
  "stage_trace env s =
     (let r = sv_r s; s = s\<lparr>sv_traceparent := Header_Get (rq_Header r) ''traceparent''\<rparr> in
      case span_ids env of
        None \<Rightarrow> Cont s
      | Some (tid, sid) \<Rightarrow>
          (let tp = ''00-'' @ tid @ ''-'' @ sid @ ''-01'';
               r = r\<lparr>rq_Header := Header_Set ''traceparent'' tp (rq_Header r)\<rparr>;
               r = (if rq_Method r \<in> {''POST'', ''PUT'', ''PATCH''} \<or> 0 < rq_ContentLength r
                    then (let (_, _, r') = reread_body r in r') else r)
           in Cont (s\<lparr>sv_r := r, sv_traceparent := tp, sv_traceID := tid\<rparr>)))"

definition hit_log :: "'ip serve_env \<Rightarrow> HTTPCacheEntry \<Rightarrow> serve \<Rightarrow> LogEntry" where
  "hit_log env entry s =
     \<lparr>le_Timestamp = clock env 0, le_Method = rq_Method (sv_r s), le_Path = rq_Path (sv_r s), le_Route = Prefix (sv_route s),
      le_ClientIP = sv_clientIP s, le_Status = ce_StatusCode entry,
      le_LatencyMs = go_div (time_Sub (clock env 6) (clock env 0)) time_Millisecond, le_RequestSize = rq_ContentLength (sv_r s),
      le_ResponseSize = int (length (ce_Body entry)), le_UserAgent = Header_Get (rq_Header (sv_r s)) ''User-Agent'',
      le_TraceID = sv_traceID s, le_Target = ''cache'', le_Error = [], le_Tenant = []\<rparr>"

definition put_cache :: "string \<Rightarrow> ResponseCache \<Rightarrow> serve \<Rightarrow> serve" where
  "put_cache p rc s = s\<lparr>sv_h := (sv_h s)\<lparr>responseCaches := AList.update p rc (responseCaches (sv_h s))\<rparr>\<rparr>"

definition add_log :: "LogEntry \<Rightarrow> serve \<Rightarrow> serve" where
  "add_log e s = (if map_of (accessLoggers (sv_h s)) (Prefix (sv_route s)) = None then s else s\<lparr>sv_log := sv_log s @ [e]\<rparr>)"

definition stage_cache :: "'ip serve_env \<Rightarrow> serve \<Rightarrow> flow" where
  "stage_cache env s =
     (let route = sv_route s; r = sv_r s in
      if 0 < CacheTTLSeconds route \<and> IsCacheableMethod (rq_Method r) (CacheMethods route) then
        (case map_of (responseCaches (sv_h s)) (Prefix route) of
           None \<Rightarrow> Cont s
         | Some routeCache \<Rightarrow>
             (let key = CacheKey (sha_hex env) (rq_Method r) (rq_Path r) (rq_RawQuery r);
                  (entry, rc') = ResponseCache_Get key (clock env 5) routeCache;
                  s = put_cache (Prefix route) rc' (s\<lparr>sv_cacheKey := Some key\<rparr>)
              in case entry of
                   None \<Rightarrow> Cont s
                 | Some e \<Rightarrow>
                     Halt (add_log (hit_log env e s)
                       (s\<lparr>sv_w := w_Write (ce_Body e) (w_WriteHeader (ce_StatusCode e) (w_Set ''X-Cache'' ''HIT''
                             ((sv_w s)\<lparr>w_header := add_headers (ce_Headers e) (w_header (sv_w s))\<rparr>)))\<rparr>))))
      else Cont s)"

definition stage_validation :: "'ip serve_env \<Rightarrow> serve \<Rightarrow> flow" where
  "stage_validation env s =
     (if ValidationSchema (sv_route s) \<noteq> [] then
        (let (bodyBytes, ok, rest) = ReadAll (rq_Body (sv_r s)) in
         if \<not> ok then Halt (error_response env ''Bad request: failed to read body'' ''ERR_VALIDATION_FAILED'' 400 s)
         else (case ValidateRequest (float_oob env) (json_of env) bodyBytes (ValidationSchema (sv_route s)) of
           Some err \<Rightarrow> Halt (error_response env err ''ERR_VALIDATION_FAILED'' 400 s)
         | None \<Rightarrow> Cont (s\<lparr>sv_r := (sv_r s)\<lparr>rq_Body := Plain bodyBytes, rq_ContentLength := int (length bodyBytes)\<rparr>\<rparr>)))
      else Cont s)"

definition needs_ai :: "serve \<Rightarrow> bool" where
  "needs_ai s = (let route = sv_route s; hdr = rq_Header (sv_r s) in
     PromptGuard route \<or> PiiRedact route \<or> UseSemanticCache route \<or> SemanticRateLimit route \<or> RoutePromptABTest route \<noteq> None \<or>
     ResponseQualityScore route \<or> AIWAFEnabled route \<or> Contains (Prefix route) ''/ai'' \<or>
     Header_Get hdr ''X-Dry-Run'' = ''true'' \<or> Header_Get hdr ''X-Estimate-Only'' = ''true'')"

text \<open>
  The AI block with the open-source extensions: the web application firewall never blocks, the
  semantic cache never hits.
\<close>

definition stage_ai :: "'ip serve_env \<Rightarrow> serve \<Rightarrow> flow" where
  "stage_ai env s =
     (if needs_ai s then
        (let (reqBody, _, _) = ReadAll (rq_Body (sv_r s));
             ((reqBody, ok), w) = applyAIRequestExtensions (sv_r s) reqBody (sv_w s);
             s = s\<lparr>sv_w := w\<rparr>
         in if \<not> ok then Halt s
            else (let prompt = extractPrompt (json_of env) reqBody in
              if PromptGuard (sv_route s) \<and> prompt \<noteq> [] \<and> IsPromptInjection prompt
              then Halt (error_response env ''AI Prompt Guard: Validation failed due to safety policy violation'' ''ERR_PROMPT_INJECTION_DETECTED'' 400 s)
              else (let reqBody = (if PiiRedact (sv_route s) then RedactPii (pii_patterns env) reqBody else reqBody)
                    in Cont (s\<lparr>sv_reqBody := reqBody,
                         sv_r := (sv_r s)\<lparr>rq_Body := Plain reqBody, rq_ContentLength := int (length reqBody)\<rparr>\<rparr>))))
      else Cont s)"

text \<open>
  The WASM request middleware. A middleware whose name contains \<^verbatim>\<open>policy\<close> gets the request's
  metadata and answers a decision; any other one gets the body and answers the new body.
\<close>

definition policy_headers :: "http_header \<Rightarrow> (string \<times> string) list" where
  "policy_headers hdr = fold (\<lambda>(k, vs) hdrs. case vs of [] \<Rightarrow> hdrs | v # _ \<Rightarrow> AList.update (ToLower k) v hdrs) hdr []"

definition policy_meta :: "request \<Rightarrow> json" where
  "policy_meta r = JObj [(''method'', JStr (rq_Method r)), (''path'', JStr (rq_Path r)),
     (''headers'', JObj (map (\<lambda>(k, v). (k, JStr v)) (policy_headers (rq_Header r))))]"

definition stage_wasm :: "'ip serve_env \<Rightarrow> serve \<Rightarrow> flow" where
  "stage_wasm env s =
     (let m = selectWASMMiddleware (intn env) (sv_route s) in
      if m \<noteq> [] then
        (let isPolicy = Contains (ToLower m) ''policy'';
             input = (if isPolicy then Marshal env (policy_meta (sv_r s)) else fst (ReadAll (rq_Body (sv_r s))))
         in case wasm_run env m input of
              Inl _ \<Rightarrow> Halt (count_error (error_response env ''Internal Server Error: WASM Middleware execution failed'' ''ERR_WASM_MIDDLEWARE_FAILED'' 500 s))
            | Inr output \<Rightarrow>
                if isPolicy then
                  (if TrimSpace output = ''deny''
                   then Halt (error_response env ''Forbidden: Access Denied by Policy'' ''ERR_ACCESS_DENIED'' 403 s) else Cont s)
                else Cont (s\<lparr>sv_r := (sv_r s)\<lparr>rq_Body := Plain output, rq_ContentLength := int (length output)\<rparr>\<rparr>))
      else Cont s)"

definition stage_plugin :: "'ip serve_env \<Rightarrow> serve \<Rightarrow> flow" where
  "stage_plugin env s =
     (if GoMiddleware (sv_route s) \<noteq> [] then
        (case plugin_request env (GoMiddleware (sv_route s)) of
           None \<Rightarrow> Cont s
         | Some OnRequest \<Rightarrow> (case OnRequest (sv_r s) of
             PluginError r \<Rightarrow>
               Halt (count_error (error_response env ''Internal Server Error: Go Plugin execution failed'' ''ERR_GO_PLUGIN_FAILED'' 500 (s\<lparr>sv_r := r\<rparr>)))
           | PluginResponse resp \<Rightarrow>
               Halt (s\<lparr>sv_w := w_Write (rs_Body resp) (w_WriteHeader (rs_StatusCode resp)
                    ((sv_w s)\<lparr>w_header := add_headers (rs_Header resp) (w_header (sv_w s))\<rparr>))\<rparr>)
           | PluginPass r \<Rightarrow> Cont (s\<lparr>sv_r := r\<rparr>)))
      else Cont s)"

section \<open>The target\<close>

definition stage_target :: "'ip serve_env \<Rightarrow> serve \<Rightarrow> flow" where
  "stage_target env s = (case selectTarget (intn env) (sv_route s) (balancing (sv_h s)) of
     Inl p \<Rightarrow> Crash p s
   | Inr (selectedTarget, b) \<Rightarrow>
       Cont (s\<lparr>sv_target := selectedTarget, sv_h := (sv_h s)\<lparr>balancing := incConn selectedTarget b\<rparr>\<rparr>))"

definition breaker_of :: "serve \<Rightarrow> CircuitBreaker" where
  "breaker_of s = (case circuitBreakers (sv_h s) (sv_target s) of
     Some c \<Rightarrow> c | None \<Rightarrow> NewCircuitBreaker (1000 * time_Millisecond))"

definition put_breaker :: "CircuitBreaker \<Rightarrow> serve \<Rightarrow> serve" where
  "put_breaker cb s = s\<lparr>sv_h := (sv_h s)\<lparr>circuitBreakers := (circuitBreakers (sv_h s))(sv_target s \<mapsto> cb)\<rparr>\<rparr>"

definition stage_breaker :: "'ip serve_env \<Rightarrow> serve \<Rightarrow> flow" where
  "stage_breaker env s =
     (let (ok, cb) = Allow (clock env 7) (clock env 8) (breaker_of s); s = put_breaker cb s in
      if \<not> ok then Halt (error_response env ''Service Unavailable: Circuit breaker open'' ''ERR_CIRCUIT_OPEN'' 503 s) else Cont s)"

definition queue_url :: "'ip serve_env \<Rightarrow> string" where
  "queue_url env = (let rawDisc = getenv env ''SERVVERSE_DISCOVERY'' in
     if rawDisc = [] then ''http://localhost:8082''
     else (case queue_of env rawDisc of Some q \<Rightarrow> (if q = [] then ''http://localhost:8082'' else q) | None \<Rightarrow> ''http://localhost:8082''))"

definition queue_header :: "serve \<Rightarrow> http_header" where
  "queue_header s = (let hdr = Header_Set ''Authorization'' ''Bearer secret-token'' (Header_Set ''Content-Type'' ''application/json'' []) in
     if sv_traceparent s \<noteq> [] then Header_Set ''traceparent'' (sv_traceparent s) hdr else hdr)"

definition stage_queue :: "'ip serve_env \<Rightarrow> serve \<Rightarrow> flow" where
  "stage_queue env s =
     (if HasPrefix (sv_target s) ''servqueue://'' then
        (let topic = TrimPrefix (sv_target s) ''servqueue://'';
             (bodyBytes, ok, _) = ReadAll (rq_Body (sv_r s)) in
         if \<not> ok then Halt (error_response env ''Bad Request: failed to read body'' ''ERR_BAD_REQUEST_BODY'' 400 s)
         else (let publishUrl = TrimSuffix (queue_url env) ''/'' @ ''/api/publish'' in
           if \<not> request_url_ok env publishUrl
           then Halt (error_response env ''Internal Server Error'' ''ERR_INTERNAL_SERVER_ERROR'' 500 s)
           else (let payload = Marshal env (JObj [(''topic'', JStr topic), (''payload'', JStr bodyBytes)]); s = s\<lparr>sv_out := sv_out s @ [ToQueue publishUrl (queue_header s) payload]\<rparr> in
             case queue_post env publishUrl (queue_header s) payload of
               None \<Rightarrow> Halt (error_response env ''Service Unavailable: failed to bridge to queue'' ''ERR_QUEUE_BRIDGE_FAILED'' 503 s)
             | Some (status, respBody) \<Rightarrow>
                 if 400 \<le> status then
                   (let s = error_response env (''Queue Error: '' @ respBody) ''ERR_QUEUE_RESPONSE_ERROR'' status s
                    in Halt (if 500 \<le> status then count_error s else s))
                 else Halt (s\<lparr>sv_w := w_Write (''{\"status\":\"success\",\"message\":\"Event bridged to topic: '' @ topic @ ''\"}'')
                        (w_WriteHeader 200 (w_Set ''Content-Type'' ''application/json'' (sv_w s)))\<rparr>))))
      else Cont s)"

definition stage_target_url :: "'ip serve_env \<Rightarrow> serve \<Rightarrow> flow" where
  "stage_target_url env s =
     (if parse_url env (sv_target s) = None
      then Halt (count_error (error_response env ''Bad Gateway Target'' ''ERR_BAD_GATEWAY_TARGET'' 502 s)) else Cont s)"

definition stage_llm :: "'ip serve_env \<Rightarrow> serve \<Rightarrow> flow" where
  "stage_llm env s =
     (if LLMRouting (sv_route s) \<noteq> None
      then Halt (error_response env ''Cost-Aware LLM Routing requires ServGate Enterprise Edition'' ''ERR_EE_REQUIRED'' 403 s)
      else Cont s)"

definition rewrite_path :: "Route \<Rightarrow> string \<Rightarrow> string" where
  "rewrite_path route path = ''/'' @ TrimPrefix (TrimPrefix path (Prefix route)) ''/''"

definition stage_websocket :: "'ip serve_env \<Rightarrow> serve \<Rightarrow> flow" where
  "stage_websocket env s = (case parse_url env (sv_target s) of
     None \<Rightarrow> Halt s
   | Some targetURL \<Rightarrow>
     if ToLower (Header_Get (rq_Header (sv_r s)) ''Upgrade'') = ''websocket'' then
        (let s = s\<lparr>sv_r := (sv_r s)\<lparr>rq_Path := rewrite_path (sv_route s) (rq_Path (sv_r s))\<rparr>\<rparr>;
             out = proxyWebSocket (hijack env) (dial_ok env) (request_uri env) (proto env) (sv_r s) targetURL;
             s = s\<lparr>sv_out := sv_out s @ [ToTunnel out]\<rparr>
         in Halt (case out of
              HijackUnsupported \<Rightarrow> error_response env ''Websocket hijacking not supported'' ''ERR_WS_HIJACK_NOT_SUPPORTED'' 500 s
            | HijackError \<Rightarrow> error_response env (''Failed to hijack connection: '' @ hijack_error env) ''ERR_WS_HIJACK_FAILED'' 500 s
            | _ \<Rightarrow> s))
      else Cont s)"

section \<open>Request bodies on the way out\<close>

definition set_body :: "string \<Rightarrow> request \<Rightarrow> request" where
  "set_body b r = r\<lparr>rq_Body := Plain b, rq_ContentLength := int (length b)\<rparr>"

definition stage_request_transform :: "'ip serve_env \<Rightarrow> serve \<Rightarrow> flow" where
  "stage_request_transform env s =
     (if RequestTransform (sv_route s) \<noteq> [] then
        (let (bodyBytes, ok, rest) = ReadAll (rq_Body (sv_r s)) in
         Cont (s\<lparr>sv_r := (if ok then (case transformJSON (json_of env) (json_text env) bodyBytes (RequestTransform (sv_route s)) of
                  Some t \<Rightarrow> set_body t (sv_r s)
                | None \<Rightarrow> (sv_r s)\<lparr>rq_Body := Plain bodyBytes\<rparr>)
              else (sv_r s)\<lparr>rq_Body := rest\<rparr>)\<rparr>))
      else Cont s)"

definition grpc_request :: "request \<Rightarrow> request" where
  "grpc_request r = r\<lparr>rq_Header := Header_Set ''TE'' ''trailers'' (Header_Set ''Content-Type'' ''application/grpc+json'' (rq_Header r)), rq_Method := ''POST''\<rparr>"

definition rest_request :: "request \<Rightarrow> request" where
  "rest_request r = r\<lparr>rq_Header := Header_Set ''Content-Type'' ''application/json'' (rq_Header r), rq_Method := ''POST''\<rparr>"

definition stage_transpile :: "serve \<Rightarrow> flow" where
  "stage_transpile s =
     (let (bodyBytes, _, rest) = ReadAll (rq_Body (sv_r s)) in
      if TranspileType (sv_route s) = ''grpc_to_rest'' then
        (case grpc_unpack bodyBytes of
           Inl p \<Rightarrow> Crash p s
         | Inr None \<Rightarrow> Cont (s\<lparr>sv_r := (sv_r s)\<lparr>rq_Body := rest\<rparr>\<rparr>)
         | Inr (Some jsonBody) \<Rightarrow> Cont (s\<lparr>sv_r := rest_request (set_body jsonBody (sv_r s))\<rparr>))
      else if TranspileType (sv_route s) = ''rest_to_grpc'' then
        Cont (s\<lparr>sv_r := grpc_request (set_body (grpc_pack bodyBytes) (sv_r s))\<rparr>)
      else Cont s)"

section \<open>The reverse proxy\<close>

text \<open>\<^verbatim>\<open>ModifyResponse\<close>: what is done to the upstream's answer, step by step; \<open>Inl\<close> is an error.\<close>

definition redact_fields :: "string list \<Rightarrow> (string \<times> json) list \<Rightarrow> (string \<times> json) list" where
  "redact_fields names data = fold (\<lambda>f d. if map_of d f = None then d else AList.update f (JStr ''[REDACTED]'') d) names data"

definition redact_response :: "'ip serve_env \<Rightarrow> request \<Rightarrow> string \<Rightarrow> string" where
  "redact_response env r b = (case rq_redact r of
     None \<Rightarrow> b
   | Some names \<Rightarrow> (case json_of env b of
       Some (JObj data) \<Rightarrow> (case json_text env (JObj (redact_fields names data)) of Some t \<Rightarrow> t | None \<Rightarrow> [])
     | Some JNull \<Rightarrow> (case json_text env JNull of Some t \<Rightarrow> t | None \<Rightarrow> [])
     | _ \<Rightarrow> b))"

definition response_plugin ::
    "'ip serve_env \<Rightarrow> serve \<Rightarrow> StatusRecordingResponseWriter \<Rightarrow> response \<Rightarrow> string option \<times> StatusRecordingResponseWriter \<times> response" where
  "response_plugin env s rw resp =
     (if GoMiddleware (sv_route s) = [] then (None, rw, resp)
      else (case plugin_response env (GoMiddleware (sv_route s)) of
         None \<Rightarrow> (None, rw, resp)
       | Some OnResponse \<Rightarrow> (case OnResponse (sv_r s) rw resp of
           (Some pErr, rw, tempResp) \<Rightarrow> (Some (''go plugin OnResponse failed: '' @ pErr), rw, resp\<lparr>rs_Header := rs_Header tempResp\<rparr>)
         | (None, rw, tempResp) \<Rightarrow> (None, rw, resp\<lparr>rs_Header := rs_Header tempResp, rs_Body := rs_Body tempResp\<rparr>))))"

definition response_wasm :: "'ip serve_env \<Rightarrow> serve \<Rightarrow> string \<Rightarrow> string + string" where
  "response_wasm env s b =
     (if ResponseMiddleware (sv_route s) = [] then Inr b
      else (case wasm_run env (ResponseMiddleware (sv_route s)) b of
         Inl wasmErr \<Rightarrow> Inl (''response middleware execution failed: '' @ wasmErr) | Inr out \<Rightarrow> Inr out))"

definition response_transform :: "'ip serve_env \<Rightarrow> serve \<Rightarrow> string \<Rightarrow> string" where
  "response_transform env s b =
     (if ResponseTransform (sv_route s) = [] then b
      else (case transformJSON (json_of env) (json_text env) b (ResponseTransform (sv_route s)) of Some t \<Rightarrow> t | None \<Rightarrow> b))"

definition response_transpile :: "Route \<Rightarrow> response \<Rightarrow> go_panic + response" where
  "response_transpile route resp =
     (if TranspileType route = ''rest_to_grpc'' then
        (case grpc_unpack (rs_Body resp) of
           Inl p \<Rightarrow> Inl p
         | Inr None \<Rightarrow> Inr resp
         | Inr (Some b) \<Rightarrow> Inr (resp\<lparr>rs_Body := b, rs_Header := Header_Set ''Content-Type'' ''application/json'' (rs_Header resp)\<rparr>))
      else if TranspileType route = ''grpc_to_rest'' then
        Inr (resp\<lparr>rs_Body := grpc_pack (rs_Body resp), rs_Header := Header_Set ''Content-Type'' ''application/grpc+json'' (rs_Header resp)\<rparr>)
      else Inr resp)"

datatype modified = ModPanic go_panic | ModError string | ModOk response

definition ModifyResponse :: "'ip serve_env \<Rightarrow> serve \<Rightarrow> StatusRecordingResponseWriter \<Rightarrow> response \<Rightarrow> modified \<times> StatusRecordingResponseWriter" where
  "ModifyResponse env s rw resp = (case read_error env resp of
     Some err \<Rightarrow> (ModError (''failed to read response body: '' @ err), rw)
   | None \<Rightarrow>
     (case response_plugin env s rw (resp\<lparr>rs_Body := redact_response env (sv_r s) (rs_Body resp)\<rparr>) of
        (Some e, rw, _) \<Rightarrow> (ModError e, rw)
      | (None, rw, resp) \<Rightarrow> (case response_wasm env s (rs_Body resp) of
          Inl e \<Rightarrow> (ModError e, rw)
        | Inr b \<Rightarrow> (case response_transpile (sv_route s) (resp\<lparr>rs_Body := response_transform env s b\<rparr>) of
            Inl p \<Rightarrow> (ModPanic p, rw)
          | Inr resp \<Rightarrow> (ModOk (resp\<lparr>rs_Header := Header_Set ''Content-Length'' (fmt_d (int (length (rs_Body resp)))) (rs_Header resp)\<rparr>), rw)))))"

definition report_load :: "'ip serve_env \<Rightarrow> response \<Rightarrow> serve \<Rightarrow> serve" where
  "report_load env resp s = (let loadStr = Header_Get (rs_Header resp) ''X-Backpressure'' in
     if loadStr = [] then s
     else (case scan_int env loadStr of None \<Rightarrow> s
       | Some load \<Rightarrow> s\<lparr>sv_h := (sv_h s)\<lparr>balancing := (balancing (sv_h s))\<lparr>targetLoad := (targetLoad (balancing (sv_h s)))(sv_target s \<mapsto> load)\<rparr>\<rparr>\<rparr>))"

definition penalize :: "serve \<Rightarrow> serve" where
  "penalize s = s\<lparr>sv_h := (sv_h s)\<lparr>balancing := (balancing (sv_h s))\<lparr>targetLoad := (targetLoad (balancing (sv_h s)))(sv_target s \<mapsto> 100)\<rparr>\<rparr>\<rparr>"

text \<open>The \<^verbatim>\<open>ErrorHandler\<close>, writing through the recorder.\<close>

definition rec_error :: "'ip serve_env \<Rightarrow> request \<Rightarrow> string \<Rightarrow> StatusRecordingResponseWriter \<Rightarrow> StatusRecordingResponseWriter" where
  "rec_error env r err rw =
     (let b = error_text env \<lparr>err_Error = ''Bad Gateway: '' @ err, err_Code = ''ERR_BAD_GATEWAY'', err_TraceID = error_trace_id (rq_Header r)\<rparr>
      in rec_Write b (length b) (rec_WriteHeader 502 (rec_Set ''Content-Type'' ''application/json'' rw)))"

text \<open>What \<^verbatim>\<open>ReverseProxy\<close> writes for a good answer: headers, status, body.\<close>

definition rec_response :: "response \<Rightarrow> StatusRecordingResponseWriter \<Rightarrow> StatusRecordingResponseWriter" where
  "rec_response resp rw = rec_Write (rs_Body resp) (length (rs_Body resp)) (rec_WriteHeader (rs_StatusCode resp)
     (rw\<lparr>rec_w := (rec_w rw)\<lparr>w_header := add_headers (rs_Header resp) (w_header (rec_w rw))\<rparr>\<rparr>))"

definition prepare_request :: "target_url \<Rightarrow> serve \<Rightarrow> request" where
  "prepare_request targetURL s = (let r = sv_r s in
     r\<lparr>rq_Header := Header_Set ''X-Forwarded-Host'' (Header_Get (rq_Header r) ''Host'') (rq_Header r),
       rq_Host := u_Host targetURL, rq_Path := rewrite_path (sv_route s) (rq_Path r)\<rparr>)"

definition need_capture :: "serve \<Rightarrow> bool" where
  "need_capture s = (sv_cacheKey s \<noteq> None \<or> RequireAPIKey (sv_route s) \<or> ResponseQualityScore (sv_route s))"

definition recorder :: "serve \<Rightarrow> StatusRecordingResponseWriter" where
  "recorder s = (let w = (if TargetsWeighted (sv_route s) \<noteq> [] then w_Set ''X-Canary-Target'' (sv_target s) (sv_w s) else sv_w s)
     in NewStatusRecordingResponseWriter (if need_capture s then w_Set ''X-Cache'' ''MISS'' w else w) (need_capture s))"

text \<open>\<^verbatim>\<open>proxy.ServeHTTP(rec, r)\<close>: round trip with retries, then the answer or the error handler.\<close>

definition reverse_proxy :: "'ip serve_env \<Rightarrow> target_url \<Rightarrow> serve \<Rightarrow> go_panic option \<times> serve \<times> StatusRecordingResponseWriter" where
  "reverse_proxy env u s =
     (let r = prepare_request u s;
          tr = transports (sv_h s) (Prefix (sv_route s));
          (res, sent, _) = RoundTrip (upstream env u tr r) (rq_Body r);
          s = s\<lparr>sv_r := r, sv_out := sv_out s @ [ToUpstream (sv_target s) r sent]\<rparr>;
          rw = recorder s
      in case res of
           Inl err \<Rightarrow> (None, penalize s, rec_error env r err rw)
         | Inr resp \<Rightarrow>
             (let s = report_load env resp s in
              case ModifyResponse env s rw resp of
                (ModPanic p, rw) \<Rightarrow> (Some p, s, rw)
              | (ModError err, rw) \<Rightarrow> (None, penalize s, rec_error env r err rw)
              | (ModOk resp', rw) \<Rightarrow> (None, s, rec_response resp' rw)))"

section \<open>After the answer\<close>

definition count_status :: "int \<Rightarrow> serve \<Rightarrow> serve" where
  "count_status status s = (if 500 \<le> status then count_error s else s)"

definition record_canary :: "int \<Rightarrow> serve \<Rightarrow> serve" where
  "record_canary status s = s\<lparr>sv_h := (sv_h s)\<lparr>canaryStats := recordCanaryCall (sv_route s) (sv_target s) status (canaryStats (sv_h s))\<rparr>\<rparr>"

definition store_answer :: "'ip serve_env \<Rightarrow> StatusRecordingResponseWriter \<Rightarrow> serve \<Rightarrow> serve" where
  "store_answer env rw s = (case (sv_cacheKey s, map_of (responseCaches (sv_h s)) (Prefix (sv_route s))) of
     (Some key, Some rc) \<Rightarrow>
       if 200 \<le> rec_StatusCode rw \<and> rec_StatusCode rw < 300
       then put_cache (Prefix (sv_route s)) (ResponseCache_Set key (rec_body rw) (rec_StatusCode rw) (CapturedHeaders rw) (clock env 9) rc) s
       else s
   | _ \<Rightarrow> s)"

definition record_breaker :: "'ip serve_env \<Rightarrow> int \<Rightarrow> serve \<Rightarrow> flow" where
  "record_breaker env status s =
     (case RecordRequest (clock env 12) (time_Sub (clock env 11) (clock env 0)) (status < 500) (breaker_of s) of
        Inl p \<Rightarrow> Crash p s
      | Inr cb \<Rightarrow> Halt (put_breaker cb s))"

definition stage_proxy :: "'ip serve_env \<Rightarrow> serve \<Rightarrow> flow" where
  "stage_proxy env s = (case parse_url env (sv_target s) of
     None \<Rightarrow> Halt s
   | Some u \<Rightarrow> (case reverse_proxy env u s of
       (Some p, s, rw) \<Rightarrow> Crash p (s\<lparr>sv_w := rec_w rw\<rparr>)
     | (None, s, rw) \<Rightarrow>
         (let status = rec_StatusCode rw; s = s\<lparr>sv_w := rec_w rw\<rparr>;
              s = store_answer env rw (count_status status (record_canary status s));
              s = add_log (BuildLogEntry (split_host_port env) (sv_r s) rw (Prefix (sv_route s)) (sv_target s) (sv_traceID s)
                    (clock env 0) (clock env 10) []) s
          in record_breaker env status s)))"

definition before_target :: "'ip serve_env \<Rightarrow> (serve \<Rightarrow> flow) list" where
  "before_target env = [stage_trace env, stage_cache env, stage_validation env, stage_ai env, stage_wasm env, stage_plugin env]"

definition after_target :: "'ip serve_env \<Rightarrow> (serve \<Rightarrow> flow) list" where
  "after_target env = [stage_breaker env, stage_queue env, stage_target_url env, stage_llm env,
     stage_websocket env, stage_request_transform env, stage_transpile, stage_proxy env]"

text \<open>\<open>defer h.decConn(selectedTarget)\<close> runs however the rest of the function ends.\<close>

fun map_flow :: "(serve \<Rightarrow> serve) \<Rightarrow> flow \<Rightarrow> flow" where
  "map_flow f (Halt s) = Halt (f s)"
| "map_flow f (Cont s) = Cont (f s)"
| "map_flow f (Crash p s) = Crash p (f s)"

definition release_conn :: "string \<Rightarrow> serve \<Rightarrow> serve" where
  "release_conn t s = s\<lparr>sv_h := (sv_h s)\<lparr>balancing := decConn t (balancing (sv_h s))\<rparr>\<rparr>"

definition to_target :: "'ip serve_env \<Rightarrow> serve \<Rightarrow> flow" where
  "to_target env s = (case stage_target env s of
     Cont s' \<Rightarrow> map_flow (release_conn (sv_target s')) (stages (after_target env) s')
   | f \<Rightarrow> f)"

definition start_serve :: "GatewayHandler \<Rightarrow> request \<Rightarrow> serve" where
  "start_serve h r = \<lparr>sv_h = h, sv_w = new_writer, sv_r = r, sv_route = zero_route, sv_clientIP = [], sv_traceparent = [], sv_traceID = [],
     sv_cacheKey = None, sv_reqBody = [], sv_target = [], sv_out = [], sv_log = []\<rparr>"

definition ServeHTTP :: "'ip serve_env \<Rightarrow> request \<Rightarrow> GatewayHandler \<Rightarrow> flow" where
  "ServeHTTP env r h = bind (stages (access_stages env @ before_target env) (start_serve h r)) (to_target env)"

fun final :: "flow \<Rightarrow> serve" where
  "final (Halt s) = s"
| "final (Cont s) = s"
| "final (Crash p s) = s"

end
