(* ===== verification/Serve.thy ===== *)
theory Serve
  imports Serve_Proxy
begin

text \<open>
  Properties of \<^verbatim>\<open>ServeHTTP\<close> as a whole: what must hold for a request to leave the gateway,
  what every request leaves behind in the handler's state, and what a client is answered.
\<close>

section \<open>Composition\<close>

lemma bind_Cont [simp]: "bind f Cont = f" by (cases f) simp_all

lemma bind_assoc: "bind (bind x f) g = bind x (\<lambda>s. bind (f s) g)"
  by (cases x) simp_all

lemma stages_append: "stages (fs @ gs) s = bind (stages fs s) (stages gs)"
proof (induction fs arbitrary: s)
  case (Cons f fs)
  then have "stages (fs @ gs) = (\<lambda>s. bind (stages fs s) (stages gs))" by blast
  then show ?case by (simp add: bind_assoc)
qed simp

lemma bind_eq_ContD: "bind x f = Cont s' \<Longrightarrow> \<exists>s. x = Cont s \<and> f s = Cont s'"
  by (cases x) auto

text \<open>A relation that every stage establishes between the state it gets and the one it leaves.\<close>

definition keeps :: "(serve \<Rightarrow> serve \<Rightarrow> bool) \<Rightarrow> (serve \<Rightarrow> flow) \<Rightarrow> bool" where
  "keeps R f \<longleftrightarrow> (\<forall>s. R s (final (f s)))"

lemma keepsD: "keeps R f \<Longrightarrow> f s = Halt s' \<or> f s = Cont s' \<or> f s = Crash p s' \<Longrightarrow> R s s'"
  by (metis keeps_def final.simps)

lemma keeps_stages:
  assumes "\<And>s. R s s" "\<And>a b c. R a b \<Longrightarrow> R b c \<Longrightarrow> R a c" "\<And>f. f \<in> set fs \<Longrightarrow> keeps R f"
  shows "keeps R (stages fs)"
  using assms(3)
proof (induction fs)
  case Nil
  then show ?case by (simp add: keeps_def assms(1))
next
  case (Cons f fs)
  have "R s (final (f s))" "R t (final (stages fs t))" for s t
    using Cons by (simp_all add: keeps_def)
  then have "R s (final (bind (f s) (stages fs)))" for s
    using assms(2)[of s] by (cases "f s") (metis bind.simps final.simps)+
  then show ?case by (simp add: keeps_def)
qed

section \<open>What the stages leave alone\<close>

text \<open>The configuration and the request as far as access decisions read them.\<close>

definition same_config :: "GatewayHandler \<Rightarrow> GatewayHandler \<Rightarrow> bool" where
  "same_config h h' \<longleftrightarrow> authToken h' = authToken h \<and> routes h' = routes h \<and> apiKeys h' = apiKeys h \<and>
     limiters h' = limiters h \<and> redisEnabled h' = redisEnabled h \<and> transports h' = transports h"

definition same_request :: "request \<Rightarrow> request \<Rightarrow> bool" where
  "same_request r r' \<longleftrightarrow> rq_Method r' = rq_Method r \<and> rq_Path r' = rq_Path r \<and> rq_Header r' = rq_Header r \<and>
     rq_RemoteAddr r' = rq_RemoteAddr r \<and> rq_RawQuery r' = rq_RawQuery r"

definition quiet :: "serve \<Rightarrow> serve \<Rightarrow> bool" where
  "quiet s s' \<longleftrightarrow> forwards (sv_out s') = forwards (sv_out s) \<and> same_config (sv_h s) (sv_h s') \<and> balancing (sv_h s') = balancing (sv_h s) \<and>
     sv_log s' = sv_log s \<and> circuitBreakers (sv_h s') = circuitBreakers (sv_h s)"

lemma quiet_refl [simp]: "quiet s s" by (simp add: quiet_def same_config_def)

lemma quiet_trans: "quiet a b \<Longrightarrow> quiet b c \<Longrightarrow> quiet a c" by (simp add: quiet_def same_config_def)

lemma quiet_simps [simp]:
  "quiet s (error_response env m c st t) = quiet s t"
  "quiet s (count_error t) = quiet s t"
  "quiet s (t\<lparr>sv_w := w\<rparr>) = quiet s t" "quiet s (t\<lparr>sv_r := r\<rparr>) = quiet s t" "quiet s (t\<lparr>sv_route := ro\<rparr>) = quiet s t"
  "quiet s (t\<lparr>sv_clientIP := i\<rparr>) = quiet s t" "quiet s (t\<lparr>sv_reqBody := i\<rparr>) = quiet s t"
  "quiet s (t\<lparr>sv_traceparent := i\<rparr>) = quiet s t" "quiet s (t\<lparr>sv_traceID := i\<rparr>) = quiet s t"
  "quiet s (t\<lparr>sv_cacheKey := ck\<rparr>) = quiet s t"
  by (simp_all add: quiet_def error_response_def count_error_def same_config_def)

lemma limited_frame:
  assumes "limited env i key lmt s = (b, s')"
  shows "s' = s\<lparr>sv_h := (sv_h s)\<lparr>ratLimiters := ratLimiters (sv_h s')\<rparr>\<rparr>"
  using assms by (auto simp: limited_def split_beta Let_def)

lemma quiet_limited: "limited env i key lmt s = (b, s') \<Longrightarrow> quiet s s'"
  by (subst limited_frame) (auto simp: quiet_def same_config_def)

lemma keepsI: "(\<And>s. R s (final (f s))) \<Longrightarrow> keeps R f" by (simp add: keeps_def)

lemma quiet_count: "keeps quiet stage_count"
  by (rule keepsI) (simp add: stage_count_def quiet_def same_config_def)

lemma quiet_tenants: "keeps quiet (stage_tenants env)"
  by (rule keepsI) (simp add: stage_tenants_def quiet_def same_config_def split: sum.splits)

lemma quiet_reload: "keeps quiet (stage_policy_reload env)"
  by (rule keepsI) (simp add: stage_policy_reload_def Let_def split_beta UpdatePolicySchema_def quiet_def same_config_def
      error_response_def split: option.splits)

lemma quiet_governance: "keeps quiet (stage_governance env)"
  by (rule keepsI) (simp add: stage_governance_def split_beta)

lemma quiet_placement: "keeps quiet (stage_tenant_placement env)"
  by (rule keepsI) (simp add: stage_tenant_placement_def Let_def split: option.splits)

lemma quiet_docs: "keeps quiet (stage_docs env)"
  by (rule keepsI) (simp add: stage_docs_def)

lemma quiet_auth: "keeps quiet (stage_auth env)"
  by (rule keepsI) (simp add: stage_auth_def Let_def split: option.splits)

lemma quiet_route: "keeps quiet (stage_route env)"
  by (rule keepsI) (simp add: stage_route_def split: option.splits)

lemma quiet_if_limited:
  "quiet s (snd (limited env i key lmt s))"
  using quiet_limited[of env i key lmt s] by (cases "limited env i key lmt s") simp

lemma quiet_api_key: "keeps quiet (stage_api_key env)"
  by (rule keepsI) (simp add: stage_api_key_def Let_def split_beta quiet_if_limited split: option.splits)

lemma quiet_registry: "keeps quiet (stage_registry env)"
  by (rule keepsI)
    (simp add: stage_registry_def quiet_def same_config_def error_response_def Let_def split_beta split: option.splits prod.splits bool.splits)

lemma quiet_mcp: "keeps quiet (stage_mcp env)"
proof (rule keepsI)
  fix s
  have "quiet s (snd (limited env 3 k 5 (s\<lparr>sv_r := r\<rparr>)))" for k r
    using quiet_if_limited[of "s\<lparr>sv_r := r\<rparr>" env 3 k 5] by (simp add: quiet_def)
  then show "quiet s (final (stage_mcp env s))"
    by (simp add: stage_mcp_def Let_def split_beta split: option.splits)
qed

lemma quiet_ip: "keeps quiet (stage_ip env)"
  by (rule keepsI) (simp add: stage_ip_def Let_def)

lemma quiet_policy: "keeps quiet (stage_policy env)"
  by (rule keepsI) (simp add: stage_policy_def Let_def split_beta split: option.splits)

lemma quiet_rate: "keeps quiet (stage_rate env)"
  by (rule keepsI) (simp add: stage_rate_def Let_def split_beta quiet_if_limited)

lemma quiet_backpressure: "keeps quiet (stage_backpressure env)"
  by (rule keepsI) (simp add: stage_backpressure_def Let_def split: option.splits)

lemma quiet_graphql: "keeps quiet (stage_graphql env)"
  by (rule keepsI) (simp add: stage_graphql_def)

lemmas quiet_access = quiet_count quiet_tenants quiet_reload quiet_governance quiet_placement quiet_docs quiet_auth quiet_route
  quiet_api_key quiet_registry quiet_mcp quiet_ip quiet_policy quiet_rate quiet_backpressure quiet_graphql

lemma access_quiet: "keeps quiet (stages (access_stages env))"
  by (rule keeps_stages) (auto simp: access_stages_def intro: quiet_trans quiet_access)

section \<open>What a stage that lets a request pass has checked\<close>

text \<open>
  \<open>passes f P\<close>: when \<open>f\<close> lets a request go on, \<open>P\<close> held before, and the configuration and the
  request are as before as far as access decisions read them.
\<close>

definition unchanged :: "serve \<Rightarrow> serve \<Rightarrow> bool" where
  "unchanged s s' \<longleftrightarrow> quiet s s' \<and> same_request (sv_r s) (sv_r s') \<and> session (sv_h s') = session (sv_h s) \<and>
     policySchema (sv_h s') = policySchema (sv_h s) \<and> tenantPolicies (sv_h s') = tenantPolicies (sv_h s)"

definition passes :: "(serve \<Rightarrow> flow) \<Rightarrow> (serve \<Rightarrow> bool) \<Rightarrow> bool" where
  "passes f P \<longleftrightarrow> (\<forall>s s'. f s = Cont s' \<longrightarrow> P s \<and> unchanged s s')"

lemma unchanged_refl [simp]: "unchanged s s" by (simp add: unchanged_def same_request_def)

lemma unchanged_trans: "unchanged a b \<Longrightarrow> unchanged b c \<Longrightarrow> unchanged a c"
  by (auto simp: unchanged_def same_request_def intro: quiet_trans)

lemma unchanged_updates [simp]:
  "unchanged s (s\<lparr>sv_w := w\<rparr>)" "unchanged s (s\<lparr>sv_route := ro\<rparr>)" "unchanged s (s\<lparr>sv_clientIP := i\<rparr>)"
  by (simp_all add: unchanged_def same_request_def)

lemma unchanged_body:
  "unchanged s (s\<lparr>sv_r := (sv_r s)\<lparr>rq_Body := b\<rparr>\<rparr>)"
  "unchanged s (s\<lparr>sv_route := ro, sv_r := (sv_r s)\<lparr>rq_Body := b\<rparr>\<rparr>)"
  "unchanged s (s\<lparr>sv_r := (sv_r s)\<lparr>rq_tenant := tn\<rparr>\<rparr>)" "unchanged s (s\<lparr>sv_r := (sv_r s)\<lparr>rq_redact := rd\<rparr>\<rparr>)"
  by (simp_all add: unchanged_def same_request_def)

lemma limited_snd: "\<exists>l. snd (limited env i key lmt s) = s\<lparr>sv_h := (sv_h s)\<lparr>ratLimiters := l\<rparr>\<rparr>"
  by (simp add: limited_def split_beta Let_def) blast

lemma unchanged_limited: "unchanged s (snd (limited env i key lmt s))"
  using limited_snd[of env i key lmt s] by (auto simp: unchanged_def quiet_def same_config_def same_request_def)

lemma route_limited [simp]: "sv_route (snd (limited env i key lmt s)) = sv_route s" "sv_r (snd (limited env i key lmt s)) = sv_r s"
  "sv_clientIP (snd (limited env i key lmt s)) = sv_clientIP s"
  using limited_snd[of env i key lmt s] by auto

lemma unchanged_then:
  "unchanged s (t\<lparr>sv_w := w\<rparr>) = unchanged s t"
  "unchanged s (t\<lparr>sv_route := ro\<rparr>) = unchanged s t"
  "unchanged s (t\<lparr>sv_r := (sv_r t)\<lparr>rq_tenant := tn\<rparr>\<rparr>) = unchanged s t"
  "unchanged s (t\<lparr>sv_r := (sv_r t)\<lparr>rq_redact := rd\<rparr>\<rparr>) = unchanged s t"
  "unchanged s (t\<lparr>sv_r := (sv_r t)\<lparr>rq_Body := b\<rparr>\<rparr>) = unchanged s t"
  by (simp_all add: unchanged_def same_request_def)

lemma unchanged_r: "unchanged s t \<Longrightarrow> same_request (sv_r s) r \<Longrightarrow> unchanged s (t\<lparr>sv_r := r\<rparr>)"
  by (simp add: unchanged_def)

lemma same_request_simps [simp]:
  "same_request r r" "same_request r (r\<lparr>rq_tenant := x\<rparr>)" "same_request r (r\<lparr>rq_redact := y\<rparr>)" "same_request r (r\<lparr>rq_Body := b\<rparr>)"
  by (simp_all add: same_request_def)

lemma reread_request: "\<exists>b. snd (snd (reread_body r)) = r\<lparr>rq_Body := b\<rparr>"
  by (simp add: reread_body_def split_beta Let_def) blast

definition authenticated :: "'ip serve_env \<Rightarrow> GatewayHandler \<Rightarrow> request \<Rightarrow> bool" where
  "authenticated env h r \<longleftrightarrow> authToken h = [] \<or> bearer_token r = authToken h \<or> jwt_user env h r \<noteq> None"

definition key_accepted :: "GatewayHandler \<Rightarrow> Route \<Rightarrow> request \<Rightarrow> bool" where
  "key_accepted h route r \<longleftrightarrow> RequireAPIKey route \<longrightarrow>
     (\<exists>k. apiKeys h (Header_Get (rq_Header r) ''X-API-Key'') = Some k \<and> key_allows k (rq_Path r) \<and> tenant_allowed route k)"

definition policy_allows :: "'ip serve_env \<Rightarrow> GatewayHandler \<Rightarrow> request \<Rightarrow> bool" where
  "policy_allows env h r \<longleftrightarrow> (\<forall>p. policySchema h = Some p \<longrightarrow>
     \<not> (let (roles, headers) = extractUserRolesAndHeaders (roles_of env) r;
            (action, _, _, matched) = EvaluatePolicy (rq_Method r) (rq_Path r) headers roles (Some p)
        in matched \<and> action = ''deny''))"

definition placement_ok :: "'ip serve_env \<Rightarrow> GatewayHandler \<Rightarrow> request \<Rightarrow> bool" where
  "placement_ok env h r \<longleftrightarrow> (let t = Header_Get (rq_Header r) ''X-Tenant-ID'' in
     t \<noteq> [] \<longrightarrow> tenant_placement (map_of (tenantPolicies h) t) (getenv env ''SERV_CLUSTER'') (getenv env ''SERV_REGION'') = None)"

lemma passesI: "(\<And>s s'. f s = Cont s' \<Longrightarrow> P s \<and> unchanged s s') \<Longrightarrow> passes f P" by (simp add: passes_def)

lemma passesD: "passes f P \<Longrightarrow> f s = Cont s' \<Longrightarrow> P s \<and> unchanged s s'" by (simp add: passes_def)

lemma pass_count: "passes stage_count (\<lambda>_. True)"
  by (rule passesI) (auto simp: stage_count_def unchanged_def quiet_def same_config_def same_request_def)

lemma pass_tenants: "passes (stage_tenants env) (\<lambda>_. True)"
  by (rule passesI) (auto simp: stage_tenants_def split: if_splits sum.splits)

lemma pass_reload: "passes (stage_policy_reload env) (\<lambda>_. True)"
  by (rule passesI) (auto simp: stage_policy_reload_def Let_def split_beta split: if_splits)

lemma pass_governance: "passes (stage_governance env) (\<lambda>_. True)"
  by (rule passesI) (auto simp: stage_governance_def split_beta split: if_splits)

lemma pass_placement: "passes (stage_tenant_placement env) (\<lambda>s. placement_ok env (sv_h s) (sv_r s))"
  by (rule passesI) (auto simp: stage_tenant_placement_def placement_ok_def Let_def split: if_splits option.splits)

lemma pass_docs: "passes (stage_docs env) (\<lambda>_. True)"
  by (rule passesI) (auto simp: stage_docs_def split: if_splits)

lemma pass_auth: "passes (stage_auth env) (\<lambda>s. authenticated env (sv_h s) (sv_r s))"
  by (rule passesI) (auto simp: stage_auth_def authenticated_def Let_def split: if_splits option.splits)

lemma pass_route:
  "stage_route env s = Cont s' \<Longrightarrow> match_route (rq_Path (sv_r s)) (routes (sv_h s)) = Some (sv_route s') \<and> unchanged s s'"
  by (auto simp: stage_route_def unchanged_body split: option.splits)

lemma pass_api_key:
  "stage_api_key env s = Cont s' \<Longrightarrow> key_accepted (sv_h s) (sv_route s) (sv_r s) \<and> unchanged s s' \<and> sv_route s' = sv_route s"
  using unchanged_limited[of s env 2 "''apikey:'' @ Header_Get (rq_Header (sv_r s)) ''X-API-Key''"]
  by (auto simp: stage_api_key_def key_accepted_def Let_def split_beta unchanged_then intro!: unchanged_r split: if_splits option.splits)

lemma pass_registry: "stage_registry env s = Cont s' \<Longrightarrow> unchanged s s' \<and> sv_route s' = sv_route s"
  using reread_request[of "sv_r s"]
  by (auto simp: stage_registry_def unchanged_def quiet_def same_config_def Let_def split_beta
      split: if_splits option.splits bool.splits prod.splits)

lemma pass_mcp: "stage_mcp env s = Cont s' \<Longrightarrow> unchanged s s' \<and> sv_route s' = sv_route s"
proof -
  assume a: "stage_mcp env s = Cont s'"
  obtain b where b: "snd (snd (reread_body (sv_r s))) = (sv_r s)\<lparr>rq_Body := b\<rparr>" using reread_request by blast
  let ?s = "s\<lparr>sv_r := (sv_r s)\<lparr>rq_Body := b\<rparr>\<rparr>"
  have "unchanged s ?s" by (rule unchanged_body)
  moreover have "unchanged ?s (snd (limited env 3 k 5 ?s))" for k by (rule unchanged_limited)
  ultimately have "unchanged s (snd (limited env 3 k 5 ?s))" for k by (rule unchanged_trans)
  with a \<open>unchanged s ?s\<close> show ?thesis
    by (auto simp: stage_mcp_def Let_def split_beta b unchanged_then split: if_splits option.splits)
qed

lemma pass_ip:
  "stage_ip env s = Cont s' \<Longrightarrow>
   checkIPAccess (ip_lib env) (client_ip env (sv_r s)) (IPAllowlist (sv_route s)) (IPBlocklist (sv_route s)) \<and> unchanged s s' \<and> sv_route s' = sv_route s"
  by (auto simp: stage_ip_def Let_def split: if_splits)

lemma pass_policy: "passes (stage_policy env) (\<lambda>s. policy_allows env (sv_h s) (sv_r s))"
  by (rule passesI)
    (auto simp: stage_policy_def policy_allows_def Let_def split_beta unchanged_then intro!: unchanged_r split: option.splits if_splits)

lemma pass_rate: "passes (stage_rate env) (\<lambda>_. True)"
proof (rule passesI)
  fix s s' assume "stage_rate env s = Cont s'"
  then show "True \<and> unchanged s s'"
    using unchanged_limited[of s env 4 "sv_clientIP s" "RateLimitRPM (sv_route s)"]
    by (auto simp: stage_rate_def Let_def split_beta split: if_splits)
qed

lemma pass_backpressure: "passes (stage_backpressure env) (\<lambda>_. True)"
  by (rule passesI) (auto simp: stage_backpressure_def Let_def split: option.splits)

lemma pass_graphql: "passes (stage_graphql env) (\<lambda>_. True)"
  by (rule passesI) (auto simp: stage_graphql_def split: if_splits)

lemma unchangedD:
  assumes "unchanged s s'"
  shows "authenticated env (sv_h s') (sv_r s') = authenticated env (sv_h s) (sv_r s)"
    "key_accepted (sv_h s') ro (sv_r s') = key_accepted (sv_h s) ro (sv_r s)"
    "policy_allows env (sv_h s') (sv_r s') = policy_allows env (sv_h s) (sv_r s)"
    "placement_ok env (sv_h s') (sv_r s') = placement_ok env (sv_h s) (sv_r s)"
    "match_route (rq_Path (sv_r s')) (routes (sv_h s')) = match_route (rq_Path (sv_r s)) (routes (sv_h s))"
    "client_ip env (sv_r s') = client_ip env (sv_r s)"
  using assms
  by (simp_all add: unchanged_def quiet_def same_config_def same_request_def authenticated_def key_accepted_def policy_allows_def
      placement_ok_def bearer_token_def jwt_user_def extractUserRolesAndHeaders_def client_ip_def Let_def)

text \<open>
  What holds when the stages up to the API key have let a request pass (\<open>identified\<close>), and when all
  access stages have (\<open>admitted\<close>). The first send anything to the outside only afterwards.
\<close>

definition identified :: "'ip serve_env \<Rightarrow> GatewayHandler \<Rightarrow> request \<Rightarrow> bool" where
  "identified env h r \<longleftrightarrow> authenticated env h r \<and> placement_ok env h r \<and>
     (\<exists>route. match_route (rq_Path r) (routes h) = Some route \<and> key_accepted h route r)"

definition admitted :: "'ip serve_env \<Rightarrow> GatewayHandler \<Rightarrow> request \<Rightarrow> bool" where
  "admitted env h r \<longleftrightarrow> authenticated env h r \<and> placement_ok env h r \<and> policy_allows env h r \<and>
     (\<exists>route. match_route (rq_Path r) (routes h) = Some route \<and> key_accepted h route r \<and>
        checkIPAccess (ip_lib env) (client_ip env r) (IPAllowlist route) (IPBlocklist route))"

definition entry_stages :: "'ip serve_env \<Rightarrow> (serve \<Rightarrow> flow) list" where
  "entry_stages env = [stage_count, stage_tenants env, stage_policy_reload env, stage_governance env,
     stage_tenant_placement env, stage_docs env, stage_auth env, stage_route env, stage_api_key env]"

definition check_stages :: "'ip serve_env \<Rightarrow> (serve \<Rightarrow> flow) list" where
  "check_stages env = [stage_registry env, stage_mcp env, stage_ip env, stage_policy env, stage_rate env,
     stage_backpressure env, stage_graphql env]"

lemma access_split: "access_stages env = entry_stages env @ check_stages env"
  by (simp add: access_stages_def entry_stages_def check_stages_def)

lemma entry_checked:
  assumes "stages (entry_stages env) s0 = Cont s9"
  shows "unchanged s0 s9" "authenticated env (sv_h s0) (sv_r s0)" "placement_ok env (sv_h s0) (sv_r s0)"
    "match_route (rq_Path (sv_r s0)) (routes (sv_h s0)) = Some (sv_route s9)" "key_accepted (sv_h s0) (sv_route s9) (sv_r s0)"
proof -
  from assms obtain s1 s2 s3 s4 s5 s6 s7 s8 where
    st: "stage_count s0 = Cont s1" "stage_tenants env s1 = Cont s2" "stage_policy_reload env s2 = Cont s3"
      "stage_governance env s3 = Cont s4" "stage_tenant_placement env s4 = Cont s5" "stage_docs env s5 = Cont s6"
      "stage_auth env s6 = Cont s7" "stage_route env s7 = Cont s8" "stage_api_key env s8 = Cont s9"
    unfolding entry_stages_def stages.simps bind_Cont by (elim bind_eq_ContD[elim_format] exE conjE) (rule that)
  have u4: "unchanged s0 s4"
    using passesD[OF pass_count st(1)] passesD[OF pass_tenants st(2)] passesD[OF pass_reload st(3)] passesD[OF pass_governance st(4)]
    by (blast intro: unchanged_trans)
  have u5: "unchanged s0 s5" "placement_ok env (sv_h s4) (sv_r s4)" using passesD[OF pass_placement st(5)] u4 by (blast intro: unchanged_trans)+
  have u6: "unchanged s0 s6" using passesD[OF pass_docs st(6)] u5(1) by (blast intro: unchanged_trans)
  have u7: "unchanged s0 s7" "authenticated env (sv_h s6) (sv_r s6)" using passesD[OF pass_auth st(7)] u6 by (blast intro: unchanged_trans)+
  have u8: "unchanged s0 s8" "match_route (rq_Path (sv_r s7)) (routes (sv_h s7)) = Some (sv_route s8)"
    using pass_route[OF st(8)] u7(1) by (blast intro: unchanged_trans)+
  have u9: "unchanged s0 s9" "key_accepted (sv_h s8) (sv_route s8) (sv_r s8)" "sv_route s9 = sv_route s8"
    using pass_api_key[OF st(9)] u8(1) by (blast intro: unchanged_trans)+
  show "unchanged s0 s9" by (rule u9(1))
  show "authenticated env (sv_h s0) (sv_r s0)" using u7(2) unchangedD(1)[OF u6, of env] by simp
  show "placement_ok env (sv_h s0) (sv_r s0)" using u5(2) unchangedD(4)[OF u4, of env] by simp
  show "match_route (rq_Path (sv_r s0)) (routes (sv_h s0)) = Some (sv_route s9)" using u8(2) u9(3) unchangedD(5)[OF u7(1)] by simp
  show "key_accepted (sv_h s0) (sv_route s9) (sv_r s0)" using u9(2,3) unchangedD(2)[OF u8(1), of "sv_route s8"] by simp
qed

lemma access_admitted:
  assumes "stages (access_stages env) s0 = Cont s'"
  shows "admitted env (sv_h s0) (sv_r s0) \<and> unchanged s0 s'"
proof -
  from assms obtain s9 where s9: "stages (entry_stages env) s0 = Cont s9" and rest: "stages (check_stages env) s9 = Cont s'"
    unfolding access_split stages_append by (blast dest: bind_eq_ContD)
  note entry = entry_checked[OF s9]
  from rest obtain s10 s11 s12 s13 s14 s15 where
    st: "stage_registry env s9 = Cont s10" "stage_mcp env s10 = Cont s11" "stage_ip env s11 = Cont s12"
      "stage_policy env s12 = Cont s13" "stage_rate env s13 = Cont s14" "stage_backpressure env s14 = Cont s15" "stage_graphql env s15 = Cont s'"
    unfolding check_stages_def stages.simps bind_Cont by (elim bind_eq_ContD[elim_format] exE conjE) (rule that)
  have u11: "unchanged s0 s11" "sv_route s11 = sv_route s9"
    using pass_registry[OF st(1)] pass_mcp[OF st(2)] entry(1) by (metis unchanged_trans)+
  have u12: "unchanged s0 s12" "checkIPAccess (ip_lib env) (client_ip env (sv_r s11)) (IPAllowlist (sv_route s9)) (IPBlocklist (sv_route s9))"
    using pass_ip[OF st(3)] u11 by (auto intro: unchanged_trans)
  have u13: "unchanged s0 s13" "policy_allows env (sv_h s12) (sv_r s12)" using passesD[OF pass_policy st(4)] u12(1) by (blast intro: unchanged_trans)+
  have "unchanged s0 s'"
    using passesD[OF pass_rate st(5)] passesD[OF pass_backpressure st(6)] passesD[OF pass_graphql st(7)] u13(1) by (blast intro: unchanged_trans)
  moreover have "policy_allows env (sv_h s0) (sv_r s0)" using u13(2) unchangedD(3)[OF u12(1), of env] by simp
  moreover have "checkIPAccess (ip_lib env) (client_ip env (sv_r s0)) (IPAllowlist (sv_route s9)) (IPBlocklist (sv_route s9))"
    using u12(2) unchangedD(6)[OF u11(1), of env] by simp
  ultimately show ?thesis using entry unfolding admitted_def by blast
qed

text \<open>The entry stages send nothing at all.\<close>

definition silent :: "serve \<Rightarrow> serve \<Rightarrow> bool" where
  "silent s s' \<longleftrightarrow> sv_out s' = sv_out s"

lemma silent_refl [simp]: "silent s s" by (simp add: silent_def)

lemma silent_trans: "silent a b \<Longrightarrow> silent b c \<Longrightarrow> silent a c" by (simp add: silent_def)

lemma silent_simps [simp]:
  "silent s (error_response env m c st t) = silent s t" "silent s (count_error t) = silent s t"
  "silent s (t\<lparr>sv_w := w\<rparr>) = silent s t" "silent s (t\<lparr>sv_r := r\<rparr>) = silent s t" "silent s (t\<lparr>sv_route := ro\<rparr>) = silent s t"
  "silent s (t\<lparr>sv_h := h\<rparr>) = silent s t" "silent s (snd (limited env i key lmt t)) = silent s t"
  using limited_snd[of env i key lmt t] by (auto simp: silent_def error_response_def count_error_def)

lemma silent_entry: "keeps silent (stages (entry_stages env))"
proof (rule keeps_stages)
  fix f assume "f \<in> set (entry_stages env)"
  then consider "f = stage_count" | "f = stage_tenants env" | "f = stage_policy_reload env" | "f = stage_governance env"
    | "f = stage_tenant_placement env" | "f = stage_docs env" | "f = stage_auth env" | "f = stage_route env" | "f = stage_api_key env"
    by (auto simp: entry_stages_def)
  then show "keeps silent f"
    by cases (rule keepsI, simp add: stage_count_def stage_tenants_def stage_policy_reload_def stage_governance_def
      stage_tenant_placement_def stage_docs_def stage_auth_def stage_route_def stage_api_key_def Let_def split_beta split: option.splits sum.splits)+
qed (auto intro: silent_trans)

section \<open>What the later stages leave alone\<close>

definition local :: "serve \<Rightarrow> serve \<Rightarrow> bool" where
  "local s s' \<longleftrightarrow> forwards (sv_out s') = forwards (sv_out s) \<and> balancing (sv_h s') = balancing (sv_h s)"

lemma local_refl [simp]: "local s s" by (simp add: local_def)

lemma local_trans: "local a b \<Longrightarrow> local b c \<Longrightarrow> local a c" by (simp add: local_def)

lemma local_simps [simp]:
  "local s (error_response env m c st t) = local s t" "local s (count_error t) = local s t" "local s (add_log e t) = local s t"
  "local s (put_cache p rc t) = local s t"
  "local s (t\<lparr>sv_w := w\<rparr>) = local s t" "local s (t\<lparr>sv_r := r\<rparr>) = local s t" "local s (t\<lparr>sv_reqBody := i\<rparr>) = local s t"
  "local s (t\<lparr>sv_traceparent := i\<rparr>) = local s t" "local s (t\<lparr>sv_traceID := i\<rparr>) = local s t" "local s (t\<lparr>sv_cacheKey := ck\<rparr>) = local s t"
  by (simp_all add: local_def error_response_def count_error_def add_log_def put_cache_def)

lemma local_trace: "keeps local (stage_trace env)"
  by (rule keepsI) (simp add: stage_trace_def Let_def split_beta split: option.splits)

lemma local_cache: "keeps local (stage_cache env)"
  by (rule keepsI) (simp add: stage_cache_def Let_def split_beta split: option.splits)

lemma local_validation: "keeps local (stage_validation env)"
  by (rule keepsI) (simp add: stage_validation_def Let_def split_beta split: option.splits)

lemma local_ai: "keeps local (stage_ai env)"
  by (rule keepsI) (simp add: stage_ai_def Let_def split_beta)

lemma local_wasm: "keeps local (stage_wasm env)"
  by (rule keepsI) (simp add: stage_wasm_def Let_def split: sum.splits)

lemma local_plugin: "keeps local (stage_plugin env)"
  by (rule keepsI) (simp add: stage_plugin_def split: option.splits plugin_outcome.splits)

lemmas local_before = local_trace local_cache local_validation local_ai local_wasm local_plugin

lemma before_local: "keeps local (stages (before_target env))"
  by (rule keeps_stages) (auto simp: before_target_def intro: local_trans local_before)

lemma quiet_local: "quiet s s' \<Longrightarrow> local s s'" by (simp add: quiet_def local_def)

lemma start_simps [simp]:
  "sv_h (start_serve h r) = h" "sv_r (start_serve h r) = r" "sv_out (start_serve h r) = []" "sv_w (start_serve h r) = new_writer"
  by (simp_all add: start_serve_def)

lemma ServeHTTP_split:
  "ServeHTTP env r h = bind (stages (access_stages env) (start_serve h r)) (\<lambda>s. bind (stages (before_target env) s) (to_target env))"
  by (simp add: ServeHTTP_def stages_append bind_assoc)

lemma sent_identified:
  assumes "sv_out (final (ServeHTTP env r h)) \<noteq> []"
  shows "identified env h r"
proof (cases "stages (entry_stages env) (start_serve h r)")
  case (Cont s)
  from entry_checked[OF this] show ?thesis by (auto simp: identified_def)
next
  case (Halt s)
  then have "silent (start_serve h r) s" using keepsD[OF silent_entry] by blast
  with assms Halt show ?thesis by (simp add: ServeHTTP_split access_split stages_append silent_def)
next
  case (Crash p s)
  then have "silent (start_serve h r) s" using keepsD[OF silent_entry] by blast
  with assms Crash show ?thesis by (simp add: ServeHTTP_split access_split stages_append silent_def)
qed

lemma forwarded_admitted:
  assumes "forwards (sv_out (final (ServeHTTP env r h))) \<noteq> []"
  shows "admitted env h r"
proof (cases "stages (access_stages env) (start_serve h r)")
  case (Cont s)
  from access_admitted[OF this] show ?thesis by simp
next
  case (Halt s)
  then have "quiet (start_serve h r) s" using keepsD[OF access_quiet] by blast
  with assms Halt show ?thesis by (simp add: ServeHTTP_split quiet_def)
next
  case (Crash p s)
  then have "quiet (start_serve h r) s" using keepsD[OF access_quiet] by blast
  with assms Crash show ?thesis by (simp add: ServeHTTP_split quiet_def)
qed

section \<open>Connection counters\<close>

definition same_conns :: "serve \<Rightarrow> serve \<Rightarrow> bool" where
  "same_conns s s' \<longleftrightarrow> activeConns (balancing (sv_h s')) = activeConns (balancing (sv_h s))"

lemma same_conns_refl [simp]: "same_conns s s" by (simp add: same_conns_def)

lemma same_conns_trans: "same_conns a b \<Longrightarrow> same_conns b c \<Longrightarrow> same_conns a c" by (simp add: same_conns_def)

lemma same_conns_simps [simp]:
  "same_conns s (error_response env m c st t) = same_conns s t" "same_conns s (count_error t) = same_conns s t"
  "same_conns s (add_log e t) = same_conns s t" "same_conns s (put_cache p rc t) = same_conns s t"
  "same_conns s (put_breaker cb t) = same_conns s t" "same_conns s (penalize t) = same_conns s t"
  "same_conns s (report_load env resp t) = same_conns s t" "same_conns s (record_canary st t) = same_conns s t"
  "same_conns s (count_status st t) = same_conns s t" "same_conns s (store_answer env rw t) = same_conns s t"
  "same_conns s (t\<lparr>sv_w := w\<rparr>) = same_conns s t" "same_conns s (t\<lparr>sv_r := r\<rparr>) = same_conns s t" "same_conns s (t\<lparr>sv_out := ou\<rparr>) = same_conns s t"
  by (simp_all add: same_conns_def error_response_def count_error_def add_log_def put_cache_def put_breaker_def penalize_def
      report_load_def record_canary_def count_status_def store_answer_def Let_def split: option.splits)

lemma conns_breaker: "keeps same_conns (stage_breaker env)"
  by (rule keepsI) (simp add: stage_breaker_def Let_def split_beta)

lemma conns_queue: "keeps same_conns (stage_queue env)"
  by (rule keepsI) (simp add: stage_queue_def Let_def split_beta split: option.splits)

lemma conns_url: "keeps same_conns (stage_target_url env)"
  by (rule keepsI) (simp add: stage_target_url_def)

lemma conns_llm: "keeps same_conns (stage_llm env)"
  by (rule keepsI) (simp add: stage_llm_def)

lemma conns_websocket: "keeps same_conns (stage_websocket env)"
  by (rule keepsI) (simp add: stage_websocket_def Let_def split: option.splits ws_proxy_outcome.splits)

lemma conns_transform: "keeps same_conns (stage_request_transform env)"
  by (rule keepsI) (simp add: stage_request_transform_def Let_def split_beta)

lemma conns_transpile: "keeps same_conns stage_transpile"
  by (rule keepsI) (simp add: stage_transpile_def Let_def split_beta split: sum.splits option.splits)

lemma conns_reverse_proxy: "reverse_proxy env u s = (p, s', rw) \<Longrightarrow> same_conns s s'"
  by (auto simp: reverse_proxy_def Let_def split_beta split: sum.splits modified.splits)

lemma conns_record: "same_conns s (final (record_breaker env st t)) = same_conns s t"
  by (simp add: record_breaker_def split: sum.splits)

lemma conns_proxy: "keeps same_conns (stage_proxy env)"
proof (rule keepsI)
  fix s
  show "same_conns s (final (stage_proxy env s))"
  proof (cases "parse_url env (sv_target s)")
    case (Some u)
    obtain p s' rw where rp: "reverse_proxy env u s = (p, s', rw)" by (cases "reverse_proxy env u s") auto
    from conns_reverse_proxy[OF rp] show ?thesis
      by (cases p) (simp_all add: stage_proxy_def Some rp Let_def conns_record)
  qed (simp add: stage_proxy_def)
qed

lemmas conns_after = conns_breaker conns_queue conns_url conns_llm conns_websocket conns_transform conns_transpile conns_proxy

lemma after_conns: "keeps same_conns (stages (after_target env))"
  by (rule keeps_stages) (auto simp: after_target_def intro: same_conns_trans conns_after)

lemma selectTarget_conns: "selectTarget n route b = Inr (t, b') \<Longrightarrow> activeConns b' = activeConns b"
  by (auto simp: selectTarget_def round_robin_def Let_def split: if_splits sum.splits)

lemma final_map_flow [simp]: "final (map_flow f x) = f (final x)" by (cases x) simp_all

lemma to_target_conns:
  assumes "\<And>t. 0 \<le> mget 0 (activeConns (balancing (sv_h s))) t"
  shows "mget 0 (activeConns (balancing (sv_h (final (to_target env s))))) t = mget 0 (activeConns (balancing (sv_h s))) t"
proof (cases "selectTarget (intn env) (sv_route s) (balancing (sv_h s))")
  case (Inr tb)
  obtain t' b where tb: "tb = (t', b)" by (cases tb)
  let ?s = "s\<lparr>sv_target := t', sv_h := (sv_h s)\<lparr>balancing := incConn t' b\<rparr>\<rparr>"
  have "same_conns ?s (final (stages (after_target env) ?s))" using after_conns[of env] by (auto simp: keeps_def)
  then have "activeConns (balancing (sv_h (final (stages (after_target env) ?s)))) = (activeConns b)(t' \<mapsto> mget 0 (activeConns b) t' + 1)"
    by (simp add: same_conns_def incConn_def)
  with selectTarget_conns[of "intn env" "sv_route s" "balancing (sv_h s)" t' b] Inr tb assms[of t'] show ?thesis
    by (simp add: to_target_def stage_target_def release_conn_def decConn_def Let_def)
qed (simp add: to_target_def stage_target_def)

end
