(* ===== verification/Serve_Guarantees.thy ===== *)
theory Serve_Guarantees
  imports Serve
begin

text \<open>
  The guarantees of \<^verbatim>\<open>ServeHTTP\<close> to the operator: what a request must have passed before
  anything leaves the gateway, and what it leaves behind. The concrete environment at the top
  is the input of the examples.
\<close>

section \<open>A concrete gateway\<close>

definition demo_env :: "string serve_env" where
  "demo_env =
     \<lparr>getenv = (\<lambda>_. []), clock = int, redis = (\<lambda>_. None), jwt = example_env, roles_of = (\<lambda>_. None),
      ip_lib = \<lparr>ParseIP = Some, ParseCIDR = (\<lambda>_. None), IP_Equal = (=)\<rparr>, split_host_port = Some,
      json_of = (\<lambda>_. None), json_text = (\<lambda>_. None), float_oob = (\<lambda>_. 0), error_text = err_Code, tenants_text = (\<lambda>_. []),
      tenant_of = (\<lambda>b. Inr \<lparr>tp_TenantID = b, tp_AllowedClusters = [], tp_AllowedRegions = [], tp_RateLimitRPM = 0\<rparr>),
      schema_of = (\<lambda>_. None),
      registry = (\<lambda>_ _. None), mcp_call = (\<lambda>_. None), acquire = (\<lambda>_. None), span_ids = None,
      sha_hex = (\<lambda>k. k), pii_patterns = [], wasm_run = (\<lambda>_ b. Inr b),
      plugin_request = (\<lambda>_. None), plugin_response = (\<lambda>_. None), intn = (\<lambda>_. 0), queue_of = (\<lambda>_. None),
      queue_post = (\<lambda>_ _ _. None), request_url_ok = (\<lambda>_. True),
      parse_url = (\<lambda>t. Some \<lparr>u_Scheme = ''http'', u_Host = t, u_Path = []\<rparr>), scan_int = (\<lambda>_. None), hijack = None,
      hijack_error = [], dial_ok = (\<lambda>_. True), request_uri = rq_Path, proto = ''HTTP/1.1'', read_error = (\<lambda>_. None),
      upstream = (\<lambda>_ _ _ _ _. Inr ok_response)\<rparr>"

definition demo_route :: Route where
  "demo_route = zero_route\<lparr>Prefix := ''/a'', Target := ''b''\<rparr>"

definition demo_handler :: GatewayHandler where
  "demo_handler = empty_handler [demo_route] ''t'' False"

definition demo_request :: "string \<Rightarrow> string \<Rightarrow> request" where
  "demo_request tok path = \<lparr>rq_Method = ''GET'', rq_Path = path, rq_RawQuery = [], rq_Header = [(''Authorization'', [tok])],
     rq_RemoteAddr = ''c'', rq_ContentLength = 0, rq_Body = Plain [], rq_Host = [], rq_tenant = None, rq_redact = None\<rparr>"

lemmas access_defs = stage_count_def stage_tenants_def stage_policy_reload_def stage_governance_def stage_tenant_placement_def
  stage_docs_def stage_auth_def stage_route_def stage_api_key_def stage_registry_def stage_mcp_def stage_ip_def stage_policy_def
  stage_rate_def stage_backpressure_def stage_graphql_def access_stages_def

lemmas before_defs = stage_trace_def stage_cache_def stage_validation_def stage_ai_def stage_wasm_def stage_plugin_def before_target_def

lemmas after_defs = stage_breaker_def stage_queue_def stage_target_url_def stage_llm_def stage_websocket_def
  stage_request_transform_def stage_transpile_def after_target_def

lemma demo_env_simps [simp]:
  "getenv demo_env = (\<lambda>_. [])"
  "clock demo_env = int"
  "redis demo_env = (\<lambda>_. None)"
  "jwt demo_env = example_env"
  "roles_of demo_env = (\<lambda>_. None)"
  "ip_lib demo_env = \<lparr>ParseIP = Some, ParseCIDR = (\<lambda>_. None), IP_Equal = (=)\<rparr>"
  "split_host_port demo_env = Some"
  "json_of demo_env = (\<lambda>_. None)"
  "json_text demo_env = (\<lambda>_. None)"
  "float_oob demo_env = (\<lambda>_. 0)"
  "error_text demo_env = err_Code"
  "tenants_text demo_env = (\<lambda>_. [])"
  "tenant_of demo_env = (\<lambda>b. Inr \<lparr>tp_TenantID = b, tp_AllowedClusters = [], tp_AllowedRegions = [], tp_RateLimitRPM = 0\<rparr>)"
  "schema_of demo_env = (\<lambda>_. None)"
  "registry demo_env = (\<lambda>_ _. None)"
  "mcp_call demo_env = (\<lambda>_. None)"
  "acquire demo_env = (\<lambda>_. None)"
  "span_ids demo_env = None"
  "sha_hex demo_env = (\<lambda>k. k)"
  "pii_patterns demo_env = []"
  "wasm_run demo_env = (\<lambda>_ b. Inr b)"
  "plugin_request demo_env = (\<lambda>_. None)"
  "plugin_response demo_env = (\<lambda>_. None)"
  "intn demo_env = (\<lambda>_. 0)"
  "queue_of demo_env = (\<lambda>_. None)"
  "queue_post demo_env = (\<lambda>_ _ _. None)"
  "request_url_ok demo_env = (\<lambda>_. True)"
  "parse_url demo_env = (\<lambda>t. Some \<lparr>u_Scheme = ''http'', u_Host = t, u_Path = []\<rparr>)"
  "scan_int demo_env = (\<lambda>_. None)"
  "hijack demo_env = None"
  "hijack_error demo_env = []"
  "dial_ok demo_env = (\<lambda>_. True)"
  "request_uri demo_env = rq_Path"
  "proto demo_env = ''HTTP/1.1''"
  "read_error demo_env = (\<lambda>_. None)"
  "upstream demo_env = (\<lambda>_ _ _ _ _. Inr ok_response)"
  by (simp_all add: demo_env_def)

lemma demo_handler_simps [simp]:
  "routes demo_handler = [demo_route]"
  "authToken demo_handler = ''t''"
  "ratLimiters demo_handler = Map.empty"
  "balancing demo_handler = \<lparr>rrIndices = Map.empty, activeConns = Map.empty, targetLoad = Map.empty\<rparr>"
  "responseCaches demo_handler = []"
  "accessLoggers demo_handler = []"
  "transports demo_handler = Map.empty"
  "limiters demo_handler = Map.empty"
  "apiKeys demo_handler = Map.empty"
  "redisEnabled demo_handler = False"
  "policySchema demo_handler = None"
  "tenantPolicies demo_handler = []"
  "circuitBreakers demo_handler = Map.empty"
  "canaryStats demo_handler = Map.empty"
  by (simp_all add: demo_handler_def empty_handler_def)

lemma demo_request_simps [simp]:
  "rq_Method (demo_request t p) = ''GET''"
  "rq_Path (demo_request t p) = p"
  "rq_RawQuery (demo_request t p) = []"
  "rq_Header (demo_request t p) = [(''Authorization'', [t])]"
  "rq_RemoteAddr (demo_request t p) = ''c''"
  "rq_ContentLength (demo_request t p) = 0"
  "rq_Body (demo_request t p) = Plain []"
  "rq_redact (demo_request t p) = None"
  by (simp_all add: demo_request_def)

lemma canonical_names [simp]:
  "CanonicalHeaderKey ''X-Tenant-ID'' = ''X-Tenant-Id''"
  "CanonicalHeaderKey ''Authorization'' = ''Authorization''"
  "CanonicalHeaderKey ''traceparent'' = ''Traceparent''"
  "CanonicalHeaderKey ''X-Dry-Run'' = ''X-Dry-Run''"
  "CanonicalHeaderKey ''X-Estimate-Only'' = ''X-Estimate-Only''"
  "CanonicalHeaderKey ''Upgrade'' = ''Upgrade''"
  "CanonicalHeaderKey ''X-Forwarded-Host'' = ''X-Forwarded-Host''"
  "CanonicalHeaderKey ''Host'' = ''Host''"
  "CanonicalHeaderKey ''X-Backpressure'' = ''X-Backpressure''"
  "CanonicalHeaderKey ''Content-Length'' = ''Content-Length''"
  "CanonicalHeaderKey ''Content-Type'' = ''Content-Type''"
  "CanonicalHeaderKey ''User-Agent'' = ''User-Agent''"
  "CanonicalHeaderKey ''X-Cache'' = ''X-Cache''"
  "CanonicalHeaderKey ''X-API-Key'' = ''X-Api-Key''"
  by code_simp+


lemma demo_bearer [simp]: "bearer_token (demo_request ''Bearer t'' p) = ''t''"
  by (simp add: bearer_token_def Header_Get_def TrimPrefix_def HasPrefix_def)

lemma stages_Nil_Cont [simp]: "stages [] = Cont" by (rule ext) simp

lemma ToLower_Nil [simp]: "ToLower [] = []" by (simp add: ToLower_def)

definition demo_admitted :: serve where
  "demo_admitted = (start_serve demo_handler (demo_request ''Bearer t'' ''/a/x''))
     \<lparr>sv_h := demo_handler\<lparr>metricsTracker := IncRequest (metricsTracker demo_handler)\<rparr>, sv_route := demo_route,
      sv_r := (demo_request ''Bearer t'' ''/a/x'')\<lparr>rq_Body := Limited [] 10485760\<rparr>, sv_clientIP := ''c''\<rparr>"

lemma demo_access:
  "stages (access_stages demo_env) (start_serve demo_handler (demo_request ''Bearer t'' ''/a/x'')) = Cont demo_admitted"
  by (simp add: access_defs Header_Get_def match_route_def HasPrefix_def demo_route_def checkIPAccess_def client_ip_def Let_def
      limited_def isRateLimited_def MaxBytesReader_def body_limit_def demo_admitted_def)

lemma demo_before: "stages (before_target demo_env) demo_admitted = Cont demo_admitted"
  by (simp add: before_defs Header_Get_def HasPrefix_def demo_route_def needs_ai_def Let_def selectWASMMiddleware_def start_serve_def
      Contains_iff demo_admitted_def)

section \<open>Nothing leaves the gateway unless every check has passed\<close>

lemma out_simps [simp]:
  "sv_out (error_response env m c st s) = sv_out s" "sv_out (count_error s) = sv_out s" "sv_out (add_log e s) = sv_out s"
  "sv_out (put_cache p rc s) = sv_out s" "sv_out (put_breaker cb s) = sv_out s" "sv_out (penalize s) = sv_out s"
  "sv_out (report_load env resp s) = sv_out s" "sv_out (record_canary st s) = sv_out s" "sv_out (count_status st s) = sv_out s"
  "sv_out (store_answer env rw s) = sv_out s" "sv_out (release_conn t s) = sv_out s" "sv_out (final (record_breaker env st s)) = sv_out s"
  by (simp_all add: error_response_def count_error_def add_log_def put_cache_def put_breaker_def penalize_def report_load_def
      record_canary_def count_status_def store_answer_def release_conn_def record_breaker_def Let_def split: option.splits sum.splits)

lemma reverse_proxy_out:
  assumes "reverse_proxy env u s = (p, s', rw)"
  shows "\<exists>sent. sv_out s' = sv_out s @ [ToUpstream (sv_target s) (prepare_request u s) sent]"
  using assms by (auto simp: reverse_proxy_def Let_def split_beta split: sum.splits modified.splits)

lemma stage_proxy_out:
  assumes "parse_url env (sv_target s) = Some u"
  shows "\<exists>sent. sv_out (final (stage_proxy env s)) = sv_out s @ [ToUpstream (sv_target s) (prepare_request u s) sent]"
proof -
  obtain p s' rw where rp: "reverse_proxy env u s = (p, s', rw)" by (cases "reverse_proxy env u s") auto
  from reverse_proxy_out[OF rp] show ?thesis by (cases p) (simp_all add: stage_proxy_def assms rp Let_def)
qed

lemma demo_forwards: "forwards (sv_out (final (ServeHTTP demo_env (demo_request ''Bearer t'' ''/a/x'') demo_handler))) \<noteq> []"
proof -
  have "forwards (sv_out (final (stage_proxy demo_env s))) \<noteq> []" for s
    using stage_proxy_out[of demo_env s] by auto
  then show ?thesis
    by (simp add: ServeHTTP_split demo_access demo_before)
      (simp add: demo_admitted_def to_target_def stage_target_def selectTarget_def demo_route_def after_defs Let_def breaker_of_def
        NewCircuitBreaker_def Allow_def Header_Get_def put_breaker_def HasPrefix_def start_serve_def)
qed

text \<open>A request is forwarded (to an upstream, a queue or a tunnel) only if it is authenticated, the
  tenant may run here, no policy rule denies it, it matches a route, its API key is one the route
  accepts, and its address passes the route's lists. Anything at all is sent out for it, also to the
  schema registry, only if it is authenticated, the tenant may run here, it matches a route and the
  route accepts its API key.\<close>

theorem serve_forwards_only_admitted:
  assumes "sv_out (final (ServeHTTP env r h)) \<noteq> []"
  shows "authenticated env h r \<and> placement_ok env h r \<and>
     (\<exists>route. match_route (rq_Path r) (routes h) = Some route \<and> key_accepted h route r \<and>
        (forwards (sv_out (final (ServeHTTP env r h))) \<noteq> [] \<longrightarrow> policy_allows env h r \<and>
           checkIPAccess (ip_lib env) (client_ip env r) (IPAllowlist route) (IPBlocklist route)))"
  using sent_identified[OF assms] forwarded_admitted[of env r h] by (auto simp: admitted_def identified_def)

lemma demo_sends: "sv_out (final (ServeHTTP demo_env (demo_request ''Bearer t'' ''/a/x'') demo_handler)) \<noteq> []"
  using demo_forwards by (metis forwards_simps(1))

theorem serve_forwards_only_admitted_witness:
  "match_route ''/a/x'' [demo_route] = Some demo_route \<and> authenticated demo_env demo_handler (demo_request ''Bearer t'' ''/a/x'')"
  using serve_forwards_only_admitted[OF demo_sends] by (auto simp: match_route_def split: if_splits)

text \<open>The registry is asked before the address and the policy are checked: the body of a request from a
  blocked address is posted to it, and the request is then refused.\<close>

lemma registry_before_address_check:
  "\<exists>s b. ServeHTTP demo_env ((demo_request ''Bearer t'' ''/a/x'')\<lparr>rq_Method := ''POST''\<rparr>)
      (demo_handler\<lparr>routes := [demo_route\<lparr>SchemaName := ''s'', IPBlocklist := [''c'']\<rparr>]\<rparr>) = Halt s \<and>
    w_status (sv_w s) = Some 403 \<and> sv_out s = [ToRegistry ''http://localhost:8088/api/v1/schemas/validate'' b]"
  by (simp add: ServeHTTP_split access_defs Header_Get_def bearer_token_def TrimPrefix_def match_route_def HasPrefix_def HasSuffix_def TrimSuffix_def demo_route_def checkIPAccess_def
      ipMatches_def client_ip_def Let_def MaxBytesReader_def body_limit_def start_serve_def reread_body_def ReadAll_def error_response_def
      WriteJSONError_def is_informational_def new_writer_def)

section \<open>Refusals\<close>

text \<open>The paths the gateway answers itself before it authenticates.\<close>

definition builtin_paths :: "string list" where
  "builtin_paths = [''/api/tenants/policies'', ''/api/v1/admin/policy/reload'', ''/api/v1/governance/check'', ''/api/docs'', ''/api/docs/openapi.json'']"

text \<open>C2: a request without the gateway's token or a valid JSON web token is answered 401 on every path
  but the built-in ones, or 403 when it names a tenant that may not run here (that check comes
  first); nothing is sent out and nothing changes but the request counter.\<close>

theorem serve_unauthenticated:
  assumes "\<not> authenticated env h r" and "rq_Path r \<notin> set builtin_paths"
  shows "\<exists>s. ServeHTTP env r h = Halt s \<and> w_status (sv_w s) = Some (if placement_ok env h r then 401 else 403) \<and> sv_out s = [] \<and>
    sv_h s = h\<lparr>metricsTracker := IncRequest (metricsTracker h)\<rparr>"
  using assms
  by (auto simp: ServeHTTP_split access_stages_def stage_count_def stage_tenants_def stage_policy_reload_def stage_governance_def
      stage_tenant_placement_def stage_docs_def stage_auth_def builtin_paths_def authenticated_def placement_ok_def Let_def
      error_response_def WriteJSONError_def is_informational_def jwt_user_def start_serve_def new_writer_def split: option.splits)

theorem serve_unauthenticated_witness:
  "\<exists>s. ServeHTTP demo_env (demo_request ''Bearer u'' ''/a/x'') demo_handler = Halt s \<and> w_status (sv_w s) = Some 401 \<and> sv_out s = []"
  using serve_unauthenticated[of demo_env demo_handler "demo_request ''Bearer u'' ''/a/x''"]
  by (auto simp: authenticated_def bearer_token_def Header_Get_def TrimPrefix_def HasPrefix_def jwt_user_def builtin_paths_def placement_ok_def)

text \<open>The endpoint for tenant policies is not guarded: whoever posts a policy there, with or without
  a token, replaces the placement rules of the tenant it names.\<close>

theorem tenant_policies_open:
  assumes "rq_Path r = ''/api/tenants/policies''" and "rq_Method r = ''POST''"
    and "tenant_of env (fst (ReadAll (rq_Body r))) = Inr p" and "tp_TenantID p \<noteq> []"
  shows "\<exists>s. ServeHTTP env r h = Halt s \<and> w_status (sv_w s) = Some 201 \<and>
    tenantPolicies (sv_h s) = AList.update (tp_TenantID p) p (tenantPolicies h)"
  using assms
  by (simp add: ServeHTTP_split access_stages_def stage_count_def stage_tenants_def start_serve_def new_writer_def is_informational_def)

theorem tenant_policies_open_witness:
  "\<exists>s. ServeHTTP demo_env ((demo_request [] ''/api/tenants/policies'')\<lparr>rq_Method := ''POST'', rq_Body := Plain ''acme''\<rparr>) demo_handler = Halt s \<and>
     map_of (tenantPolicies (sv_h s)) ''acme'' = Some \<lparr>tp_TenantID = ''acme'', tp_AllowedClusters = [], tp_AllowedRegions = [], tp_RateLimitRPM = 0\<rparr>"
  using tenant_policies_open[of "(demo_request [] ''/api/tenants/policies'')\<lparr>rq_Method := ''POST'', rq_Body := Plain ''acme''\<rparr>" demo_env
      "\<lparr>tp_TenantID = ''acme'', tp_AllowedClusters = [], tp_AllowedRegions = [], tp_RateLimitRPM = 0\<rparr>" demo_handler]
  by (auto simp: ReadAll_def)

lemma keeps_earlier: "keeps local (stages (access_stages env @ before_target env))"
proof (rule keepsI)
  fix s
  have "local s t" if "stages (access_stages env) s = Halt t \<or> stages (access_stages env) s = Cont t \<or> stages (access_stages env) s = Crash p t" for t p
    using keepsD[OF access_quiet that] by (rule quiet_local)
  moreover have "local t (final (stages (before_target env) t))" for t using before_local[of env] by (auto simp: keeps_def)
  ultimately show "local s (final (stages (access_stages env @ before_target env) s))"
    by (cases "stages (access_stages env) s") (auto simp: stages_append intro: local_trans)
qed

text \<open>C9: when the breaker of the chosen target is open and at most five seconds have passed since its
  last change of state, a request that has passed every earlier check is answered by the error 503
  and is not forwarded to any upstream, queue or tunnel: what has been sent out for it is what the
  earlier checks sent (at most the question to the schema registry). The breaker stays as it is.\<close>

theorem serve_open_circuit:
  assumes "stages (access_stages env @ before_target env) (start_serve h r) = Cont s"
    and "selectTarget (intn env) (sv_route s) (balancing (sv_h s)) = Inr (t, b)"
    and "circuitBreakers (sv_h s) t = Some cb" and "cb_state cb = StateOpen"
    and "time_Sub (clock env 7) (lastStateChange cb) \<le> 5 * time_Second"
  shows "\<exists>s'. ServeHTTP env r h = Halt s' \<and> sv_out s' = sv_out s \<and> forwards (sv_out s') = [] \<and> circuitBreakers (sv_h s') t = Some cb \<and>
    sv_w s' = WriteJSONError (error_text env) (sv_r s) ''Service Unavailable: Circuit breaker open'' ''ERR_CIRCUIT_OPEN'' 503 (sv_w s)"
proof -
  have "local (start_serve h r) s" using keepsD[OF keeps_earlier] assms(1) by blast
  then have "forwards (sv_out s) = []" by (simp add: local_def)
  with assms show ?thesis
    by (simp add: ServeHTTP_def to_target_def stage_target_def after_target_def stage_breaker_def breaker_of_def Allow_def
        put_breaker_def error_response_def release_conn_def)
qed

definition tripped_handler :: GatewayHandler where
  "tripped_handler = demo_handler\<lparr>circuitBreakers := [''b'' \<mapsto> (NewCircuitBreaker 1)\<lparr>cb_state := StateOpen, lastStateChange := 0\<rparr>]\<rparr>"

lemma tripped_stages:
  "\<exists>s. stages (access_stages demo_env @ before_target demo_env) (start_serve tripped_handler (demo_request ''Bearer t'' ''/a/x'')) = Cont s \<and>
     sv_route s = demo_route \<and> balancing (sv_h s) = balancing demo_handler \<and> circuitBreakers (sv_h s) = circuitBreakers tripped_handler"
  by (simp add: access_defs before_defs Header_Get_def match_route_def HasPrefix_def demo_route_def checkIPAccess_def client_ip_def
      limited_def isRateLimited_def MaxBytesReader_def body_limit_def tripped_handler_def needs_ai_def Let_def selectWASMMiddleware_def
      start_serve_def Contains_iff)

theorem serve_open_circuit_witness:
  "\<exists>s'. ServeHTTP demo_env (demo_request ''Bearer t'' ''/a/x'') tripped_handler = Halt s' \<and> forwards (sv_out s') = []"
proof -
  from tripped_stages obtain s where
    "stages (access_stages demo_env @ before_target demo_env) (start_serve tripped_handler (demo_request ''Bearer t'' ''/a/x'')) = Cont s"
    "sv_route s = demo_route" "balancing (sv_h s) = balancing demo_handler" "circuitBreakers (sv_h s) = circuitBreakers tripped_handler" by blast
  with serve_open_circuit[of demo_env tripped_handler "demo_request ''Bearer t'' ''/a/x''" s "''b''" "balancing demo_handler"
      "(NewCircuitBreaker 1)\<lparr>cb_state := StateOpen, lastStateChange := 0\<rparr>"]
  show ?thesis by (auto simp: selectTarget_def demo_route_def tripped_handler_def time_Sub_def time_Second_def)
qed

section \<open>What a request leaves behind\<close>

text \<open>C10: a request, however it ends (an answer, an early return or a panic), leaves the count of open
  connections of every target as it found it.\<close>

theorem serve_conns_restored:
  assumes "\<And>t. 0 \<le> mget 0 (activeConns (balancing h)) t"
  shows "mget 0 (activeConns (balancing (sv_h (final (ServeHTTP env r h))))) t = mget 0 (activeConns (balancing h)) t"
proof -
  have l: "local (start_serve h r) s" if "stages (access_stages env @ before_target env) (start_serve h r) \<in> {Halt s, Cont s, Crash p s}" for s p
    using that keeps_earlier[of env] by (force simp: keeps_def dest: spec[of _ "start_serve h r"])
  show ?thesis
  proof (cases "stages (access_stages env @ before_target env) (start_serve h r)")
    case (Cont s)
    then have "balancing (sv_h s) = balancing h" using l[of s undefined] by (simp add: local_def)
    then show ?thesis using Cont to_target_conns[of s env t] assms by (simp add: ServeHTTP_def)
  qed (use l in \<open>force simp: ServeHTTP_def local_def\<close>)+
qed

theorem serve_conns_restored_witness:
  "mget 0 (activeConns (balancing (sv_h (final (ServeHTTP demo_env (demo_request ''Bearer t'' ''/a/x'') demo_handler))))) ''b'' = 0"
  using serve_conns_restored[of demo_handler demo_env "demo_request ''Bearer t'' ''/a/x''" "''b''"] by (simp add: mget_def)

section \<open>The response cache\<close>

lemma put_cache_simps [simp]:
  "sv_w (put_cache p rc s) = sv_w s" "sv_r (put_cache p rc s) = sv_r s" "sv_route (put_cache p rc s) = sv_route s"
  "map_of (responseCaches (sv_h (put_cache p rc s))) = (map_of (responseCaches (sv_h s)))(p \<mapsto> rc)"
  "sv_cacheKey (put_cache p rc s) = sv_cacheKey s"
  by (simp_all add: put_cache_def update_conv')

lemma add_log_simps [simp]: "sv_w (add_log e s) = sv_w s" "sv_h (add_log e s) = sv_h s"
  by (simp_all add: add_log_def)

text \<open>C25: a successful answer of a route with a cache is stored, and a later request of that route
  that reaches the cache check with the same cache key (method, path and query, in any order of the
  query's parts), before the time to live has passed, is answered from the store: same status, same
  body, nothing sent out. In between, any critical sections of the cache may have run that spare the
  entry: stores and removals of other keys, invalidations of prefixes the key does not have, evictions
  before the expiry. Who asks plays no part: headers, tenant and the fields a policy redacts are free.\<close>

theorem cached_answer_replayed:
  assumes "sv_cacheKey s = Some key"
    and "map_of (responseCaches (sv_h s)) (Prefix (sv_route s)) = Some rc" and "cache_inv rc"
    and "200 \<le> rec_StatusCode rw" "rec_StatusCode rw < 300"
    and "map_of (responseCaches (sv_h (store_answer env rw s))) (Prefix (sv_route s)) = Some rc1"
    and "list_all (spares key (clock env 9 + ttl rc)) evs"
    and "map_of (responseCaches (sv_h s2)) (Prefix (sv_route s2)) = Some (cache_run evs rc1)"
    and "0 < CacheTTLSeconds (sv_route s2)" "IsCacheableMethod (rq_Method (sv_r s2)) (CacheMethods (sv_route s2))"
    and "CacheKey (sha_hex env2) (rq_Method (sv_r s2)) (rq_Path (sv_r s2)) (rq_RawQuery (sv_r s2)) = key"
    and "w_status (sv_w s2) = None" "w_body (sv_w s2) = []" "clock env2 5 \<le> clock env 9 + ttl rc"
  shows "\<exists>s3. stage_cache env2 s2 = Halt s3 \<and> w_status (sv_w s3) = Some (rec_StatusCode rw) \<and> w_body (sv_w s3) = rec_body rw \<and>
    sv_out s3 = sv_out s2"
proof -
  let ?en = "mk_entry (rec_body rw) (rec_StatusCode rw) (CapturedHeaders rw) (clock env 9 + ttl rc)"
  have rc1: "rc1 = cache_step (CSet key (rec_body rw) (rec_StatusCode rw) (CapturedHeaders rw) (clock env 9)) rc"
    using assms(1,2,4-6) by (simp add: store_answer_def)
  have "map_of (entries (cache_run evs rc1)) key = Some ?en"
    using assms(3,7) unfolding rc1
    by (intro spared_entry cache_inv_step) (simp_all add: ResponseCache_Set_def update_conv' mk_entry_def)
  then have "ResponseCache_Get key (clock env2 5) (cache_run evs rc1) = (Some ?en, cache_run evs rc1)"
    using assms(14) by (simp add: ResponseCache_Get_def Get_read_def mk_entry_def)
  with assms(4,5,8-13) show ?thesis
    by (simp add: stage_cache_def Let_def mk_entry_def is_informational_def w_Write_def w_WriteHeader_def w_Set_def)
qed

definition cached_route :: Route where
  "cached_route = zero_route\<lparr>Prefix := ''/a'', CacheTTLSeconds := 60\<rparr>"

definition answered :: serve where
  "answered = (start_serve (demo_handler\<lparr>responseCaches := [(''/a'', NewResponseCache 60)]\<rparr>) (demo_request ''alice'' ''/a/x''))
     \<lparr>sv_route := cached_route, sv_cacheKey := Some (CacheKey (\<lambda>k. k) ''GET'' ''/a/x'' [])\<rparr>"

definition recorded :: StatusRecordingResponseWriter where
  "recorded = \<lparr>rec_w = new_writer, rec_StatusCode = 200, rec_BytesWritten = 6, rec_body = ''secret'', rec_captureBody = True, rec_wroteHeader = True\<rparr>"

theorem cached_answer_replayed_witness:
  "\<exists>s3. stage_cache demo_env ((start_serve (sv_h (store_answer demo_env recorded answered))
     ((demo_request ''mallory'' ''/a/x'')\<lparr>rq_redact := Some [''ssn'']\<rparr>))\<lparr>sv_route := cached_route\<rparr>) = Halt s3 \<and> w_body (sv_w s3) = ''secret''"
proof -
  let ?s2 = "(start_serve (sv_h (store_answer demo_env recorded answered))
     ((demo_request ''mallory'' ''/a/x'')\<lparr>rq_redact := Some [''ssn'']\<rparr>))\<lparr>sv_route := cached_route\<rparr>"
  obtain rc1 where rc1: "map_of (responseCaches (sv_h (store_answer demo_env recorded answered))) ''/a'' = Some rc1"
    by (simp add: store_answer_def answered_def recorded_def cached_route_def)
  have p: "Prefix cached_route = ''/a''" "sv_route answered = cached_route" by (simp_all add: cached_route_def answered_def)
  show ?thesis
    using cached_answer_replayed[of answered "CacheKey (\<lambda>k. k) ''GET'' ''/a/x'' []" "NewResponseCache 60" recorded demo_env rc1 "[]" ?s2 demo_env] rc1 p
    by (auto simp: answered_def recorded_def cached_route_def new_writer_def IsCacheableMethod_def)
qed

section \<open>Redaction\<close>

lemma redact_one:
  "map_of (if map_of d f = None then d else AList.update f v d) g = (if g = f \<and> map_of d f \<noteq> None then Some v else map_of d g)"
  by (simp add: update_conv)

lemma redact_lookup:
  "map_of (redact_fields names data) g = (if g \<in> set names \<and> map_of data g \<noteq> None then Some (JStr ''[REDACTED]'') else map_of data g)"
  unfolding redact_fields_def
proof (induction names arbitrary: data)
  case (Cons f names)
  show ?case by (simp add: Cons.IH update_conv)
qed simp

text \<open>A policy's redaction replaces the value of every named field at the top of a JSON object by
  the mark, adds no field, and leaves the other fields as they are.\<close>

theorem redaction_hides:
  assumes "rq_redact r = Some names" and "json_of env b = Some (JObj data)"
    and "json_text env (JObj (redact_fields names data)) = Some t"
  shows "redact_response env r b = t \<and> (\<forall>f\<in>set names. map_of (redact_fields names data) f \<in> {None, Some (JStr ''[REDACTED]'')}) \<and>
    (\<forall>f. f \<notin> set names \<longrightarrow> map_of (redact_fields names data) f = map_of data f)"
  using assms by (simp add: redact_response_def redact_lookup)

theorem redaction_hides_witness:
  "redact_response (demo_env\<lparr>json_of := (\<lambda>_. Some (JObj [(''ssn'', JStr ''1''), (''n'', JNull)])), json_text := (\<lambda>_. Some ''x'')\<rparr>)
     ((demo_request [] ''/'')\<lparr>rq_redact := Some [''ssn'']\<rparr>) ''b'' = ''x'' \<and>
   map_of (redact_fields [''ssn''] [(''ssn'', JStr ''1''), (''n'', JNull)]) ''n'' = Some JNull"
  using redaction_hides[of "(demo_request [] ''/'')\<lparr>rq_redact := Some [''ssn'']\<rparr>" "[''ssn'']"
      "demo_env\<lparr>json_of := (\<lambda>_. Some (JObj [(''ssn'', JStr ''1''), (''n'', JNull)])), json_text := (\<lambda>_. Some ''x'')\<rparr>" "''b''"
      "[(''ssn'', JStr ''1''), (''n'', JNull)]" "''x''"]
  by simp

text \<open>An answer that is a JSON array, or not JSON, passes as it is.\<close>

lemma redaction_skips_arrays: "json_of env b = Some (JArr js) \<or> json_of env b = None \<Longrightarrow> redact_response env r b = b"
  by (auto simp: redact_response_def split: option.splits)

section \<open>Governance score\<close>

lemma governance_fold:
  "fst (fold governance_route rs acc) = fst acc - 10 * int (length (filter (\<lambda>r. \<not> RequireAPIKey r) rs)) -
     5 * int (length (filter (\<lambda>r. MaxBodySize r \<le> 0) rs))"
  by (induction rs arbitrary: acc) (auto simp: governance_route_def split_beta Let_def)

lemma governance_warnings:
  "length (snd (fold governance_route rs acc)) = length (snd acc) + length (filter (\<lambda>r. \<not> RequireAPIKey r) rs) +
     length (filter (\<lambda>r. MaxBodySize r \<le> 0) rs)"
  by (induction rs arbitrary: acc) (auto simp: governance_route_def split_beta Let_def)

text \<open>The governance score is between 0 and 100: 100 less 20 without a global token, 10 for every route
  without an API key and 5 for every route without a body limit, cut off at 0; there is one warning
  for each deduction.\<close>

theorem governance_score_formula:
  "fst (governance_score h) = max 0 (100 - (if authToken h = [] then 20 else 0)
     - 10 * int (length (filter (\<lambda>r. \<not> RequireAPIKey r) (routes h))) - 5 * int (length (filter (\<lambda>r. MaxBodySize r \<le> 0) (routes h)))) \<and>
   length (snd (governance_score h)) = (if authToken h = [] then 1 else 0) + length (filter (\<lambda>r. \<not> RequireAPIKey r) (routes h)) +
     length (filter (\<lambda>r. MaxBodySize r \<le> 0) (routes h))"
  by (simp add: governance_score_def split_beta Let_def governance_fold governance_warnings)

section \<open>Routes and paths\<close>

text \<open>A route's prefix is matched as a string, not by path segments: \<open>/api\<close> also takes \<open>/apikeys\<close>.\<close>

lemma prefix_crosses_segments:
  "match_route ''/apikeys'' [zero_route\<lparr>Prefix := ''/api''\<rparr>] = Some (zero_route\<lparr>Prefix := ''/api''\<rparr>)"
  "rewrite_path (zero_route\<lparr>Prefix := ''/api''\<rparr>) ''/apikeys'' = ''/keys''"
  by (simp_all add: match_route_def HasPrefix_def rewrite_path_def TrimPrefix_def)

lemma rewrite_path_strips:
  "HasPrefix path (Prefix route @ ''/'') \<Longrightarrow> rewrite_path route path = drop (length (Prefix route)) path"
proof -
  assume "HasPrefix path (Prefix route @ ''/'')"
  then obtain rest where "path = Prefix route @ ''/'' @ rest" by (metis HasPrefix_def append_assoc append_take_drop_id)
  then show ?thesis by (simp add: rewrite_path_def TrimPrefix_def HasPrefix_def)
qed

text \<open>Routes are tried in order: the first whose prefix the path has is used.\<close>

lemma match_route_first:
  "match_route path rs = Some route \<longleftrightarrow> (\<exists>i<length rs. rs ! i = route \<and> HasPrefix path (Prefix route) \<and> (\<forall>j<i. \<not> HasPrefix path (Prefix (rs ! j))))"
  by (auto simp: match_route_def find_Some_iff)

end
