(* ===== verification/Extensions.thy ===== *)
theory Extensions
  imports Serve_Guarantees
begin

text \<open>
  What can be plugged into the gateway: the registry of Go plugins (pkg/proxy/plugin.go), the
  start of the WASM manager (pkg/wasm/runner.go), the tracing wrappers (pkg/otel/tracer.go) and the
  open-source build's answers where the enterprise build has code (pkg/proxy/ai_billing_oss.go,
  ai_billing_types.go, ai_extension_oss.go, ai_waf_oss.go, governance_oss.go, graphql_oss.go).
\<close>

section \<open>Registries\<close>

text \<open>A registry under a name: the last registration of a name is what the lookup returns.\<close>

locale name_registry =
  fixes put :: "'k \<Rightarrow> 'v \<Rightarrow> 's \<Rightarrow> 's" and get :: "'s \<Rightarrow> 'k \<Rightarrow> 'v option"
  assumes get_put: "get (put k v s) l = (if l = k then Some v else get s l)"
begin

lemma get_puts: "get (fold (\<lambda>(k, v). put k v) kvs s) l = (case map_of (rev kvs) l of Some v \<Rightarrow> Some v | None \<Rightarrow> get s l)"
proof (induction kvs arbitrary: s)
  case (Cons kv kvs)
  then show ?case by (cases kv) (auto simp: get_put map_add_def split: option.split)
qed simp

lemma get_last: "(k, v) \<in> set kvs \<Longrightarrow> distinct (map fst kvs) \<Longrightarrow> get (fold (\<lambda>(k, v). put k v) kvs s) k = Some v"
  using map_of_is_SomeI[of "rev kvs" k v] by (simp add: get_puts rev_map[symmetric])

end

text \<open>Go plugins: the map \<^verbatim>\<open>plugins\<close>, written and read under its lock.\<close>

type_synonym 'p plugins = "string \<rightharpoonup> 'p"

definition RegisterPlugin :: "string \<Rightarrow> 'p \<Rightarrow> 'p plugins \<Rightarrow> 'p plugins" where
  "RegisterPlugin name p ps = ps(name \<mapsto> p)"

definition GetPlugin :: "'p plugins \<Rightarrow> string \<Rightarrow> 'p option" where
  "GetPlugin ps name = ps name"

interpretation go_plugins: name_registry RegisterPlugin GetPlugin
  by unfold_locales (simp add: RegisterPlugin_def GetPlugin_def)

interpretation wasm_modules: name_registry Register wm_cache
  by unfold_locales (simp add: Register_def Let_def split: option.split)

record go_plugin =
  OnRequest :: "request \<Rightarrow> plugin_outcome"
  OnResponse :: "request \<Rightarrow> StatusRecordingResponseWriter \<Rightarrow> response \<Rightarrow> string option \<times> StatusRecordingResponseWriter \<times> response"

text \<open>The environment of the handler with the registered plugins.\<close>

definition with_plugins :: "go_plugin plugins \<Rightarrow> 'ip serve_env \<Rightarrow> 'ip serve_env" where
  "with_plugins ps env = env\<lparr>plugin_request := (\<lambda>name. map_option OnRequest (GetPlugin ps name)),
     plugin_response := (\<lambda>name. map_option OnResponse (GetPlugin ps name))\<rparr>"

section \<open>The WASM manager\<close>

text \<open>
  \<^verbatim>\<open>GetMiddlewareManager\<close>: the first call builds the manager, every later one returns what the
  first left behind. \<open>wasi_ok\<close> is the outcome of instantiating WASI. The error is a local variable
  of the call, the manager a global one.
\<close>

record 'c manager_global =
  mg_done :: bool
  globalManager :: "'c wasm_state option"

definition manager_start :: "'c manager_global" where
  "manager_start = \<lparr>mg_done = False, globalManager = None\<rparr>"

definition memLimitPages :: nat where
  "memLimitPages = (64 * 1024 * 1024) div 65536"

definition GetMiddlewareManager :: "bool \<Rightarrow> 'c manager_global \<Rightarrow> ('c wasm_state option \<times> bool) \<times> 'c manager_global" where
  "GetMiddlewareManager wasi_ok g =
     (if mg_done g then ((globalManager g, True), g)
      else if \<not> wasi_ok then ((globalManager g, False), g\<lparr>mg_done := True\<rparr>)
      else ((Some wasm_init, True), g\<lparr>mg_done := True, globalManager := Some wasm_init\<rparr>))"

text \<open>
  After a first call that failed, every later call reports success and hands out no manager.
\<close>

lemma failed_manager_is_nil:
  "GetMiddlewareManager False (manager_start :: 'c manager_global) = ((None, False), g) \<Longrightarrow>
   GetMiddlewareManager ok g = ((None, True), g)"
  by (auto simp: GetMiddlewareManager_def manager_start_def)

section \<open>Tracing\<close>

record span =
  span_TraceID :: string
  span_SpanID :: string
  span_Kind :: int

text \<open>\<open>start\<close> is \<^verbatim>\<open>ServShared.StartSpan\<close>, which returns nil when tracing is off.\<close>

definition StartSpan :: "(string \<Rightarrow> string \<Rightarrow> span option) \<Rightarrow> string \<Rightarrow> string \<Rightarrow> span option" where
  "StartSpan start name parentTrace = (case start name parentTrace of None \<Rightarrow> None | Some s \<Rightarrow> Some (s\<lparr>span_Kind := 2\<rparr>))"

section \<open>The open-source build\<close>

definition getSemanticCache :: "GatewayHandler \<Rightarrow> Route \<Rightarrow> string \<Rightarrow> string option" where
  "getSemanticCache h route prompt = None"

definition setSemanticCache :: "Route \<Rightarrow> string \<Rightarrow> string \<Rightarrow> GatewayHandler \<Rightarrow> GatewayHandler" where
  "setSemanticCache route prompt resp h = h"

text \<open>
  \<^verbatim>\<open>proxyToLLMTarget\<close>: \<open>send\<close> is the HTTP client, \<open>None\<close> for an error; \<open>url_ok\<close> is whether
  \<^verbatim>\<open>http.NewRequest\<close> takes the method and the URL.
\<close>

record llm_call =
  lc_Method :: string
  lc_URL :: string
  lc_Header :: http_header
  lc_Body :: string

definition llm_request :: "LLMTarget \<Rightarrow> string \<Rightarrow> request \<Rightarrow> llm_call" where
  "llm_request target b orig = \<lparr>lc_Method = rq_Method orig, lc_URL = llm_URL target @ rq_Path orig,
     lc_Header = Header_Set ''X-LLM-Model'' (llm_Model target) (add_headers (rq_Header orig) []), lc_Body = b\<rparr>"

definition proxyToLLMTarget ::
    "(string \<Rightarrow> string \<Rightarrow> bool) \<Rightarrow> (llm_call \<Rightarrow> response option) \<Rightarrow> (response \<Rightarrow> bool) \<Rightarrow> LLMTarget \<Rightarrow> string \<Rightarrow> request \<Rightarrow> (string \<times> http_header \<times> int) option" where
  "proxyToLLMTarget url_ok send read_ok target b orig =
     (if \<not> url_ok (rq_Method orig) (llm_URL target @ rq_Path orig) then None
      else (case send (llm_request target b orig) of
        None \<Rightarrow> None
      | Some resp \<Rightarrow> if read_ok resp then Some (rs_Body resp, rs_Header resp, rs_StatusCode resp) else None))"

definition GetAIBillingMetrics :: "GatewayHandler \<Rightarrow> json" where
  "GetAIBillingMetrics h = JObj [(''error'', JStr ''Enterprise Edition required for AI billing metrics'')]"

definition SetAIBudget :: "string \<Rightarrow> rat \<Rightarrow> int \<Rightarrow> GatewayHandler \<Rightarrow> GatewayHandler" where
  "SetAIBudget tenantID maxCostPerDay maxTokensPerMinute h = h"

lemma SetAIBudget_id [simp]: "SetAIBudget t c m h = h"
  by (simp add: SetAIBudget_def)

definition checkAIBudgets :: "GatewayHandler \<Rightarrow> request \<Rightarrow> Route \<Rightarrow> string \<Rightarrow> bool" where
  "checkAIBudgets h r route apiKey = False"

record TokenUsage =
  tu_PromptTokens :: int
  tu_CompletionTokens :: int
  tu_TotalTokens :: int

record BudgetConfig =
  bc_MaxTokensPerMinute :: int
  bc_MaxCostPerDay :: rat
  bc_AlertThreshold :: rat

datatype AIBillingTracker = AIBillingTracker

definition NewAIBillingTracker :: AIBillingTracker where
  "NewAIBillingTracker = AIBillingTracker"

definition GetMetrics :: "AIBillingTracker \<Rightarrow> json" where
  "GetMetrics a = JObj [(''total_cost_usd'', JNum 0)]"

definition SetBudget :: "string \<Rightarrow> BudgetConfig \<Rightarrow> AIBillingTracker \<Rightarrow> AIBillingTracker" where
  "SetBudget tenantID cfg a = a"

definition applyAIResponseExtensions :: "Route \<Rightarrow> request \<Rightarrow> response \<Rightarrow> string \<Rightarrow> GatewayHandler \<Rightarrow> GatewayHandler" where
  "applyAIResponseExtensions route r resp b h = h"

definition chargeAITokens :: "Route \<Rightarrow> request \<Rightarrow> StatusRecordingResponseWriter \<Rightarrow> string \<Rightarrow> GatewayHandler \<Rightarrow> GatewayHandler" where
  "chargeAITokens route r rec b h = h"

definition RunAIWAF :: "request \<Rightarrow> string \<Rightarrow> string \<Rightarrow> bool \<times> string" where
  "RunAIWAF r prompt b = (False, [])"

definition EvaluateEEGovernanceRules :: "GatewayHandler \<Rightarrow> int \<Rightarrow> string list \<Rightarrow> int \<times> string list" where
  "EvaluateEEGovernanceRules h baseScore warnings = (baseScore, warnings)"

text \<open>
  The model header is set last, so it holds the target's model even when the client sent one.
\<close>

lemma llm_request_model: "Header_Get (lc_Header (llm_request target b orig)) ''X-LLM-Model'' = llm_Model target"
  by (simp add: llm_request_def Header_Get_Set)

text \<open>A plugin that is registered is the one the handler runs.\<close>

lemma stage_plugin_registered:
  assumes "GoMiddleware (sv_route s) = name" and "name \<noteq> []" and "OnRequest p (sv_r s) = PluginPass r"
  shows "stage_plugin (with_plugins (RegisterPlugin name p ps) env) s = Cont (s\<lparr>sv_r := r\<rparr>)"
  using assms by (simp add: stage_plugin_def with_plugins_def go_plugins.get_put)

end
