(* ===== verification/Config_Provider.thy ===== *)
theory Config_Provider
  imports Config Jwt
begin

text \<open>
  Where the configuration lives: pkg/proxy/provider.go. \<^verbatim>\<open>signConfig\<close> and
  \<^verbatim>\<open>verifyConfigSignature\<close>, the local file provider and the S3 provider. Parameters
  (\<open>provider_env\<close>): SHA-256, HMAC, the JSON encoder and decoder at the types they are used at,
  URL syntax. The file system is a map from paths to contents; the object store's answer to each
  request is an argument.
\<close>

record provider_env =
  sha256 :: "string \<Rightarrow> string"
  hmac :: "string \<Rightarrow> string \<Rightarrow> string"
  marshal_routes :: "Route list \<Rightarrow> string option"
  encode_config :: "GatewayConfig \<Rightarrow> string option"
  decode_config :: "string \<Rightarrow> GatewayConfig option"
  sig_claims :: "string \<Rightarrow> (string \<times> int \<times> string) option"
  discovery_manifest :: "string \<Rightarrow> (string \<times> string) option"
  url_ok :: "string \<Rightarrow> bool"

datatype config_error =
    MissingSignature
  | InvalidSignatureFormat
  | InvalidSignature
  | ClaimsEncoding
  | ClaimsJSON
  | SignatureExpired
  | InvalidIssuer string
  | SerializeRoutes
  | HashMismatch
  | VerificationFailed config_error
  | SignFailed config_error
  | NotExist
  | DecodeError
  | EncodeError
  | WriteError
  | BadRequestURL
  | NetworkError
  | BadStatus int string

section \<open>Signing\<close>

definition time_24h :: duration where "time_24h = 86400000000000"

text \<open>
  \<^verbatim>\<open>json.Marshal\<close> of the two maps of \<^verbatim>\<open>signConfig\<close>: keys in sorted order, the hash is in
  the URL alphabet and needs no escaping.
\<close>

definition sig_header_json :: string where
  "sig_header_json = ''{\"alg\":\"HS256\",\"typ\":\"JWT\"}''"

definition sig_claims_json :: "string \<Rightarrow> int \<Rightarrow> string" where
  "sig_claims_json config_hash e =
     ''{\"config_hash\":\"'' @ config_hash @ ''\",\"exp\":'' @ fmt_d e @ '',\"iss\":\"servconsole\"}''"

definition signConfig :: "provider_env \<Rightarrow> GatewayConfig \<Rightarrow> string \<Rightarrow> time \<Rightarrow> config_error + GatewayConfig" where
  "signConfig env cfg secret now = (case marshal_routes env (cfg_Routes cfg) of
     None \<Rightarrow> Inl SerializeRoutes
   | Some routesData \<Rightarrow>
       (let computedHash = RawURLEncode (sha256 env routesData);
            claimsBytes = sig_claims_json computedHash (time_Unix (now + time_24h));
            headerEnc = RawURLEncode sig_header_json;
            claimsEnc = RawURLEncode claimsBytes;
            sig = RawURLEncode (hmac env secret (headerEnc @ ''.'' @ claimsEnc))
        in Inr (cfg\<lparr>cfg_Signature := headerEnc @ ''.'' @ claimsEnc @ ''.'' @ sig\<rparr>)))"

definition verifyConfigSignature :: "provider_env \<Rightarrow> GatewayConfig \<Rightarrow> string \<Rightarrow> time \<Rightarrow> config_error option" where
  "verifyConfigSignature env cfg secret now =
     (if cfg_Signature cfg = [] then Some MissingSignature
      else (case Split (cfg_Signature cfg) CHR ''.'' of
        [headerPart, payloadPart, signaturePart] \<Rightarrow>
          (let expectedMac = hmac env secret (headerPart @ ''.'' @ payloadPart) in
           if decodeBase64Url signaturePart \<noteq> Some expectedMac then Some InvalidSignature
           else (case decodeBase64Url payloadPart of
              None \<Rightarrow> Some ClaimsEncoding
            | Some payloadBytes \<Rightarrow> (case sig_claims env payloadBytes of
                None \<Rightarrow> Some ClaimsJSON
              | Some (ConfigHash, Exp, Issuer) \<Rightarrow>
                  if Exp > 0 \<and> time_Unix now > Exp then Some SignatureExpired
                  else if Issuer \<noteq> ''servconsole'' then Some (InvalidIssuer Issuer)
                  else (case marshal_routes env (cfg_Routes cfg) of
                     None \<Rightarrow> Some SerializeRoutes
                   | Some routesData \<Rightarrow>
                       (let computedHash = RawURLEncode (sha256 env routesData) in
                        if ConfigHash \<noteq> computedHash then Some HashMismatch else None)))))
      | _ \<Rightarrow> Some InvalidSignatureFormat))"

section \<open>The providers\<close>

type_synonym filesystem = "string \<rightharpoonup> string"

definition check_loaded :: "provider_env \<Rightarrow> string \<Rightarrow> time \<Rightarrow> GatewayConfig \<Rightarrow> config_error + GatewayConfig" where
  "check_loaded env secret now cfg =
     (if secret \<noteq> [] then (case verifyConfigSignature env cfg secret now of
         Some e \<Rightarrow> Inl (VerificationFailed e) | None \<Rightarrow> Inr cfg)
      else Inr cfg)"

definition LocalFileProvider_Load ::
  "provider_env \<Rightarrow> string \<Rightarrow> string \<Rightarrow> time \<Rightarrow> filesystem \<Rightarrow> config_error + GatewayConfig" where
  "LocalFileProvider_Load env path secret now fs = (case fs path of
     None \<Rightarrow> Inl NotExist
   | Some content \<Rightarrow> (case decode_config env content of
       None \<Rightarrow> Inl DecodeError
     | Some cfg \<Rightarrow> check_loaded env secret now cfg))"

definition sign_for_save :: "provider_env \<Rightarrow> string \<Rightarrow> time \<Rightarrow> GatewayConfig \<Rightarrow> config_error + GatewayConfig" where
  "sign_for_save env secret now cfg =
     (if secret \<noteq> [] then (case signConfig env cfg secret now of Inl e \<Rightarrow> Inl (SignFailed e) | Inr cfg' \<Rightarrow> Inr cfg')
      else Inr cfg)"

text \<open>
  \<^verbatim>\<open>os.WriteFile\<close> opens the file with truncation and then writes: it fails at the open, with the
  file as it was, or after the truncation, with the bytes on disk that had been written by then.
\<close>

datatype write_fate = Written | OpenFails | WriteFails nat

definition os_WriteFile :: "write_fate \<Rightarrow> string \<Rightarrow> string \<Rightarrow> filesystem \<Rightarrow> bool \<times> filesystem" where
  "os_WriteFile fate path data fs = (case fate of
     Written \<Rightarrow> (True, fs(path \<mapsto> data))
   | OpenFails \<Rightarrow> (False, fs)
   | WriteFails n \<Rightarrow> (False, fs(path \<mapsto> take n data)))"

definition LocalFileProvider_Save ::
  "provider_env \<Rightarrow> string \<Rightarrow> string \<Rightarrow> time \<Rightarrow> write_fate \<Rightarrow> GatewayConfig \<Rightarrow> filesystem
     \<Rightarrow> (config_error + GatewayConfig) \<times> filesystem" where
  "LocalFileProvider_Save env path secret now fate cfg fs = (case sign_for_save env secret now cfg of
     Inl e \<Rightarrow> (Inl e, fs)
   | Inr cfg' \<Rightarrow> (case encode_config env cfg' of
       None \<Rightarrow> (Inl EncodeError, fs)
     | Some data \<Rightarrow> (let (ok, fs') = os_WriteFile fate path data fs in (if ok then Inr cfg' else Inl WriteError, fs'))))"

record S3ConfigProvider =
  s3_Endpoint :: string
  s3_Bucket :: string
  s3_Key :: string
  s3_AccessKey :: string
  s3_SecretKey :: string
  s3_AuthToken :: string

text \<open>
  \<^verbatim>\<open>NewS3ConfigProvider\<close>: explicit environment variables first, then the discovery
  manifest (inline or a file), then the defaults.
\<close>

definition s3_discovery :: "provider_env \<Rightarrow> filesystem \<Rightarrow> string \<Rightarrow> (string \<times> string) option" where
  "s3_discovery env fs raw =
     (if raw = [] then None
      else (case discovery_manifest env raw of
        Some m \<Rightarrow> Some m
      | None \<Rightarrow> (case fs raw of None \<Rightarrow> None | Some data \<Rightarrow> discovery_manifest env data)))"

definition or_default :: "string \<Rightarrow> string \<Rightarrow> string" where
  "or_default s d = (if s = [] then d else s)"

definition NewS3ConfigProvider :: "provider_env \<Rightarrow> (string \<Rightarrow> string) \<Rightarrow> filesystem \<Rightarrow> S3ConfigProvider" where
  "NewS3ConfigProvider env getenv fs =
     (let endpoint = getenv ''SERV_CONFIG_S3_ENDPOINT'';
          bucket = getenv ''SERV_CONFIG_S3_BUCKET'';
          key = getenv ''SERV_CONFIG_S3_KEY'';
          accessKey = getenv ''SERV_CONFIG_S3_ACCESS_KEY'';
          secretKey = getenv ''SERV_CONFIG_S3_SECRET_KEY'';
          authToken = getenv ''SERV_CONFIG_S3_AUTH_TOKEN'';
          manifest = (if endpoint = [] \<or> bucket = [] \<or> authToken = []
                      then s3_discovery env fs (getenv ''SERVVERSE_DISCOVERY'') else None);
          endpoint = (case manifest of Some (Store, _) \<Rightarrow> or_default endpoint Store | None \<Rightarrow> endpoint);
          authToken = (case manifest of Some (_, tok) \<Rightarrow> or_default authToken tok | None \<Rightarrow> authToken)
      in \<lparr>s3_Endpoint = TrimSuffix (or_default endpoint ''http://localhost:8081'') ''/'',
          s3_Bucket = or_default bucket ''serv-config'',
          s3_Key = or_default key ''gate-config.json'',
          s3_AccessKey = accessKey,
          s3_SecretKey = secretKey,
          s3_AuthToken = or_default authToken ''gateway-secret-token''\<rparr>)"

datatype http_answer = NetFailure | HttpAnswer int string

record s3_request =
  sr_Method :: string
  sr_URL :: string
  sr_Auth :: string
  sr_Body :: string

definition s3_auth :: "S3ConfigProvider \<Rightarrow> string" where
  "s3_auth p = (if s3_AuthToken p \<noteq> [] then ''Bearer '' @ s3_AuthToken p else [])"

definition s3_url :: "S3ConfigProvider \<Rightarrow> string" where
  "s3_url p = s3_Endpoint p @ ''/'' @ s3_Bucket p @ ''/'' @ s3_Key p"

definition ensureBucketExists :: "provider_env \<Rightarrow> S3ConfigProvider \<Rightarrow> s3_request list" where
  "ensureBucketExists env p = (let url = s3_Endpoint p @ ''/'' @ s3_Bucket p in
     if url_ok env url then [\<lparr>sr_Method = ''PUT'', sr_URL = url, sr_Auth = s3_auth p, sr_Body = []\<rparr>] else [])"

text \<open>\<open>Load\<close> and \<open>Save\<close> return the requests they send; \<open>ans\<close> answers the request for the object.\<close>

definition S3ConfigProvider_Load ::
  "provider_env \<Rightarrow> S3ConfigProvider \<Rightarrow> string \<Rightarrow> time \<Rightarrow> (s3_request \<Rightarrow> http_answer)
     \<Rightarrow> (config_error + GatewayConfig) \<times> s3_request list" where
  "S3ConfigProvider_Load env p secret now ans =
     (if \<not> url_ok env (s3_url p) then (Inl BadRequestURL, [])
      else (let req = \<lparr>sr_Method = ''GET'', sr_URL = s3_url p, sr_Auth = s3_auth p, sr_Body = []\<rparr> in
        (case ans req of
           NetFailure \<Rightarrow> Inl NetworkError
         | HttpAnswer status b \<Rightarrow>
             if status = 404 then Inl NotExist
             else if status \<noteq> 200 then Inl (BadStatus status b)
             else (case decode_config env b of None \<Rightarrow> Inl DecodeError | Some cfg \<Rightarrow> check_loaded env secret now cfg),
         [req])))"

definition S3ConfigProvider_Save ::
  "provider_env \<Rightarrow> S3ConfigProvider \<Rightarrow> string \<Rightarrow> time \<Rightarrow> GatewayConfig \<Rightarrow> (s3_request \<Rightarrow> http_answer)
     \<Rightarrow> (config_error + GatewayConfig) \<times> s3_request list" where
  "S3ConfigProvider_Save env p secret now cfg ans = (case sign_for_save env secret now cfg of
     Inl e \<Rightarrow> (Inl e, [])
   | Inr cfg' \<Rightarrow> (let pre = ensureBucketExists env p in
       case encode_config env cfg' of
         None \<Rightarrow> (Inl EncodeError, pre)
       | Some data \<Rightarrow>
           if \<not> url_ok env (s3_url p) then (Inl BadRequestURL, pre)
           else (let req = \<lparr>sr_Method = ''PUT'', sr_URL = s3_url p, sr_Auth = s3_auth p, sr_Body = data\<rparr> in
             (case ans req of
                NetFailure \<Rightarrow> Inl NetworkError
              | HttpAnswer status b \<Rightarrow>
                  if status \<noteq> 200 \<and> status \<noteq> 201 \<and> status \<noteq> 204 then Inl (BadStatus status b) else Inr cfg',
              pre @ [req]))))"

section \<open>Signatures as compact tokens\<close>

interpretation cfg_token: compact_token RawURLEncode decodeBase64Url
  by unfold_locales (simp_all add: RawURLEncode_no_dot)

lemma signConfig_mint:
  "signConfig env cfg secret now = (case marshal_routes env (cfg_Routes cfg) of
     None \<Rightarrow> Inl SerializeRoutes
   | Some rd \<Rightarrow> Inr (cfg\<lparr>cfg_Signature := cfg_token.mint (hmac env secret) sig_header_json
        (sig_claims_json (RawURLEncode (sha256 env rd)) (time_Unix (now + time_24h)))\<rparr>))"
  by (simp add: signConfig_def cfg_token.mint_def Let_def split: option.splits)

lemma verify_minted:
  assumes "sig_claims env pl = Some (hsh, e, iss)"
  shows "verifyConfigSignature env (cfg\<lparr>cfg_Signature := cfg_token.mint (hmac env secret) hdr pl\<rparr>) secret now =
    (if e > 0 \<and> time_Unix now > e then Some SignatureExpired
     else if iss \<noteq> ''servconsole'' then Some (InvalidIssuer iss)
     else (case marshal_routes env (cfg_Routes cfg) of
        None \<Rightarrow> Some SerializeRoutes
      | Some rd \<Rightarrow> if hsh \<noteq> RawURLEncode (sha256 env rd) then Some HashMismatch else None))"
  using assms
  by (simp add: verifyConfigSignature_def cfg_token.Split_mint cfg_token.mint_nonempty Let_def split: option.splits)

lemma RawURLEncode_inj: "RawURLEncode s = RawURLEncode t \<longleftrightarrow> s = t"
  by (metis decodeBase64Url_RawURLEncode option.inject)

text \<open>The documented behaviour of \<^verbatim>\<open>encoding/json\<close> on the claims object that \<open>signConfig\<close> writes.\<close>

definition decodes_own_claims :: "provider_env \<Rightarrow> string \<Rightarrow> int \<Rightarrow> bool" where
  "decodes_own_claims env hsh e \<longleftrightarrow> sig_claims env (sig_claims_json hsh e) = Some (hsh, e, ''servconsole'')"

definition routes_hash :: "provider_env \<Rightarrow> string \<Rightarrow> string" where
  "routes_hash env rd = RawURLEncode (sha256 env rd)"

lemma verify_after_sign:
  assumes "signConfig env cfg secret t = Inr cfg'" and "marshal_routes env (cfg_Routes cfg) = Some rd"
    and "decodes_own_claims env (routes_hash env rd) (time_Unix (t + time_24h))"
    and "cfg_Signature cfg'' = cfg_Signature cfg'" and "0 \<le> t"
  shows "verifyConfigSignature env cfg'' secret now =
    (if time_Unix now > time_Unix (t + time_24h) then Some SignatureExpired
     else (case marshal_routes env (cfg_Routes cfg'') of
        None \<Rightarrow> Some SerializeRoutes
      | Some rd' \<Rightarrow> if sha256 env rd \<noteq> sha256 env rd' then Some HashMismatch else None))"
proof -
  let ?pl = "sig_claims_json (routes_hash env rd) (time_Unix (t + time_24h))"
  from assms(1,2,4) have "cfg_Signature cfg'' = cfg_token.mint (hmac env secret) sig_header_json ?pl"
    by (auto simp: signConfig_mint routes_hash_def)
  then have c: "cfg'' = cfg''\<lparr>cfg_Signature := cfg_token.mint (hmac env secret) sig_header_json ?pl\<rparr>" by simp
  have "0 < time_Unix (t + time_24h)" using assms(5) by (simp add: time_Unix_def time_24h_def pos_imp_zdiv_pos_iff)
  with assms(3) show ?thesis
    by (subst c, subst verify_minted) (auto simp: decodes_own_claims_def RawURLEncode_inj routes_hash_def split: option.splits)
qed

section \<open>The interface of a provider\<close>

text \<open>
  \<^verbatim>\<open>ConfigProvider\<close>: what the admin API relies on. A successful \<^verbatim>\<open>Save\<close> hands out one document, the
  encoding of the signed configuration, and \<^verbatim>\<open>Load\<close> decodes and verifies the document it is shown.
  \<open>'s\<close> is what a save meets, \<open>'w\<close> what it leaves behind, \<open>'v\<close> what a load sees; \<open>shows\<close> says
  that a load sees the document a save has left.
\<close>

locale config_provider =
  fixes env :: provider_env and secret :: string
    and load :: "time \<Rightarrow> 'v \<Rightarrow> config_error + GatewayConfig"
    and save :: "time \<Rightarrow> GatewayConfig \<Rightarrow> 's \<Rightarrow> (config_error + GatewayConfig) \<times> 'w"
    and shows_doc :: "'w \<Rightarrow> 'v \<Rightarrow> bool"
  assumes load_saved: "save t cfg s = (Inr cfg', w) \<Longrightarrow> shows_doc w v \<Longrightarrow>
      \<exists>d. encode_config env cfg' = Some d \<and> sign_for_save env secret t cfg = Inr cfg' \<and>
        load now v = (case decode_config env d of None \<Rightarrow> Inl DecodeError | Some c \<Rightarrow> check_loaded env secret now c)"
begin

lemma saved_loads:
  assumes "save t cfg s = (Inr cfg', w)" and "shows_doc w v" and "0 \<le> t"
    and "\<And>d. encode_config env cfg' = Some d \<Longrightarrow> decode_config env d = Some cfg'"
    and "marshal_routes env (cfg_Routes cfg) = Some rd"
    and "decodes_own_claims env (routes_hash env rd) (time_Unix (t + time_24h))"
  shows "load now v =
    (if secret = [] then Inr cfg
     else if time_Unix now \<le> time_Unix (t + time_24h) then Inr cfg' else Inl (VerificationFailed SignatureExpired))"
proof (cases "secret = []")
  case True
  with load_saved[OF assms(1,2), of now] assms(4) show ?thesis by (auto simp: sign_for_save_def check_loaded_def)
next
  case False
  from load_saved[OF assms(1,2), of now] False assms(4) have sg: "signConfig env cfg secret t = Inr cfg'"
    and ld: "load now v = check_loaded env secret now cfg'"
    by (auto simp: sign_for_save_def split: sum.splits)
  from sg have rt: "cfg_Routes cfg' = cfg_Routes cfg" by (auto simp: signConfig_mint split: option.splits)
  have "verifyConfigSignature env cfg' secret now =
      (if time_Unix now > time_Unix (t + time_24h) then Some SignatureExpired else None)"
    using verify_after_sign[OF sg assms(5,6) refl assms(3), of now] assms(5) rt by simp
  with ld False show ?thesis by (simp add: check_loaded_def)
qed

end

interpretation local_file: config_provider env secret "\<lambda>now. LocalFileProvider_Load env path secret now"
    "\<lambda>t. LocalFileProvider_Save env path secret t fate" "\<lambda>fs fs'. fs' path = fs path" for env secret path fate
  by unfold_locales
    (auto simp: LocalFileProvider_Save_def LocalFileProvider_Load_def os_WriteFile_def
      split: sum.splits option.splits if_splits write_fate.splits)

text \<open>
  The S3 provider leaves requests behind, the last of which is the \<^verbatim>\<open>PUT\<close> of the document. What the
  object store makes of them is not code of the gateway: a later load is shown the document when the
  store answers its \<^verbatim>\<open>GET\<close> with 200 and the body of that \<^verbatim>\<open>PUT\<close>. An eventually consistent store may
  answer otherwise for a while.
\<close>

definition s3_get :: "S3ConfigProvider \<Rightarrow> s3_request" where
  "s3_get p = \<lparr>sr_Method = ''GET'', sr_URL = s3_url p, sr_Auth = s3_auth p, sr_Body = []\<rparr>"

definition store_shows :: "S3ConfigProvider \<Rightarrow> s3_request list \<Rightarrow> (s3_request \<Rightarrow> http_answer) \<Rightarrow> bool" where
  "store_shows p reqs ans \<longleftrightarrow> ans (s3_get p) = HttpAnswer 200 (sr_Body (List.last reqs))"

lemma S3_Save_requests:
  assumes "S3ConfigProvider_Save env p secret t cfg ans = (Inr cfg', reqs)"
  shows "\<exists>d. encode_config env cfg' = Some d \<and> sign_for_save env secret t cfg = Inr cfg' \<and> url_ok env (s3_url p) \<and>
    reqs = ensureBucketExists env p @ [\<lparr>sr_Method = ''PUT'', sr_URL = s3_url p, sr_Auth = s3_auth p, sr_Body = d\<rparr>]"
  using assms
  by (auto simp: S3ConfigProvider_Save_def Let_def split: sum.splits option.splits if_splits http_answer.splits)

interpretation object_store: config_provider env secret "\<lambda>now ans. fst (S3ConfigProvider_Load env p secret now ans)"
    "\<lambda>t. S3ConfigProvider_Save env p secret t" "store_shows p" for env secret p
proof (unfold_locales, goal_cases)
  case (1 t cfg ans cfg' reqs ans' now)
  from S3_Save_requests[OF 1(1)] 1(2) show ?case
    by (auto simp: S3ConfigProvider_Load_def store_shows_def s3_get_def Let_def)
qed

section \<open>Properties\<close>

definition example_config :: GatewayConfig where
  "example_config = \<lparr>cfg_Addr = '':8080'', cfg_AuthToken = ''tok'', cfg_TlsCert = [], cfg_TlsKey = [],
     cfg_Routes = [zero_route\<lparr>Prefix := ''/a''\<rparr>], cfg_APIKeys = [], cfg_Signature = []\<rparr>"

definition example_claims :: string where
  "example_claims = sig_claims_json (RawURLEncode ''/a'') 86400"

definition example_signed :: GatewayConfig where
  "example_signed = example_config\<lparr>cfg_Signature := cfg_token.mint (example_mac ''k'') sig_header_json example_claims\<rparr>"

definition example_penv :: provider_env where
  "example_penv = \<lparr>sha256 = id, hmac = example_mac, marshal_routes = (\<lambda>rs. Some (concat (map Prefix rs))),
     encode_config = (\<lambda>c. Some (if c = example_signed then ''signed'' else [])),
     decode_config = (\<lambda>b. if b = ''signed'' then Some example_signed else Some example_config),
     sig_claims = (\<lambda>p. if p = example_claims then Some (RawURLEncode ''/a'', 86400, ''servconsole'') else None),
     discovery_manifest = (\<lambda>_. None), url_ok = (\<lambda>_. True)\<rparr>"

lemma example_sign: "signConfig example_penv example_config ''k'' 0 = Inr example_signed"
  by (simp add: signConfig_mint example_penv_def example_config_def example_signed_def example_claims_def
      time_Unix_def time_24h_def)

lemma example_facts:
  "marshal_routes example_penv (cfg_Routes example_config) = Some ''/a''"
  "decodes_own_claims example_penv (routes_hash example_penv ''/a'') (time_Unix (0 + time_24h))"
  "cfg_Routes example_signed = cfg_Routes example_config"
  "sha256 example_penv = id" "hmac example_penv = example_mac"
  "decode_config example_penv ''signed'' = Some example_signed" "encode_config example_penv example_signed = Some ''signed''"
  by (simp_all add: example_penv_def example_config_def example_signed_def decodes_own_claims_def routes_hash_def
      example_claims_def time_Unix_def time_24h_def)

text \<open>C19: a configuration saved with a secret set loads again, with its signature, for 24 hours and
  is refused as expired from the following second on.\<close>

theorem config_save_load:
  assumes "LocalFileProvider_Save env path secret t fate cfg fs = (Inr cfg', fs')" and "secret \<noteq> []" and "0 \<le> t"
    and "\<And>d. encode_config env cfg' = Some d \<Longrightarrow> decode_config env d = Some cfg'"
    and "marshal_routes env (cfg_Routes cfg) = Some rd"
    and "decodes_own_claims env (routes_hash env rd) (time_Unix (t + time_24h))"
  shows "LocalFileProvider_Load env path secret now fs' =
    (if time_Unix now \<le> time_Unix (t + time_24h) then Inr cfg' else Inl (VerificationFailed SignatureExpired))"
  using local_file.saved_loads[OF assms(1), of fs', OF refl assms(3-6)] assms(2) by simp

theorem config_save_load_witness:
  "LocalFileProvider_Load example_penv ''c.json'' ''k'' 86400000000000 [''c.json'' \<mapsto> ''signed''] = Inr example_signed \<and>
   LocalFileProvider_Load example_penv ''c.json'' ''k'' 86401000000000 [''c.json'' \<mapsto> ''signed''] =
     Inl (VerificationFailed SignatureExpired)"
proof -
  have "LocalFileProvider_Save example_penv ''c.json'' ''k'' 0 Written example_config Map.empty =
      (Inr example_signed, [''c.json'' \<mapsto> ''signed''])"
    by (simp add: LocalFileProvider_Save_def os_WriteFile_def sign_for_save_def example_sign example_facts)
  from config_save_load[OF this _ _ _ example_facts(1,2)] show ?thesis
    by (simp add: example_facts time_Unix_def time_24h_def)
qed

text \<open>C20: the same round trip through the object store, whatever the store is: a successful save
  ends with a \<^verbatim>\<open>PUT\<close> of the encoded, signed configuration to the object's URL, and any later load
  that the store answers with the body of that \<^verbatim>\<open>PUT\<close> (an eventually consistent store may not, for a
  while) yields the saved configuration with its signature for 24 hours and is refused as expired
  from the following second on; without a secret it yields the configuration unchanged at any time.
  The JSON codec is supposed to decode the saved configuration and the signature's claims as they
  were encoded.\<close>

theorem s3_save_load:
  assumes "S3ConfigProvider_Save env p secret t cfg ans = (Inr cfg', reqs)" and "store_shows p reqs ans'" and "0 \<le> t"
    and "\<And>d. encode_config env cfg' = Some d \<Longrightarrow> decode_config env d = Some cfg'"
    and "marshal_routes env (cfg_Routes cfg) = Some rd"
    and "decodes_own_claims env (routes_hash env rd) (time_Unix (t + time_24h))"
  shows "(\<exists>d. encode_config env cfg' = Some d \<and>
      List.last reqs = \<lparr>sr_Method = ''PUT'', sr_URL = s3_url p, sr_Auth = s3_auth p, sr_Body = d\<rparr>) \<and>
    fst (S3ConfigProvider_Load env p secret now ans') =
      (if secret = [] then Inr cfg
       else if time_Unix now \<le> time_Unix (t + time_24h) then Inr cfg' else Inl (VerificationFailed SignatureExpired))"
  using object_store.saved_loads[OF assms] S3_Save_requests[OF assms(1)] by auto

definition example_s3 :: S3ConfigProvider where
  "example_s3 = \<lparr>s3_Endpoint = ''e'', s3_Bucket = ''b'', s3_Key = ''k'', s3_AccessKey = [], s3_SecretKey = [], s3_AuthToken = []\<rparr>"

theorem s3_save_load_witness:
  "\<exists>reqs. S3ConfigProvider_Save example_penv example_s3 ''k'' 0 example_config (\<lambda>_. HttpAnswer 201 []) = (Inr example_signed, reqs) \<and>
     fst (S3ConfigProvider_Load example_penv example_s3 ''k'' 86400000000000 (\<lambda>_. HttpAnswer 200 ''signed'')) = Inr example_signed"
proof -
  have u: "url_ok example_penv = (\<lambda>_. True)" by (simp add: example_penv_def)
  obtain reqs where sv: "S3ConfigProvider_Save example_penv example_s3 ''k'' 0 example_config (\<lambda>_. HttpAnswer 201 []) = (Inr example_signed, reqs)"
    by (simp add: S3ConfigProvider_Save_def sign_for_save_def example_sign example_facts u Let_def)
  moreover have "store_shows example_s3 reqs (\<lambda>_. HttpAnswer 200 ''signed'')"
    using S3_Save_requests[OF sv] by (auto simp: store_shows_def example_facts)
  from s3_save_load[OF sv this _ _ example_facts(1,2), of 86400000000000]
  have "fst (S3ConfigProvider_Load example_penv example_s3 ''k'' 86400000000000 (\<lambda>_. HttpAnswer 200 ''signed'')) = Inr example_signed"
    by (simp add: example_facts time_Unix_def time_24h_def)
  ultimately show ?thesis by blast
qed

text \<open>The write of the local file is not atomic: a save whose write fails after the truncation
  reports the error and leaves a prefix of the new document, the old one being lost.\<close>

lemma failed_save_truncates:
  assumes "sign_for_save env secret t cfg = Inr cfg'" and "encode_config env cfg' = Some d"
  shows "LocalFileProvider_Save env path secret t (WriteFails n) cfg fs = (Inl WriteError, fs(path \<mapsto> take n d))"
  using assms by (simp add: LocalFileProvider_Save_def os_WriteFile_def)

text \<open>C21: what the signature protects: within the 24 hours, a file that carries a signature made for
  one configuration loads exactly when its routes have the digest that was signed. Every other
  field (the gateway's own auth token, the API keys, the TLS paths) may have been replaced.\<close>

theorem config_tamper_detected_iff_routes:
  assumes "signConfig env cfg secret t = Inr cfg'" and "secret \<noteq> []" and "0 \<le> t"
    and "time_Unix now \<le> time_Unix (t + time_24h)"
    and "marshal_routes env (cfg_Routes cfg) = Some rd"
    and "decodes_own_claims env (routes_hash env rd) (time_Unix (t + time_24h))"
    and "fs path = Some d" and "decode_config env d = Some cfg''" and "cfg_Signature cfg'' = cfg_Signature cfg'"
    and "marshal_routes env (cfg_Routes cfg'') = Some rd'"
  shows "LocalFileProvider_Load env path secret now fs =
    (if sha256 env rd' = sha256 env rd then Inr cfg'' else Inl (VerificationFailed HashMismatch))"
  using verify_after_sign[OF assms(1,5,6,9,3), of now] assms
  by (auto simp: LocalFileProvider_Load_def check_loaded_def)

theorem config_tamper_detected_iff_routes_witness:
  "LocalFileProvider_Load (example_penv\<lparr>decode_config := \<lambda>_. Some (example_signed\<lparr>cfg_AuthToken := ''evil''\<rparr>)\<rparr>)
     ''c.json'' ''k'' 0 [''c.json'' \<mapsto> []] = Inr (example_signed\<lparr>cfg_AuthToken := ''evil''\<rparr>)"
proof -
  let ?e = "example_penv\<lparr>decode_config := \<lambda>_. Some (example_signed\<lparr>cfg_AuthToken := ''evil''\<rparr>)\<rparr>"
  have "signConfig ?e example_config ''k'' 0 = Inr example_signed"
    using example_sign by (simp add: signConfig_mint example_facts)
  from config_tamper_detected_iff_routes[OF this, where fs = "[''c.json'' \<mapsto> []]" and path = "''c.json''" and now = 0
      and rd = "''/a''" and rd' = "''/a''"] example_facts
  show ?thesis by (simp add: time_Unix_def time_24h_def decodes_own_claims_def routes_hash_def)
qed

text \<open>The signature stored in a configuration file is itself a valid bearer token: signed with the
  same secret and of the same format, it passes \<^verbatim>\<open>ValidateJWT\<close> (as the user with the empty name)
  for the 24 hours it is valid.\<close>

theorem config_signature_is_bearer_token:
  assumes "signConfig env cfg secret t = Inr cfg'" and "marshal_routes env (cfg_Routes cfg) = Some rd"
    and "hmac_sha256 jenv = hmac env" and "0 \<le> t"
    and "auth_claims jenv (sig_claims_json (routes_hash env rd) (time_Unix (t + time_24h))) = Some ([], time_Unix (t + time_24h))"
  shows "ValidateJWT jenv (cfg_Signature cfg') secret now =
    (if time_Unix now > time_Unix (t + time_24h) then None else Some [])"
proof -
  have "0 < time_Unix (t + time_24h)" using assms(4) by (simp add: time_Unix_def time_24h_def pos_imp_zdiv_pos_iff)
  with assms show ?thesis
    by (auto simp: signConfig_mint routes_hash_def ValidateJWT_verified bearer.verified_mint)
qed

theorem config_signature_is_bearer_token_witness:
  "ValidateJWT (example_env\<lparr>auth_claims := \<lambda>p. if p = example_claims then Some ([], 86400) else None\<rparr>)
     (cfg_Signature example_signed) ''k'' 0 = Some []"
  by (subst config_signature_is_bearer_token[OF example_sign example_facts(1)])
    (simp_all add: example_env_def example_penv_def routes_hash_def example_claims_def time_Unix_def time_24h_def)

end
