(* ===== verification/Admin.thy ===== *)
theory Admin
  imports Extensions Config_Provider
begin

text \<open>
  The program around the handler, main.go: how it starts (provider, configuration, secrets), the
  mux, and the handlers of the admin API. \<open>app\<close> is the state of the process: the start-up
  configuration \<^verbatim>\<open>cfg\<close>, the gateway handler, the configuration provider with the files and the
  requests it has sent, the WASM manager, one rate limiter per registered pattern and the
  environment variables.

  Every \<^verbatim>\<open>mux.HandleFunc\<close> call makes its own limiter, so the limiters are kept by pattern. JSON
  texts, \<^verbatim>\<open>git pull\<close>, the object store and the WASM compiler are parameters (\<open>admin_env\<close>).
  The start-up configuration is a value; where a handler works on it through its pointer, the update
  is written out (\<open>alias_cfg\<close>). That its slice of routes has the handler's backing array until the
  first update is not modelled.
\<close>

section \<open>State and environment\<close>

datatype provider = LocalFile string | S3 S3ConfigProvider

record ('ip, 'c) admin_env =
  ae_serve :: "'ip serve_env"
  ae_provider :: provider_env
  ae_setup :: setup_env
  standalone :: bool
  s3_answer :: "s3_request \<Rightarrow> http_answer"
  secret_answer :: "string \<Rightarrow> http_header \<Rightarrow> http_answer"
  secret_value :: "string \<Rightarrow> string option"
  file_write :: write_fate
  git_pull :: "provider \<Rightarrow> filesystem \<Rightarrow> filesystem \<times> string"
  route_of :: "string \<Rightarrow> Route option"
  routes_of :: "string \<Rightarrow> Route list option"
  username_of :: "string \<Rightarrow> string option"
  budget_of :: "string \<Rightarrow> (string \<times> rat \<times> int) option"
  query_param :: "request \<Rightarrow> string \<Rightarrow> string"
  compile_wasm :: "string \<Rightarrow> string + 'c"
  config_error_text :: "config_error \<Rightarrow> string"
  routes_json :: "Route list \<Rightarrow> string"
  conns_json :: "(string \<rightharpoonup> int) \<Rightarrow> string"
  snapshot_json :: "GatewayHandler \<Rightarrow> string"
  shared_reply :: "string \<Rightarrow> request \<Rightarrow> response_writer"
  ws_sha1 :: "string \<Rightarrow> string"
  ws_init_sent :: bool
  ws_events :: "ws_event list"
  clean_path :: "string \<Rightarrow> string"

record 'c app =
  app_cfg :: GatewayConfig
  app_h :: GatewayHandler
  app_prov :: provider
  app_fs :: filesystem
  app_sent :: "s3_request list"
  app_wasm :: "'c wasm_state"
  app_limits :: "string \<Rightarrow> rate_limiters"
  app_env :: "string \<Rightarrow> string"

type_synonym 'c reply = "go_panic option \<times> response_writer \<times> 'c app"

definition jwt_secret :: "'c app \<Rightarrow> string" where
  "jwt_secret a = app_env a ''SERV_JWT_SECRET''"

definition admin_error :: "('ip, 'c) admin_env \<Rightarrow> request \<Rightarrow> string \<Rightarrow> string \<Rightarrow> int \<Rightarrow> response_writer" where
  "admin_error env r msg code status = WriteJSONError (error_text (ae_serve env)) r msg code status new_writer"

definition plain_reply :: "string \<Rightarrow> response_writer" where
  "plain_reply b = w_Write b (w_WriteHeader 200 new_writer)"

definition json_reply :: "string \<Rightarrow> response_writer" where
  "json_reply b = w_Write b (w_WriteHeader 200 (w_Set ''Content-Type'' ''application/json'' new_writer))"

section \<open>The provider in use\<close>

text \<open>\<open>i\<close> numbers the readings of the clock during one admin request.\<close>

definition prov_Load :: "('ip, 'c) admin_env \<Rightarrow> nat \<Rightarrow> 'c app \<Rightarrow> (config_error + GatewayConfig) \<times> 'c app" where
  "prov_Load env i a = (case app_prov a of
     LocalFile path \<Rightarrow> (LocalFileProvider_Load (ae_provider env) path (jwt_secret a) (clock (ae_serve env) i) (app_fs a), a)
   | S3 p \<Rightarrow> (let (res, reqs) = S3ConfigProvider_Load (ae_provider env) p (jwt_secret a) (clock (ae_serve env) i) (s3_answer env)
             in (res, a\<lparr>app_sent := app_sent a @ reqs\<rparr>)))"

definition prov_Save :: "('ip, 'c) admin_env \<Rightarrow> nat \<Rightarrow> GatewayConfig \<Rightarrow> 'c app \<Rightarrow> (config_error + GatewayConfig) \<times> 'c app" where
  "prov_Save env i cfg a = (case app_prov a of
     LocalFile path \<Rightarrow>
       (let (res, fs) = LocalFileProvider_Save (ae_provider env) path (jwt_secret a) (clock (ae_serve env) i) (file_write env) cfg (app_fs a)
        in (res, a\<lparr>app_fs := fs\<rparr>))
   | S3 p \<Rightarrow>
       (let (res, reqs) = S3ConfigProvider_Save (ae_provider env) p (jwt_secret a) (clock (ae_serve env) i) cfg (s3_answer env)
        in (res, a\<lparr>app_sent := app_sent a @ reqs\<rparr>)))"

definition app_UpdateRoutes :: "('ip, 'c) admin_env \<Rightarrow> Route list \<Rightarrow> 'c app \<Rightarrow> go_panic option \<times> 'c app" where
  "app_UpdateRoutes env rs a = (let (p, h) = UpdateRoutes (ae_setup env) rs (app_h a) in (p, a\<lparr>app_h := h\<rparr>))"

definition finish :: "go_panic option \<times> 'c app \<Rightarrow> response_writer \<Rightarrow> 'c reply" where
  "finish res w = (case res of (Some p, a) \<Rightarrow> (Some p, new_writer, a) | (None, a) \<Rightarrow> (None, w, a))"

section \<open>Who may use the admin API\<close>

definition admin_token_ok :: "'c app \<Rightarrow> request \<Rightarrow> bool" where
  "admin_token_ok a r \<longleftrightarrow> cfg_AuthToken (app_cfg a) = [] \<or>
     Header_Get (rq_Header r) ''Authorization'' = ''Bearer '' @ cfg_AuthToken (app_cfg a)"

definition admin_jwt_ok :: "('ip, 'c) admin_env \<Rightarrow> 'c app \<Rightarrow> request \<Rightarrow> bool" where
  "admin_jwt_ok env a r \<longleftrightarrow> cfg_AuthToken (app_cfg a) = [] \<or> bearer_token r = cfg_AuthToken (app_cfg a) \<or>
     (jwt_secret a \<noteq> [] \<and> ValidateJWT (jwt (ae_serve env)) (bearer_token r) (jwt_secret a) (clock (ae_serve env) 1) \<noteq> None)"

definition unauthorized :: "('ip, 'c) admin_env \<Rightarrow> request \<Rightarrow> 'c app \<Rightarrow> 'c reply" where
  "unauthorized env r a = (None, admin_error env r ''Unauthorized'' ''ERR_UNAUTHORIZED'' 401, a)"

definition method_not_allowed :: "('ip, 'c) admin_env \<Rightarrow> request \<Rightarrow> 'c app \<Rightarrow> 'c reply" where
  "method_not_allowed env r a = (None, admin_error env r ''Method not allowed'' ''ERR_METHOD_NOT_ALLOWED'' 405, a)"

section \<open>The handlers\<close>

definition handleMiddleware :: "('ip, 'c) admin_env \<Rightarrow> request \<Rightarrow> 'c app \<Rightarrow> 'c reply" where
  "handleMiddleware env r a =
     (if rq_Method r \<noteq> ''POST'' then method_not_allowed env r a
      else if \<not> admin_token_ok a r then unauthorized env r a
      else (let parts = Split (rq_Path r) CHR ''/'';
                name = (if 6 \<le> length parts \<and> parts ! 2 = ''v1'' then Some (parts ! 5)
                        else if 5 \<le> length parts then Some (parts ! 4) else None)
            in case name of
                 None \<Rightarrow> (None, admin_error env r ''Invalid path. Use /api/v1/admin/middleware/{name}'' ''ERR_INVALID_PATH'' 400, a)
               | Some name \<Rightarrow>
                   (let (wasmBytes, ok, _) = ReadAll (rq_Body r) in
                    if \<not> ok then (None, admin_error env r ''Internal Server Error'' ''ERR_INTERNAL_SERVER_ERROR'' 500, a)
                    else (case compile_wasm env wasmBytes of
                      Inl err \<Rightarrow> (None, admin_error env r (''Failed to compile WASM: wasm: compilation failed: '' @ err) ''ERR_WASM_COMPILATION_FAILED'' 400, a)
                    | Inr compiled \<Rightarrow>
                        (None, plain_reply (''WASM Middleware '' @ name @ '' compiled and registered''),
                         a\<lparr>app_wasm := Register name compiled (app_wasm a)\<rparr>)))))"

definition handleConnections :: "('ip, 'c) admin_env \<Rightarrow> request \<Rightarrow> 'c app \<Rightarrow> 'c reply" where
  "handleConnections env r a =
     (if \<not> admin_token_ok a r then unauthorized env r a
      else if rq_Method r \<noteq> ''GET'' then method_not_allowed env r a
      else (None, json_reply (conns_json env (GetActiveConnections (balancing (app_h a)))), a))"

text \<open>\<^verbatim>\<open>handleRoutes\<close>: create or replace a route, delete a route, or list the routes.\<close>

text \<open>
  Without a stored configuration the handler works on the start-up configuration itself, through its
  pointer: the new route, and the signature \<^verbatim>\<open>Save\<close> puts on it, stay in \<^verbatim>\<open>cfg\<close> whether or not it is saved.
\<close>

definition alias_cfg :: "('ip, 'c) admin_env \<Rightarrow> bool \<Rightarrow> GatewayConfig \<Rightarrow> 'c app \<Rightarrow> 'c app" where
  "alias_cfg env aliased cfg a =
     (if aliased then a\<lparr>app_cfg := (case sign_for_save (ae_provider env) (jwt_secret a) (clock (ae_serve env) 3) cfg of Inr c \<Rightarrow> c | Inl _ \<Rightarrow> cfg)\<rparr> else a)"

definition post_route :: "('ip, 'c) admin_env \<Rightarrow> request \<Rightarrow> 'c app \<Rightarrow> 'c reply" where
  "post_route env r a = (case route_of env (fst (ReadAll (rq_Body r))) of
     None \<Rightarrow> (None, admin_error env r ''Invalid route payload'' ''ERR_INVALID_ROUTE_PAYLOAD'' 400, a)
   | Some newRoute \<Rightarrow>
       (let (loaded, a) = prov_Load env 2 a in
        case (case loaded of Inl NotExist \<Rightarrow> Inr (app_cfg a) | l \<Rightarrow> l) of
          Inl err \<Rightarrow> (None, admin_error env r (''Failed to load config: '' @ config_error_text env err) ''ERR_CONFIG_LOAD_FAILED'' 500, a)
        | Inr currentCfg \<Rightarrow>
            (let currentCfg = currentCfg\<lparr>cfg_Routes := upsert_route newRoute (cfg_Routes currentCfg)\<rparr>;
                 (saved, a) = prov_Save env 3 currentCfg a;
                 a = alias_cfg env (loaded = Inl NotExist) currentCfg a
             in case saved of
                  Inl err \<Rightarrow> (None, admin_error env r (''Failed to save config: '' @ config_error_text env err) ''ERR_CONFIG_SAVE_FAILED'' 500, a)
                | Inr _ \<Rightarrow> finish (app_UpdateRoutes env (cfg_Routes currentCfg) a) (plain_reply ''Route registered successfully''))))"

definition delete_route :: "('ip, 'c) admin_env \<Rightarrow> request \<Rightarrow> 'c app \<Rightarrow> 'c reply" where
  "delete_route env r a =
     (let pfx = query_param env r ''prefix'' in
      if pfx = [] then (None, admin_error env r ''Missing prefix query parameter'' ''ERR_INVALID_ROUTE_PAYLOAD'' 400, a)
      else (let (loaded, a) = prov_Load env 2 a in
        case loaded of
          Inl err \<Rightarrow> (None, admin_error env r (''Failed to load config: '' @ config_error_text env err) ''ERR_CONFIG_LOAD_FAILED'' 500, a)
        | Inr currentCfg \<Rightarrow>
            if \<not> list_ex (\<lambda>rt. Prefix rt = pfx) (cfg_Routes currentCfg)
            then (None, admin_error env r ''Route not found'' ''ERR_ROUTE_NOT_FOUND'' 404, a)
            else (let currentCfg = currentCfg\<lparr>cfg_Routes := filter (\<lambda>rt. Prefix rt \<noteq> pfx) (cfg_Routes currentCfg)\<rparr>;
                      (saved, a) = prov_Save env 3 currentCfg a
                  in case saved of
                       Inl err \<Rightarrow> (None, admin_error env r (''Failed to save config: '' @ config_error_text env err) ''ERR_CONFIG_SAVE_FAILED'' 500, a)
                     | Inr _ \<Rightarrow> finish (app_UpdateRoutes env (cfg_Routes currentCfg) a) (plain_reply ''Route deleted successfully''))))"

definition handleRoutes :: "('ip, 'c) admin_env \<Rightarrow> request \<Rightarrow> 'c app \<Rightarrow> 'c reply" where
  "handleRoutes env r a =
     (if \<not> admin_jwt_ok env a r then unauthorized env r a
      else if rq_Method r = ''POST'' then post_route env r a
      else if rq_Method r = ''DELETE'' then delete_route env r a
      else (None, json_reply (routes_json env (routes (app_h a))), a))"

definition handleRouteRegister :: "('ip, 'c) admin_env \<Rightarrow> request \<Rightarrow> 'c app \<Rightarrow> 'c reply" where
  "handleRouteRegister env r a =
     (if \<not> admin_jwt_ok env a r then unauthorized env r a
      else if rq_Method r \<noteq> ''POST'' then method_not_allowed env r a
      else (case route_of env (fst (ReadAll (rq_Body r))) of
        None \<Rightarrow> (None, admin_error env r ''Invalid route payload'' ''ERR_INVALID_ROUTE_PAYLOAD'' 400, a)
      | Some newRoute \<Rightarrow>
          (let (p, h) = RegisterRoute (ae_setup env) newRoute (app_h a) in
           finish (p, a\<lparr>app_h := h\<rparr>)
             (json_reply ''{\"status\":\"success\",\"message\":\"Route registered successfully via compiler connector\"}''))))"

definition handleConsoleSync :: "('ip, 'c) admin_env \<Rightarrow> request \<Rightarrow> 'c app \<Rightarrow> 'c reply" where
  "handleConsoleSync env r a =
     (if \<not> admin_jwt_ok env a r then unauthorized env r a
      else if rq_Method r = ''POST'' then
        (case routes_of env (fst (ReadAll (rq_Body r))) of
           None \<Rightarrow> (None, admin_error env r ''Invalid payload'' ''ERR_INVALID_PAYLOAD'' 400, a)
         | Some newRoutes \<Rightarrow>
             (let (loaded, a) = prov_Load env 2 a;
                  a = (case loaded of Inl _ \<Rightarrow> a | Inr currentCfg \<Rightarrow> snd (prov_Save env 3 (currentCfg\<lparr>cfg_Routes := newRoutes\<rparr>) a))
              in finish (app_UpdateRoutes env newRoutes a)
                   (json_reply ''{\"status\":\"success\",\"message\":\"Console sync updated configuration successfully\"}'')))
      else if rq_Method r = ''GET'' then (None, json_reply (snapshot_json env (app_h a)), a)
      else method_not_allowed env r a)"

definition handleGitOpsWebhook :: "('ip, 'c) admin_env \<Rightarrow> request \<Rightarrow> 'c app \<Rightarrow> 'c reply" where
  "handleGitOpsWebhook env r a =
     (if rq_Method r \<noteq> ''POST'' then method_not_allowed env r a
      else if cfg_AuthToken (app_cfg a) \<noteq> [] \<and> bearer_token r \<noteq> cfg_AuthToken (app_cfg a) then unauthorized env r a
      else (let (fs, out) = git_pull env (app_prov a) (app_fs a);
                (loaded, a) = prov_Load env 2 (a\<lparr>app_fs := fs\<rparr>)
            in case loaded of
                 Inl err \<Rightarrow> (None, admin_error env r (''Failed to load reloaded config: '' @ config_error_text env err) ''ERR_CONFIG_LOAD_FAILED'' 500, a)
               | Inr newCfg \<Rightarrow> finish (app_UpdateRoutes env (cfg_Routes newCfg) a)
                   (json_reply (''{\"status\":\"success\",\"message\":\"GitOps config sync completed successfully\",\"git_output\":\"'' @ TrimSpace out @ ''\"}''))))"

definition handleCacheInvalidation :: "('ip, 'c) admin_env \<Rightarrow> request \<Rightarrow> 'c app \<Rightarrow> 'c reply" where
  "handleCacheInvalidation env r a =
     (if \<not> admin_token_ok a r then unauthorized env r a
      else if rq_Method r \<noteq> ''DELETE'' then method_not_allowed env r a
      else (let pfx = query_param env r ''prefix''; (n, h) = InvalidateCache pfx [] (app_h a)
            in (None, json_reply (Encode (ae_serve env) (JObj [(''status'', JStr ''success''), (''entries_invalidated'', JNum (of_int n)), (''prefix'', JStr pfx)])), a\<lparr>app_h := h\<rparr>)))"

definition handlePolicyReload :: "('ip, 'c) admin_env \<Rightarrow> request \<Rightarrow> 'c app \<Rightarrow> 'c reply" where
  "handlePolicyReload env r a =
     (if \<not> admin_token_ok a r then unauthorized env r a
      else if rq_Method r \<noteq> ''POST'' then method_not_allowed env r a
      else (let (bodyBytes, ok, _) = ReadAll (rq_Body r);
                h = (if ok \<and> bodyBytes \<noteq> [] then (case schema_of (ae_serve env) bodyBytes of
                        Some schema \<Rightarrow> UpdatePolicySchema (Some schema) (app_h a) | None \<Rightarrow> app_h a) else app_h a)
            in (None, json_reply (Encode (ae_serve env) (JObj [(''status'', JStr ''success''), (''message'', JStr ''Policy schema updated'')])),
                a\<lparr>app_h := h\<lparr>session := IncrementPolicyVersion (session h)\<rparr>\<rparr>)))"

definition handlePolicyRevoke :: "('ip, 'c) admin_env \<Rightarrow> request \<Rightarrow> 'c app \<Rightarrow> 'c reply" where
  "handlePolicyRevoke env r a =
     (if \<not> admin_token_ok a r then unauthorized env r a
      else if rq_Method r \<noteq> ''POST'' then method_not_allowed env r a
      else (case username_of env (fst (ReadAll (rq_Body r))) of
        None \<Rightarrow> (None, admin_error env r ''Invalid payload'' ''ERR_INVALID_PAYLOAD'' 400, a)
      | Some username \<Rightarrow>
          if username = [] then (None, admin_error env r ''Invalid payload'' ''ERR_INVALID_PAYLOAD'' 400, a)
          else (None, json_reply (Encode (ae_serve env) (JObj [(''status'', JStr ''success''), (''message'', JStr (''Session revoked for user '' @ username))])),
                a\<lparr>app_h := (app_h a)\<lparr>session := RevokeUserSession username (clock (ae_serve env) 2) (session (app_h a))\<rparr>\<rparr>)))"

text \<open>The billing endpoint has no access check; in the open-source build it changes nothing.\<close>

definition handleAIBilling :: "('ip, 'c) admin_env \<Rightarrow> request \<Rightarrow> 'c app \<Rightarrow> 'c reply" where
  "handleAIBilling env r a =
     (let w = w_Set ''Content-Type'' ''application/json'' new_writer in
      if rq_Method r = ''GET'' then (None, w_Write (Encode (ae_serve env) (GetAIBillingMetrics (app_h a))) w, a)
      else if rq_Method r = ''POST'' then
        (case budget_of env (fst (ReadAll (rq_Body r))) of
           None \<Rightarrow> (None, http_Error ''Invalid request'' 400 w, a)
         | Some (tenantID, maxCostPerDay, maxTokensPerMinute) \<Rightarrow>
             (None, w_Write ''{\"status\":\"budget_updated\"}'' w, a\<lparr>app_h := SetAIBudget tenantID maxCostPerDay maxTokensPerMinute (app_h a)\<rparr>))
      else (None, w, a))"

text \<open>
  The metrics stream. After the upgrade the answer goes to the connection the handler has taken over
  (the bytes are the result of \<open>HandleWebSocketMetrics\<close>), and nothing to the response writer.
\<close>

definition upgrade_text :: "('ip, 'c) admin_env \<Rightarrow> upgrade_error \<Rightarrow> string" where
  "upgrade_text env e = (case e of MissingUpgrade \<Rightarrow> ''missing Upgrade: websocket header''
   | MissingKey \<Rightarrow> ''missing Sec-WebSocket-Key header'' | NoHijacker \<Rightarrow> ''webserver does not support hijacking''
   | HijackFailed \<Rightarrow> hijack_error (ae_serve env))"

definition handleMetricsWS :: "('ip, 'c) admin_env \<Rightarrow> request \<Rightarrow> 'c app \<Rightarrow> 'c reply" where
  "handleMetricsWS env r a =
     (let token = (if bearer_token r = [] then query_param env r ''token'' else bearer_token r) in
      if cfg_AuthToken (app_cfg a) \<noteq> [] \<and> token \<noteq> cfg_AuthToken (app_cfg a) then unauthorized env r a
      else (None, (case HandleWebSocketMetrics (ws_sha1 env) (hijack (ae_serve env)) r (ws_init_sent env) (ws_events env) of
                     Inl e \<Rightarrow> http_Error (upgrade_text env e) 400 new_writer
                   | Inr _ \<Rightarrow> new_writer), a))"

section \<open>The mux\<close>

datatype endpoint =
    Middlewares | Connections | Routes | RouteRegister | ConsoleSync | GitOps | CacheInvalidation | PolicyReload | PolicyRevoke | AIBilling

fun handle_endpoint :: "('ip, 'c) admin_env \<Rightarrow> endpoint \<Rightarrow> request \<Rightarrow> 'c app \<Rightarrow> 'c reply" where
  "handle_endpoint env Middlewares r a = handleMiddleware env r a"
| "handle_endpoint env Connections r a = handleConnections env r a"
| "handle_endpoint env Routes r a = handleRoutes env r a"
| "handle_endpoint env RouteRegister r a = handleRouteRegister env r a"
| "handle_endpoint env ConsoleSync r a = handleConsoleSync env r a"
| "handle_endpoint env GitOps r a = handleGitOpsWebhook env r a"
| "handle_endpoint env CacheInvalidation r a = handleCacheInvalidation env r a"
| "handle_endpoint env PolicyReload r a = handlePolicyReload env r a"
| "handle_endpoint env PolicyRevoke r a = handlePolicyRevoke env r a"
| "handle_endpoint env AIBilling r a = handleAIBilling env r a"

text \<open>The registrations on the mux, in the five places where \<^verbatim>\<open>main\<close> makes them.\<close>

definition route_patterns :: "(string \<times> endpoint) list" where
  "route_patterns =
     [(''/api/gitops/webhook'', GitOps), (''/api/v1/gitops/webhook'', GitOps),
      (''/api/v1/routes/register'', RouteRegister),
      (''/api/admin/console/sync'', ConsoleSync), (''/api/v1/admin/console/sync'', ConsoleSync),
      (''/api/admin/middleware/'', Middlewares), (''/api/v1/admin/middleware/'', Middlewares),
      (''/api/routes'', Routes), (''/api/v1/routes'', Routes),
      (''/api/admin/connections'', Connections), (''/api/v1/admin/connections'', Connections)]"

definition cache_patterns :: "(string \<times> endpoint) list" where
  "cache_patterns = [(''/api/admin/cache'', CacheInvalidation), (''/api/v1/admin/cache'', CacheInvalidation)]"

definition policy_patterns :: "(string \<times> endpoint) list" where
  "policy_patterns = [(''/api/v1/admin/policy/reload'', PolicyReload), (''/api/v1/admin/policy/revoke'', PolicyRevoke)]"

definition billing_patterns :: "(string \<times> endpoint) list" where
  "billing_patterns = [(''/api/admin/ai-billing'', AIBilling), (''/api/v1/admin/ai-billing'', AIBilling)]"

definition metrics_ws_paths :: "string list" where
  "metrics_ws_paths = [''/api/admin/metrics/ws'', ''/api/v1/admin/metrics/ws'']"

text \<open>The patterns behind the rate limiter; the metrics stream is registered without it.\<close>

definition admin_patterns :: "(string \<times> endpoint) list" where
  "admin_patterns = route_patterns @ cache_patterns @ policy_patterns @ billing_patterns"

lemmas admin_pattern_defs = admin_patterns_def route_patterns_def cache_patterns_def policy_patterns_def billing_patterns_def

text \<open>A pattern that ends in a slash takes every path below it.\<close>

definition pattern_matches :: "string \<Rightarrow> string \<Rightarrow> bool" where
  "pattern_matches path pat = (if HasSuffix pat ''/'' then HasPrefix path pat else path = pat)"

definition withAdminRateLimit ::
    "('ip, 'c) admin_env \<Rightarrow> int \<Rightarrow> string \<Rightarrow> (request \<Rightarrow> 'c app \<Rightarrow> 'c reply) \<Rightarrow> request \<Rightarrow> 'c app \<Rightarrow> 'c reply" where
  "withAdminRateLimit env limit pat next r a =
     (let clientIP = (case split_host_port (ae_serve env) (rq_RemoteAddr r) of None \<Rightarrow> [] | Some host \<Rightarrow> host);
          clientIP = (if clientIP = [] then rq_RemoteAddr r else clientIP);
          (over, hist) = adminRateLimiter_Limit (clock (ae_serve env) 0) (app_limits a pat) clientIP limit;
          a = a\<lparr>app_limits := (app_limits a)(pat := hist)\<rparr>
      in if over then (None, admin_error env r ''Too Many Requests'' ''ERR_RATE_LIMIT_EXCEEDED'' 429, a) else next r a)"

text \<open>
  \<^verbatim>\<open>mux.ServeHTTP\<close>. Paths that are not clean, and a subtree's path without its final slash,
  are redirected. \<^verbatim>\<open>/healthz\<close>, \<^verbatim>\<open>/readyz\<close> and \<^verbatim>\<open>/api/version\<close> are handlers of the
  shared library. Everything else goes to the gateway handler.
\<close>

definition app_serve :: "('ip, 'c) admin_env \<Rightarrow> 'c app \<Rightarrow> 'ip serve_env" where
  "app_serve env a = (ae_serve env)\<lparr>getenv := app_env a\<rparr>"

definition mux_ServeHTTP :: "('ip, 'c) admin_env \<Rightarrow> request \<Rightarrow> 'c app \<Rightarrow> forwarded list \<times> 'c reply" where
  "mux_ServeHTTP env r a =
     (let path = rq_Path r in
      if rq_Method r \<noteq> ''CONNECT'' \<and> (clean_path env path \<noteq> path \<or> path \<in> {''/api/admin/middleware'', ''/api/v1/admin/middleware''})
      then ([], None, w_WriteHeader 301 (w_Set ''Location'' (if clean_path env path \<noteq> path then clean_path env path else path @ ''/'') new_writer), a)
      else if path \<in> {''/healthz'', ''/readyz'', ''/api/version''} then ([], None, shared_reply env path r, a)
      else if path \<in> set metrics_ws_paths then ([], handleMetricsWS env r a)
      else (case find (\<lambda>(pat, _). pattern_matches path pat) admin_patterns of
        Some (pat, ep) \<Rightarrow> ([], withAdminRateLimit env 60 pat (handle_endpoint env ep) r a)
      | None \<Rightarrow> (let f = ServeHTTP (app_serve env a) r (app_h a); s = final f
                in (sv_out s, (case f of Crash p _ \<Rightarrow> Some p | _ \<Rightarrow> None), sv_w s, a\<lparr>app_h := sv_h s\<rparr>))))"

section \<open>Start-up and background work\<close>

text \<open>\<^verbatim>\<open>getSecretFromServSecret\<close>; \<open>None\<close> is an error.\<close>

definition getSecretFromServSecret :: "('ip, 'c) admin_env \<Rightarrow> (string \<Rightarrow> string) \<Rightarrow> string \<Rightarrow> string option" where
  "getSecretFromServSecret env environ key =
     (let url = or_default (environ ''SERV_SECRET_URL'') ''http://localhost:8091'' @ ''/api/secrets/'' @ key;
          apiKey = environ ''SERV_SECRET_API_KEY'';
          hdr = (if apiKey \<noteq> [] then Header_Set ''X-API-Key'' apiKey [] else []);
          hdr = Header_Set ''X-Tenant-ID'' (or_default (environ ''SERV_SECRET_TENANT_ID'') ''default'') hdr
      in if \<not> request_url_ok (ae_serve env) url then None
         else (case secret_answer env url hdr of
           NetFailure \<Rightarrow> None
         | HttpAnswer status b \<Rightarrow> if status \<noteq> 200 then None else secret_value env b))"

definition uses_ServSecret :: "(string \<Rightarrow> string) \<Rightarrow> bool" where
  "uses_ServSecret environ \<longleftrightarrow> environ ''SERV_SECRET_URL'' \<noteq> [] \<or> environ ''SERV_SECRET_API_KEY'' \<noteq> [] \<or>
     environ ''SERV_SECRET_TENANT_ID'' \<noteq> [] \<or> environ ''SERV_SECRET_TEST_MODE'' = ''true''"

definition fetch_jwt_secret :: "('ip, 'c) admin_env \<Rightarrow> (string \<Rightarrow> string) \<Rightarrow> string \<Rightarrow> string" where
  "fetch_jwt_secret env environ =
     (if uses_ServSecret environ then
        (case getSecretFromServSecret env environ ''jwt_secret'' of
           Some jwtSec \<Rightarrow> if jwtSec \<noteq> [] then environ(''SERV_JWT_SECRET'' := jwtSec) else environ
         | None \<Rightarrow> environ)
      else environ)"

definition choose_provider :: "('ip, 'c) admin_env \<Rightarrow> (string \<Rightarrow> string) \<Rightarrow> filesystem \<Rightarrow> provider" where
  "choose_provider env environ fs =
     (if \<not> standalone env \<and> (environ ''SERV_CONFIG_S3_BUCKET'' \<noteq> [] \<or> environ ''SERVVERSE_DISCOVERY'' \<noteq> [])
      then S3 (NewS3ConfigProvider (ae_provider env) environ fs) else LocalFile ''config.json'')"

datatype start_failure = ConfigFailure config_error | StartPanic go_panic

definition zero_config :: GatewayConfig where
  "zero_config = \<lparr>cfg_Addr = [], cfg_AuthToken = [], cfg_TlsCert = [], cfg_TlsKey = [], cfg_Routes = [], cfg_APIKeys = [], cfg_Signature = []\<rparr>"

definition boot :: "('ip, 'c) admin_env \<Rightarrow> (string \<Rightarrow> string) \<Rightarrow> filesystem \<Rightarrow> 'c app" where
  "boot env environ fs = \<lparr>app_cfg = zero_config, app_h = empty_handler [] [] False, app_prov = choose_provider env environ fs,
     app_fs = fs, app_sent = [], app_wasm = wasm_init, app_limits = (\<lambda>_. Map.empty), app_env = environ\<rparr>"

definition main_start :: "('ip, 'c) admin_env \<Rightarrow> (string \<Rightarrow> string) \<Rightarrow> filesystem \<Rightarrow> start_failure + 'c app" where
  "main_start env environ fs =
     (let (loaded, a) = prov_Load env 0 (boot env environ fs) in
      case loaded of
        Inl err \<Rightarrow> Inl (ConfigFailure err)
      | Inr cfg \<Rightarrow> (case NewGatewayHandler (ae_setup env) (cfg_Routes cfg) (cfg_AuthToken cfg) of
          Inl p \<Rightarrow> Inl (StartPanic p)
        | Inr h \<Rightarrow> Inr (a\<lparr>app_cfg := cfg, app_h := h, app_env := fetch_jwt_secret env environ\<rparr>)))"

text \<open>
  One tick of the goroutine that polls the object store; \<open>lastRoutes\<close> is the encoding of the
  routes it has applied last. It runs only with the S3 provider.
\<close>

definition poll_tick :: "('ip, 'c) admin_env \<Rightarrow> string option \<times> 'c app \<Rightarrow> go_panic option \<times> string option \<times> 'c app" where
  "poll_tick env st =
     (let (lastRoutes, a) = st; (loaded, a) = prov_Load env 0 a in
      case loaded of
        Inl _ \<Rightarrow> (None, lastRoutes, a)
      | Inr newCfg \<Rightarrow> (case marshal_routes (ae_provider env) (cfg_Routes newCfg) of
          None \<Rightarrow> (None, lastRoutes, a)
        | Some rb \<Rightarrow>
            if lastRoutes = Some rb \<or> (lastRoutes = None \<and> rb = []) then (None, lastRoutes, a)
            else (let (p, a) = app_UpdateRoutes env (cfg_Routes newCfg) a in (p, Some rb, a))))"

text \<open>
  The process: it starts, then serves requests, polls the store and runs the canary engine in any
  order, each as one step. \<open>E\<close> is the set of environments the outside world may show.
\<close>

inductive app_reach :: "('ip, 'c) admin_env set \<Rightarrow> 'c app \<Rightarrow> bool" for E :: "('ip, 'c) admin_env set" where
  start: "env \<in> E \<Longrightarrow> main_start env environ fs = Inr a \<Longrightarrow> app_reach E a"
| request: "app_reach E a \<Longrightarrow> env \<in> E \<Longrightarrow> mux_ServeHTTP env r a = (out, p, w, a') \<Longrightarrow> app_reach E a'"
| poll: "app_reach E a \<Longrightarrow> env \<in> E \<Longrightarrow> poll_tick env (lastRoutes, a) = (p, lastRoutes', a') \<Longrightarrow> app_reach E a'"
| canary: "app_reach E a \<Longrightarrow> canary_tick clk (routes (app_h a)) (canaryStats (app_h a)) lp = (rs, cs, lp') \<Longrightarrow>
    app_reach E (a\<lparr>app_h := (app_h a)\<lparr>routes := rs, canaryStats := cs\<rparr>\<rparr>)"

end
