(* ===== verification/Admin_Guarantees.thy ===== *)
theory Admin_Guarantees
  imports Admin
begin

text \<open>
  Guarantees of the whole process: what the admin API refuses, what it stores, and what stays the
  same over every run of the process.
\<close>

section \<open>What no operation changes\<close>

text \<open>The keys, the token and the start-up configuration.\<close>

definition same_secrets :: "GatewayHandler \<Rightarrow> GatewayHandler \<Rightarrow> bool" where
  "same_secrets h h' \<longleftrightarrow> apiKeys h' = apiKeys h \<and> authToken h' = authToken h"

definition keeps_keys :: "serve \<Rightarrow> serve \<Rightarrow> bool" where
  "keeps_keys s s' \<longleftrightarrow> same_secrets (sv_h s) (sv_h s')"

lemma keeps_keys_refl [simp]: "keeps_keys s s" by (simp add: keeps_keys_def same_secrets_def)

lemma keeps_keys_trans: "keeps_keys a b \<Longrightarrow> keeps_keys b c \<Longrightarrow> keeps_keys a c" by (simp add: keeps_keys_def same_secrets_def)

lemma keeps_keys_simps [simp]:
  "keeps_keys s (error_response env m c st t) = keeps_keys s t" "keeps_keys s (count_error t) = keeps_keys s t"
  "keeps_keys s (add_log e t) = keeps_keys s t" "keeps_keys s (put_cache p rc t) = keeps_keys s t"
  "keeps_keys s (put_breaker cb t) = keeps_keys s t" "keeps_keys s (penalize t) = keeps_keys s t"
  "keeps_keys s (report_load env resp t) = keeps_keys s t" "keeps_keys s (record_canary st t) = keeps_keys s t"
  "keeps_keys s (count_status st t) = keeps_keys s t" "keeps_keys s (store_answer env rw t) = keeps_keys s t"
  "keeps_keys s (t\<lparr>sv_w := w\<rparr>) = keeps_keys s t" "keeps_keys s (t\<lparr>sv_r := r\<rparr>) = keeps_keys s t"
  "keeps_keys s (t\<lparr>sv_out := ou\<rparr>) = keeps_keys s t" "keeps_keys s (t\<lparr>sv_reqBody := i\<rparr>) = keeps_keys s t"
  "keeps_keys s (t\<lparr>sv_traceparent := i\<rparr>) = keeps_keys s t" "keeps_keys s (t\<lparr>sv_traceID := i\<rparr>) = keeps_keys s t"
  "keeps_keys s (t\<lparr>sv_cacheKey := ck\<rparr>) = keeps_keys s t" "keeps_keys s (release_conn tg t) = keeps_keys s t"
  "keeps_keys s (final (record_breaker env st t)) = keeps_keys s t"
  by (simp_all add: keeps_keys_def same_secrets_def error_response_def count_error_def add_log_def put_cache_def put_breaker_def penalize_def
      report_load_def record_canary_def count_status_def store_answer_def release_conn_def record_breaker_def Let_def split: option.splits sum.splits)

lemma keys_before: "keeps keeps_keys (stages (before_target env))"
proof (rule keeps_stages)
  fix f assume "f \<in> set (before_target env)"
  then consider "f = stage_trace env" | "f = stage_cache env" | "f = stage_validation env" | "f = stage_ai env" | "f = stage_wasm env" | "f = stage_plugin env"
    by (auto simp: before_target_def)
  then show "keeps keeps_keys f"
    by cases (rule keepsI, simp add: before_defs Let_def split_beta split: option.splits sum.splits plugin_outcome.splits)+
qed (auto intro: keeps_keys_trans)

lemma keys_reverse_proxy: "reverse_proxy env u s = (p, s', rw) \<Longrightarrow> keeps_keys s s'"
  by (auto simp: reverse_proxy_def Let_def split_beta split: sum.splits modified.splits)

lemma keys_proxy: "keeps_keys s (final (stage_proxy env s))"
proof (cases "parse_url env (sv_target s)")
  case (Some u)
  obtain p s' rw where rp: "reverse_proxy env u s = (p, s', rw)" by (cases "reverse_proxy env u s") auto
  from keys_reverse_proxy[OF rp] show ?thesis by (cases p) (simp_all add: stage_proxy_def Some rp Let_def)
qed (simp add: stage_proxy_def)

lemma keys_after: "keeps keeps_keys (stages (after_target env))"
proof (rule keeps_stages)
  fix f assume "f \<in> set (after_target env)"
  then consider "f = stage_breaker env" | "f = stage_queue env" | "f = stage_target_url env" | "f = stage_llm env" | "f = stage_websocket env"
    | "f = stage_request_transform env" | "f = stage_transpile" | "f = stage_proxy env"
    by (auto simp: after_target_def)
  then show "keeps keeps_keys f"
    by cases (rule keepsI, simp add: after_defs keys_proxy Let_def split_beta split: option.splits sum.splits ws_proxy_outcome.splits)+
qed (auto intro: keeps_keys_trans)

lemma quiet_keys: "quiet s s' \<Longrightarrow> keeps_keys s s'"
  by (simp add: quiet_def same_config_def keeps_keys_def same_secrets_def)

lemma keys_to_target: "keeps_keys s (final (to_target env s))"
proof (cases "stage_target env s")
  case (Cont t)
  then have "keeps_keys s t" by (auto simp: stage_target_def keeps_keys_def same_secrets_def split: sum.splits prod.splits)
  moreover have "keeps_keys t (final (stages (after_target env) t))" using keys_after[of env] by (auto simp: keeps_def)
  ultimately show ?thesis by (auto simp: to_target_def Cont intro: keeps_keys_trans)
qed (auto simp: to_target_def stage_target_def split: sum.splits prod.splits)

lemma keeps_bind:
  assumes "keeps R f" "keeps R g" "\<And>a b c. R a b \<Longrightarrow> R b c \<Longrightarrow> R a c"
  shows "R s (final (bind (f s) g))"
proof -
  have f: "R s (final (f s))" and g: "R t (final (g t))" for t using assms(1,2) by (simp_all add: keeps_def)
  then show ?thesis using assms(3)[of s "final (f s)"] by (cases "f s") auto
qed

lemma ServeHTTP_keys: "same_secrets h (sv_h (final (ServeHTTP env r h)))"
proof -
  have "keeps keeps_keys (stages (access_stages env))" using access_quiet[of env] by (auto simp: keeps_def intro: quiet_keys)
  moreover have "keeps keeps_keys (\<lambda>s. bind (stages (before_target env) s) (to_target env))"
    using keeps_bind[OF keys_before, of "to_target env"] keys_to_target keeps_keys_trans by (auto simp: keeps_def)
  ultimately have "keeps_keys (start_serve h r) (final (ServeHTTP env r h))"
    unfolding ServeHTTP_split by (rule keeps_bind) (rule keeps_keys_trans)
  then show ?thesis by (simp add: keeps_keys_def)
qed

lemma same_secrets_refl [simp]: "same_secrets h h" by (simp add: same_secrets_def)

lemma same_secrets_trans: "same_secrets a b \<Longrightarrow> same_secrets b c \<Longrightarrow> same_secrets a c" by (simp add: same_secrets_def)

lemma setup_secrets_simps [simp]:
  "apiKeys (setup_semantic al r h) = apiKeys h" "authToken (setup_semantic al r h) = authToken h"
  "apiKeys (setup_logger env al r h) = apiKeys h" "authToken (setup_logger env al r h) = authToken h"
  "apiKeys (setup_cache al r h) = apiKeys h" "authToken (setup_cache al r h) = authToken h"
  "apiKeys (setup_transport env al r h) = apiKeys h" "authToken (setup_transport env al r h) = authToken h"
  "apiKeys (snd (setup_limiter al r h)) = apiKeys h" "authToken (snd (setup_limiter al r h)) = authToken h"
  by (simp_all add: setup_defs setup_cache_def setup_limiter_def split: option.splits sum.splits)

lemma setup_secrets: "same_secrets h (snd (setup_route env al r h))"
  by (simp add: same_secrets_def setup_route_def)

lemma setup_routes_secrets: "same_secrets h (snd (setup_routes env al rs h))"
proof (induction rs arbitrary: h)
  case (Cons r rs)
  have "same_secrets h (snd (setup_route env al r h))" by (rule setup_secrets)
  with Cons.IH[of "snd (setup_route env al r h)"] show ?case
    by (auto split: prod.splits option.splits intro: same_secrets_trans)
qed simp

lemma UpdateRoutes_secrets [simp]:
  "apiKeys (snd (UpdateRoutes env rs h)) = apiKeys h" "authToken (snd (UpdateRoutes env rs h)) = authToken h"
  using setup_routes_secrets[of "h\<lparr>routes := rs\<rparr>" env False rs] by (simp_all add: UpdateRoutes_def same_secrets_def)

lemma RegisterRoute_secrets [simp]:
  "apiKeys (snd (RegisterRoute env r h)) = apiKeys h" "authToken (snd (RegisterRoute env r h)) = authToken h"
  using setup_secrets[of "h\<lparr>routes := upsert_route r (routes h)\<rparr>" env False r] by (simp_all add: RegisterRoute_def same_secrets_def)

lemma InvalidateCache_secrets [simp]:
  "apiKeys (snd (InvalidateCache rp kp h)) = apiKeys h" "authToken (snd (InvalidateCache rp kp h)) = authToken h"
  by (simp_all add: InvalidateCache_def split_beta Let_def split: option.splits)

lemma UpdatePolicySchema_secrets [simp]:
  "apiKeys (UpdatePolicySchema sc h) = apiKeys h" "authToken (UpdatePolicySchema sc h) = authToken h"
  by (simp_all add: UpdatePolicySchema_def)

definition keeps_app :: "'c app \<Rightarrow> 'c app \<Rightarrow> bool" where
  "keeps_app a a' \<longleftrightarrow> same_secrets (app_h a) (app_h a') \<and> cfg_AuthToken (app_cfg a') = cfg_AuthToken (app_cfg a) \<and> app_env a' = app_env a"

lemma keeps_app_refl [simp]: "keeps_app a a" by (simp add: keeps_app_def)

lemma keeps_app_trans: "keeps_app a b \<Longrightarrow> keeps_app b c \<Longrightarrow> keeps_app a c" by (auto simp: keeps_app_def intro: same_secrets_trans)

lemma keeps_app_simps [simp]:
  "keeps_app a (b\<lparr>app_fs := fs\<rparr>) = keeps_app a b" "keeps_app a (b\<lparr>app_sent := se\<rparr>) = keeps_app a b"
  "keeps_app a (b\<lparr>app_wasm := wa\<rparr>) = keeps_app a b" "keeps_app a (b\<lparr>app_limits := li\<rparr>) = keeps_app a b"
  by (simp_all add: keeps_app_def)

lemma keeps_app_parts [simp]:
  "keeps_app a (snd (prov_Load env i b)) = keeps_app a b" "keeps_app a (snd (prov_Save env i cfg b)) = keeps_app a b"
  "keeps_app a (snd (app_UpdateRoutes env rs b)) = keeps_app a b"
  by (simp_all add: prov_Load_def prov_Save_def app_UpdateRoutes_def split_beta Let_def keeps_app_def same_secrets_def split: provider.splits)

lemma app_cfg_parts [simp]: "app_cfg (snd (prov_Load env i b)) = app_cfg b" "app_cfg (snd (prov_Save env i cfg b)) = app_cfg b"
  by (simp_all add: prov_Load_def prov_Save_def split_beta Let_def split: provider.splits)

lemma sign_token: "sign_for_save pe sec t cfg = Inr c \<Longrightarrow> cfg_AuthToken c = cfg_AuthToken cfg"
  by (auto simp: sign_for_save_def signConfig_def Let_def split: if_splits sum.splits option.splits)

lemma keeps_alias [simp]:
  "(al \<Longrightarrow> cfg_AuthToken cfg = cfg_AuthToken (app_cfg b)) \<Longrightarrow> keeps_app a (alias_cfg env al cfg b) = keeps_app a b"
  by (cases al) (auto simp: alias_cfg_def keeps_app_def sign_token split: sum.split)

lemma alias_keeps [simp]:
  "app_h (alias_cfg env al cfg b) = app_h b" "app_fs (alias_cfg env al cfg b) = app_fs b" "app_prov (alias_cfg env al cfg b) = app_prov b"
  by (simp_all add: alias_cfg_def)

lemma finish_app [simp]: "snd (snd (finish res w)) = snd res"
  by (simp add: finish_def split_beta split: option.splits prod.splits)

lemmas refusal_defs = unauthorized_def method_not_allowed_def

lemma keeps_routes [simp]:
  "keeps_app a (snd (snd (post_route env r b))) = keeps_app a b" "keeps_app a (snd (snd (delete_route env r b))) = keeps_app a b"
  by (simp_all add: post_route_def delete_route_def split_beta Let_def split: option.splits sum.splits config_error.splits)

lemma keeps_handlers [simp]:
  "keeps_app a (snd (snd (handleMiddleware env r b))) = keeps_app a b"
  "keeps_app a (snd (snd (handleConnections env r b))) = keeps_app a b"
  "keeps_app a (snd (snd (handleRoutes env r b))) = keeps_app a b"
  "keeps_app a (snd (snd (handleAIBilling env r b))) = keeps_app a b"
  "keeps_app a (snd (snd (handleMetricsWS env r b))) = keeps_app a b"
  "keeps_app a (snd (snd (handleConsoleSync env r b))) = keeps_app a b"
  "keeps_app a (snd (snd (handleGitOpsWebhook env r b))) = keeps_app a b"
  by (simp_all add: handleMiddleware_def handleConnections_def handleRoutes_def handleAIBilling_def handleMetricsWS_def handleConsoleSync_def
      handleGitOpsWebhook_def refusal_defs split_beta Let_def split: option.splits sum.splits)

lemma keeps_handlers_h [simp]:
  "keeps_app a (snd (snd (handleRouteRegister env r b))) = keeps_app a b"
  "keeps_app a (snd (snd (handleCacheInvalidation env r b))) = keeps_app a b"
  "keeps_app a (snd (snd (handlePolicyReload env r b))) = keeps_app a b"
  "keeps_app a (snd (snd (handlePolicyRevoke env r b))) = keeps_app a b"
  by (simp_all add: handleRouteRegister_def handleCacheInvalidation_def handlePolicyReload_def handlePolicyRevoke_def
      refusal_defs split_beta Let_def keeps_app_def same_secrets_def split: option.splits)

lemma keeps_endpoint [simp]: "keeps_app a (snd (snd (handle_endpoint env ep r b))) = keeps_app a b"
  by (cases ep) simp_all

lemma keeps_mux: "keeps_app a (snd (snd (snd (mux_ServeHTTP env r a))))"
proof -
  have "keeps_app a (a\<lparr>app_h := sv_h (final (ServeHTTP (app_serve env a) r (app_h a)))\<rparr>)"
    using ServeHTTP_keys[of "app_h a"] by (simp add: keeps_app_def)
  then show ?thesis by (simp add: mux_ServeHTTP_def withAdminRateLimit_def split_beta Let_def split: option.splits prod.splits)
qed

lemma keeps_poll: "keeps_app a (snd (snd (poll_tick env (lr, a))))"
  by (simp add: poll_tick_def split_beta Let_def split: sum.splits option.splits)

text \<open>Nothing loads the configured API keys, and the handler's token is the one of the start-up configuration.\<close>

lemma main_start_secrets:
  assumes "main_start env environ fs = Inr a"
  shows "apiKeys (app_h a) = Map.empty \<and> authToken (app_h a) = cfg_AuthToken (app_cfg a)"
proof -
  from assms obtain cfg h b where h: "NewGatewayHandler (ae_setup env) (cfg_Routes cfg) (cfg_AuthToken cfg) = Inr h"
    and a: "a = b\<lparr>app_cfg := cfg, app_h := h, app_env := fetch_jwt_secret env environ\<rparr>"
    by (auto simp: main_start_def Let_def split_beta split: sum.splits)
  from h obtain rd where "same_secrets (empty_handler (cfg_Routes cfg) (cfg_AuthToken cfg) rd) h"
    using setup_routes_secrets by (auto simp: NewGatewayHandler_def Let_def split: prod.splits option.splits) (metis snd_conv)
  with a show ?thesis by (simp add: same_secrets_def empty_handler_def)
qed

lemma app_secrets: "app_reach E a \<Longrightarrow> apiKeys (app_h a) = Map.empty \<and> authToken (app_h a) = cfg_AuthToken (app_cfg a)"
proof (induction rule: app_reach.induct)
  case (start env environ fs a)
  then show ?case using main_start_secrets by blast
next
  case (request a env r out p w a')
  then show ?case using keeps_mux[of a env r] by (simp add: keeps_app_def same_secrets_def)
next
  case (poll a env lastRoutes p lastRoutes' a')
  then show ?case using keeps_poll[of a env lastRoutes] by (simp add: keeps_app_def same_secrets_def)
qed simp

section \<open>A concrete process\<close>

definition demo_admin :: "(string, nat) admin_env" where
  "demo_admin =
     \<lparr>ae_serve = demo_env, ae_provider = example_penv\<lparr>encode_config := (\<lambda>c. case cfg_Routes c of
          [rt] \<Rightarrow> if rt = zero_route\<lparr>Prefix := Prefix rt\<rparr> then Some (Prefix rt) else None | _ \<Rightarrow> None),
        decode_config := (\<lambda>d. Some (example_config\<lparr>cfg_Routes := [zero_route\<lparr>Prefix := d\<rparr>]\<rparr>))\<rparr>,
      ae_setup = plain_setup, standalone = True, s3_answer = (\<lambda>_. NetFailure),
      secret_answer = (\<lambda>_ _. HttpAnswer 200 ''k''), secret_value = Some, file_write = Written, git_pull = (\<lambda>_ fs. (fs, [])),
      route_of = (\<lambda>b. Some (zero_route\<lparr>Prefix := b\<rparr>)), routes_of = (\<lambda>b. Some [zero_route\<lparr>Prefix := b\<rparr>]), username_of = Some,
      budget_of = (\<lambda>_. None), query_param = (\<lambda>_ _. []), compile_wasm = (\<lambda>_. Inr 0), config_error_text = (\<lambda>_. []),
      routes_json = (\<lambda>_. []), conns_json = (\<lambda>_. []), snapshot_json = (\<lambda>_. []),
      shared_reply = (\<lambda>_ _. new_writer), ws_sha1 = id, ws_init_sent = True, ws_events = [],
      clean_path = (\<lambda>p. p)\<rparr>"

definition demo_app :: "nat app" where
  "demo_app = \<lparr>app_cfg = example_config\<lparr>cfg_AuthToken := ''t''\<rparr>, app_h = demo_handler, app_prov = LocalFile ''config.json'',
     app_fs = [''config.json'' \<mapsto> ''/a''], app_sent = [], app_wasm = wasm_init, app_limits = (\<lambda>_. Map.empty), app_env = (\<lambda>_. [])\<rparr>"

section \<open>The admin API refuses strangers\<close>

lemma admin_error_status [simp]: "\<not> is_informational st \<Longrightarrow> w_status (admin_error env r m c st) = Some st"
  by (simp add: admin_error_def WriteJSONError_def new_writer_def)

lemma token_is_jwt: "admin_token_ok a r \<Longrightarrow> admin_jwt_ok env a r"
  by (auto simp: admin_token_ok_def admin_jwt_ok_def bearer_token_def TrimPrefix_def HasPrefix_def)

lemma refused_endpoint:
  assumes "\<not> admin_jwt_ok env a r" and "ep \<noteq> AIBilling"
  shows "\<exists>w. handle_endpoint env ep r a = (None, w, a) \<and> w_status w \<in> {Some 401, Some 405}"
proof -
  have "\<not> admin_token_ok a r" using assms(1) token_is_jwt by blast
  with assms show ?thesis
    by (cases ep) (auto simp: handleMiddleware_def handleConnections_def handleRoutes_def handleRouteRegister_def handleConsoleSync_def
      handleGitOpsWebhook_def handleCacheInvalidation_def handlePolicyReload_def handlePolicyRevoke_def refusal_defs is_informational_def
      admin_jwt_ok_def)
qed

text \<open>The paths of the admin API but the two of the billing endpoint.\<close>

definition admin_path :: "string \<Rightarrow> bool" where
  "admin_path path \<longleftrightarrow> path \<in> set metrics_ws_paths \<or>
     list_ex (\<lambda>(pat, ep). ep \<noteq> AIBilling \<and> pattern_matches path pat) admin_patterns"

lemma find_admin_pattern:
  assumes "list_ex (\<lambda>(pat, ep). ep \<noteq> AIBilling \<and> pattern_matches path pat) admin_patterns"
  shows "\<exists>pat ep. find (\<lambda>(pat, _). pattern_matches path pat) admin_patterns = Some (pat, ep) \<and> ep \<noteq> AIBilling"
proof -
  from assms have "find (\<lambda>(pat, _). pattern_matches path pat) admin_patterns \<noteq> None"
    by (auto simp: find_None_iff list_ex_iff)
  then obtain pat ep where f: "find (\<lambda>(pat, _). pattern_matches path pat) admin_patterns = Some (pat, ep)" by auto
  have "ep \<noteq> AIBilling"
  proof
    assume "ep = AIBilling"
    with f have "(pat, AIBilling) \<in> set admin_patterns" "pattern_matches path pat"
      by (auto simp: find_Some_iff) (metis nth_mem)
    then have "path = ''/api/admin/ai-billing'' \<or> path = ''/api/v1/admin/ai-billing''"
      by (auto simp: admin_pattern_defs pattern_matches_def HasSuffix_def)
    with assms show False
      by (elim disjE) (simp_all add: admin_pattern_defs pattern_matches_def HasSuffix_def HasPrefix_def)
  qed
  with f show ?thesis by blast
qed

lemma shared_not_admin: "path \<in> {''/healthz'', ''/readyz'', ''/api/version''} \<Longrightarrow> \<not> admin_path path"
  by (auto simp: admin_path_def metrics_ws_paths_def admin_pattern_defs pattern_matches_def HasSuffix_def HasPrefix_def)

lemma refused_limited:
  assumes "\<not> admin_jwt_ok env a r" and "ep \<noteq> AIBilling"
  shows "\<exists>w lims. withAdminRateLimit env 60 pat (handle_endpoint env ep) r a = (None, w, a\<lparr>app_limits := lims\<rparr>) \<and>
    w_status w \<in> {Some 401, Some 405, Some 429}"
proof -
  have "\<not> admin_jwt_ok env (a\<lparr>app_limits := l\<rparr>) r" for l
    using assms(1) by (simp add: admin_jwt_ok_def jwt_secret_def)
  then have "\<exists>w. handle_endpoint env ep r (a\<lparr>app_limits := l\<rparr>) = (None, w, a\<lparr>app_limits := l\<rparr>) \<and> w_status w \<in> {Some 401, Some 405}" for l
    using refused_endpoint[of env "a\<lparr>app_limits := l\<rparr>" r ep] assms(2) by blast
  then show ?thesis
    by (fastforce simp: withAdminRateLimit_def split_beta Let_def is_informational_def)
qed

lemma refused_metrics:
  assumes "\<not> admin_jwt_ok env a r" and "query_param env r ''token'' \<noteq> cfg_AuthToken (app_cfg a)"
  shows "handleMetricsWS env r a = unauthorized env r a"
  using assms by (auto simp: handleMetricsWS_def admin_jwt_ok_def Let_def)

text \<open>C6: every path of the admin API but the two of the billing endpoint, the metrics stream included,
  refuses a request whose \<^verbatim>\<open>Authorization\<close> header carries neither the configured token nor a valid
  JSON web token and, for the metrics stream, which also takes the token from the query, whose
  parameter \<^verbatim>\<open>token\<close> is not the configured token: the mux answers it 401, 405 or 429, or redirects it
  (301) when the path is not clean; nothing is forwarded, there is no panic, and nothing of the
  process changes but the histories of the admin rate limiters.\<close>

theorem admin_requires_auth:
  assumes "admin_path (rq_Path r)" and "\<not> admin_jwt_ok env a r"
    and "rq_Path r \<in> set metrics_ws_paths \<longrightarrow> query_param env r ''token'' \<noteq> cfg_AuthToken (app_cfg a)"
  shows "\<exists>w lims. mux_ServeHTTP env r a = ([], None, w, a\<lparr>app_limits := lims\<rparr>) \<and>
    w_status w \<in> {Some 301, Some 401, Some 405, Some 429}"
proof -
  have nshared: "rq_Path r \<notin> {''/healthz'', ''/readyz'', ''/api/version''}" using shared_not_admin assms(1) by blast
  let ?redirected = "rq_Method r \<noteq> ''CONNECT'' \<and> (clean_path env (rq_Path r) \<noteq> rq_Path r \<or>
    rq_Path r \<in> {''/api/admin/middleware'', ''/api/v1/admin/middleware''})"
  consider "?redirected" | "\<not> ?redirected" "rq_Path r \<in> set metrics_ws_paths" | "\<not> ?redirected" "rq_Path r \<notin> set metrics_ws_paths" by blast
  then show ?thesis
  proof cases
    case 1
    then show ?thesis
      by (intro exI[of _ "w_WriteHeader 301 (w_Set ''Location'' (if clean_path env (rq_Path r) \<noteq> rq_Path r then clean_path env (rq_Path r)
          else rq_Path r @ ''/'') new_writer)"] exI[of _ "app_limits a"])
        (simp add: mux_ServeHTTP_def Let_def new_writer_def is_informational_def)
  next
    case 2
    have "mux_ServeHTTP env r a = ([], handleMetricsWS env r a)"
      unfolding mux_ServeHTTP_def Let_def if_not_P[OF 2(1)] if_not_P[OF nshared] if_P[OF 2(2)] ..
    with refused_metrics[OF assms(2)] assms(3) 2(2) show ?thesis
      by (intro exI[of _ "admin_error env r ''Unauthorized'' ''ERR_UNAUTHORIZED'' 401"] exI[of _ "app_limits a"])
        (simp add: unauthorized_def is_informational_def)
  next
    case 3
    then obtain pat ep where f: "find (\<lambda>(pat, _). pattern_matches (rq_Path r) pat) admin_patterns = Some (pat, ep)" and ep: "ep \<noteq> AIBilling"
      using find_admin_pattern[of "rq_Path r"] assms(1) unfolding admin_path_def by blast
    have "mux_ServeHTTP env r a = ([], withAdminRateLimit env 60 pat (handle_endpoint env ep) r a)"
      unfolding mux_ServeHTTP_def Let_def if_not_P[OF 3(1)] if_not_P[OF nshared] if_not_P[OF 3(2)] f by simp
    with refused_limited[OF assms(2) ep, of pat] show ?thesis by auto
  qed
qed

theorem admin_requires_auth_witness:
  "(\<exists>w lims. mux_ServeHTTP demo_admin (demo_request ''Bearer u'' ''/api/routes'') demo_app = ([], None, w, demo_app\<lparr>app_limits := lims\<rparr>)) \<and>
   (\<exists>w lims. mux_ServeHTTP demo_admin (demo_request ''Bearer u'' ''/api/v1/admin/metrics/ws'') demo_app = ([], None, w, demo_app\<lparr>app_limits := lims\<rparr>))"
proof -
  have n: "\<not> admin_jwt_ok demo_admin demo_app (demo_request ''Bearer u'' p)" for p
    by (simp add: admin_jwt_ok_def demo_app_def jwt_secret_def bearer_token_def Header_Get_def TrimPrefix_def HasPrefix_def)
  have p: "admin_path ''/api/routes''" "admin_path ''/api/v1/admin/metrics/ws''"
    by (simp_all add: admin_path_def metrics_ws_paths_def admin_pattern_defs pattern_matches_def HasSuffix_def)
  have q: "query_param demo_admin r ''token'' \<noteq> cfg_AuthToken (app_cfg demo_app)" for r by (simp add: demo_admin_def demo_app_def)
  show ?thesis
    using admin_requires_auth[of "demo_request ''Bearer u'' ''/api/routes''" demo_admin demo_app]
      admin_requires_auth[of "demo_request ''Bearer u'' ''/api/v1/admin/metrics/ws''" demo_admin demo_app] n p q by fastforce
qed

section \<open>Stored and live routes agree\<close>

lemma Save_local:
  assumes "app_prov a = LocalFile path" and "prov_Save env i cfg a = (Inr cfg', a')"
  shows "\<exists>d sig. encode_config (ae_provider env) (cfg\<lparr>cfg_Signature := sig\<rparr>) = Some d \<and> app_fs a' path = Some d \<and> app_h a' = app_h a \<and> app_prov a' = app_prov a"
proof -
  have "\<exists>sig. c = cfg\<lparr>cfg_Signature := sig\<rparr>" if "sign_for_save pe sec t cfg = Inr c" for c pe sec t
  proof -
    have "\<exists>sig. cfg = cfg\<lparr>cfg_Signature := sig\<rparr>" by (rule exI[of _ "cfg_Signature cfg"]) simp
    then show ?thesis using that by (auto simp: sign_for_save_def signConfig_def Let_def split: if_splits sum.splits option.splits)
  qed
  then show ?thesis using assms
    by (fastforce simp: prov_Save_def LocalFileProvider_Save_def os_WriteFile_def split: sum.splits option.splits if_splits write_fate.splits)
qed

lemma setup_routes_routes: "routes (snd (setup_routes env al qs g)) = routes g"
proof (induction qs arbitrary: g)
  case (Cons q qs)
  obtain p g1 where q: "setup_route env al q g = (p, g1)" by (cases "setup_route env al q g")
  with grows_setup have "routes g1 = routes g" by (simp add: grows_def)
  with Cons.IH[of g1] q show ?case by (cases p) simp_all
qed simp

lemma UpdateRoutes_routes: "routes (snd (UpdateRoutes env rs h)) = rs"
  by (simp add: UpdateRoutes_def setup_routes_routes)

lemma finish_ok: "finish (app_UpdateRoutes env rs a) w = (None, w', a') \<Longrightarrow> w' = w \<and> a' = a\<lparr>app_h := snd (UpdateRoutes (ae_setup env) rs (app_h a))\<rparr>"
  by (auto simp: finish_def app_UpdateRoutes_def split_beta Let_def split: option.splits)

text \<open>C22: after a route has been posted with success to the admin API of a process that keeps its
  configuration in a local file, the file holds the encoding of a configuration whose routes are the routes the gateway now serves, and the posted route is
  the one found under its prefix.\<close>

theorem posted_route_is_stored_and_live:
  assumes "post_route env r a = (None, w, a')" and "w_status w = Some 200" and "app_prov a = LocalFile path"
  shows "\<exists>newRoute d cfg. route_of env (fst (ReadAll (rq_Body r))) = Some newRoute \<and> app_fs a' path = Some d \<and>
    encode_config (ae_provider env) cfg = Some d \<and> cfg_Routes cfg = routes (app_h a') \<and>
    find (\<lambda>q. Prefix q = Prefix newRoute) (routes (app_h a')) = Some newRoute"
proof -
  obtain newRoute where n: "route_of env (fst (ReadAll (rq_Body r))) = Some newRoute"
    using assms(1,2) by (cases "route_of env (fst (ReadAll (rq_Body r)))") (auto simp: post_route_def is_informational_def)
  obtain loaded b where l: "prov_Load env 2 a = (loaded, b)" by (cases "prov_Load env 2 a")
  then have pb: "app_prov b = LocalFile path" using assms(3) by (auto simp: prov_Load_def)
  obtain cur where c: "(case loaded of Inl NotExist \<Rightarrow> Inr (app_cfg b) | x \<Rightarrow> x) = Inr cur"
    using assms(1,2) n l by (cases "(case loaded of Inl NotExist \<Rightarrow> Inr (app_cfg b) | x \<Rightarrow> x)") (auto simp: post_route_def is_informational_def)
  let ?cfg = "cur\<lparr>cfg_Routes := upsert_route newRoute (cfg_Routes cur)\<rparr>"
  obtain saved b' where sv: "prov_Save env 3 ?cfg b = (saved, b')" by (cases "prov_Save env 3 ?cfg b")
  obtain cs where cs: "saved = Inr cs"
    using assms(1,2) n l c sv by (cases saved) (auto simp: post_route_def is_informational_def)
  let ?b = "alias_cfg env (loaded = Inl NotExist) ?cfg b'"
  have a': "a' = ?b\<lparr>app_h := snd (UpdateRoutes (ae_setup env) (cfg_Routes ?cfg) (app_h ?b))\<rparr>"
    using assms(1) n l c sv cs finish_ok[of env "cfg_Routes ?cfg" ?b] by (simp add: post_route_def)
  from Save_local[OF pb sv[unfolded cs]] obtain d sig where
    d: "encode_config (ae_provider env) (?cfg\<lparr>cfg_Signature := sig\<rparr>) = Some d" "app_fs b' path = Some d" by blast
  have "routes (app_h a') = upsert_route newRoute (cfg_Routes cur)" using a' UpdateRoutes_routes by simp
  with n d a' show ?thesis by (intro exI[of _ newRoute] exI[of _ d] exI[of _ "?cfg\<lparr>cfg_Signature := sig\<rparr>"]) (simp add: upsert_lookup)
qed

lemma demo_post:
  "\<exists>w a'. post_route demo_admin ((demo_request [] [])\<lparr>rq_Body := Plain ''/a''\<rparr>) demo_app = (None, w, a') \<and> w_status w = Some 200"
  by (simp add: post_route_def demo_admin_def demo_app_def prov_Load_def prov_Save_def LocalFileProvider_Load_def LocalFileProvider_Save_def os_WriteFile_def
      check_loaded_def sign_for_save_def jwt_secret_def ReadAll_def example_config_def finish_def app_UpdateRoutes_def route_op_defs Let_def
      plain_reply_def new_writer_def is_informational_def)

theorem posted_route_is_stored_and_live_witness:
  "\<exists>w a' d cfg. post_route demo_admin ((demo_request [] [])\<lparr>rq_Body := Plain ''/a''\<rparr>) demo_app = (None, w, a') \<and>
     app_fs a' ''config.json'' = Some d \<and> encode_config (ae_provider demo_admin) cfg = Some d \<and> cfg_Routes cfg = routes (app_h a')"
proof -
  have "app_prov demo_app = LocalFile ''config.json''" by (simp add: demo_app_def)
  then show ?thesis
    using demo_post posted_route_is_stored_and_live[of demo_admin "(demo_request [] [])\<lparr>rq_Body := Plain ''/a''\<rparr>" demo_app _ _ "''config.json''"]
    by blast
qed

section \<open>Keys, tokens, revocation\<close>

lemma mux_forwards:
  assumes "fst (mux_ServeHTTP env r a) \<noteq> []"
  shows "fst (mux_ServeHTTP env r a) = sv_out (final (ServeHTTP (app_serve env a) r (app_h a)))"
  using assms by (auto simp: mux_ServeHTTP_def Let_def split: if_splits option.splits prod.splits)

text \<open>C23: the running process never has an API key: no code passes the configured keys to the handler. So
  a route that requires an API key forwards nothing, in any reachable state, whatever key the
  request carries.\<close>

theorem api_keys_never_loaded:
  assumes "app_reach E a" and "match_route (rq_Path r) (routes (app_h a)) = Some route" and "RequireAPIKey route"
  shows "fst (mux_ServeHTTP env r a) = []"
proof (rule ccontr)
  assume out: "fst (mux_ServeHTTP env r a) \<noteq> []"
  then have "sv_out (final (ServeHTTP (app_serve env a) r (app_h a))) \<noteq> []" using mux_forwards by metis
  from sent_identified[OF this] have "key_accepted (app_h a) route r" using assms(2) by (auto simp: identified_def)
  with app_secrets[OF assms(1)] assms(3) show False by (simp add: key_accepted_def)
qed

text \<open>Session revocation does not reach the admin API: its handlers check a token's signature and
  expiry only, so a revoked user whom the proxy refuses can still register routes.\<close>

theorem revoked_user_registers_route:
  assumes "ValidateJWT (jwt (ae_serve env)) (bearer_token r) (jwt_secret a) (clock (ae_serve env) 1) \<noteq> None" and "jwt_secret a \<noteq> []"
    and "rq_Method r = ''POST''" and "route_of env (fst (ReadAll (rq_Body r))) = Some newRoute"
    and "RegisterRoute (ae_setup env) newRoute (app_h a) = (None, h)"
  shows "\<exists>w. handleRouteRegister env r a = (None, w, a\<lparr>app_h := h\<rparr>) \<and> w_status w = Some 200 \<and>
    find (\<lambda>q. Prefix q = Prefix newRoute) (routes h) = Some newRoute"
proof -
  have "routes h = upsert_route newRoute (routes (app_h a))"
    using assms(5) grows_setup by (fastforce simp: RegisterRoute_def grows_def)
  then show ?thesis using assms
    by (auto simp: handleRouteRegister_def admin_jwt_ok_def finish_def json_reply_def new_writer_def is_informational_def upsert_lookup)
qed

definition bob_request :: request where
  "bob_request = (demo_request (''Bearer '' @ bearer.mint (example_mac ''k'') ''h'' ''bob'') [])\<lparr>rq_Method := ''POST'', rq_Body := Plain ''/b''\<rparr>"

definition bob_revoked :: "nat app" where
  "bob_revoked = demo_app\<lparr>app_env := (\<lambda>_. ''k''), app_h := demo_handler\<lparr>session := RevokeUserSession ''bob'' 99000000000 (session demo_handler)\<rparr>\<rparr>"

lemma bob_token: "bearer_token bob_request = bearer.mint (example_mac ''k'') ''h'' ''bob''"
  by (simp add: bob_request_def bearer_token_def Header_Get_def TrimPrefix_def HasPrefix_def)

lemma bob_valid: "ValidateJWT example_env (bearer.mint (example_mac ''k'') ''h'' ''bob'') ''k'' 1 = Some ''bob''"
  by (simp add: ValidateJWT_verified bearer.verified_mint example_env_def time_Unix_def)

theorem revoked_user_registers_route_witness:
  "\<exists>w h. handleRouteRegister demo_admin bob_request bob_revoked = (None, w, bob_revoked\<lparr>app_h := h\<rparr>) \<and> w_status w = Some 200"
  using revoked_user_registers_route[of demo_admin bob_request bob_revoked "zero_route\<lparr>Prefix := ''/b''\<rparr>"
      "snd (RegisterRoute plain_setup (zero_route\<lparr>Prefix := ''/b''\<rparr>) (app_h bob_revoked))"]
  by (simp add: bob_token bob_valid demo_admin_def bob_revoked_def jwt_secret_def)
    (auto simp: bob_request_def ReadAll_def route_op_defs)

definition keyed_route :: Route where
  "keyed_route = zero_route\<lparr>Prefix := ''/a'', Target := ''b'', RequireAPIKey := True\<rparr>"

definition keyed_config :: GatewayConfig where
  "keyed_config = example_config\<lparr>cfg_Routes := [keyed_route],
     cfg_APIKeys := [\<lparr>ak_Key = ''key'', ak_Tenant = ''acme'', ak_RateLimitRPM = 0, ak_AllowedRoutes = [], ak_MaxTokensPerDay = 0, ak_MaxCostPerDay = 0\<rparr>]\<rparr>"

definition keyed_admin :: "(string, nat) admin_env" where
  "keyed_admin = demo_admin\<lparr>ae_provider := example_penv\<lparr>decode_config := (\<lambda>_. Some keyed_config)\<rparr>\<rparr>"

lemmas start_defs = main_start_def boot_def choose_provider_def prov_Load_def LocalFileProvider_Load_def check_loaded_def jwt_secret_def
  fetch_jwt_secret_def uses_ServSecret_def getSecretFromServSecret_def

lemma keyed_start: "\<exists>a. main_start keyed_admin (\<lambda>_. []) [''config.json'' \<mapsto> []] = Inr a \<and> routes (app_h a) = [keyed_route]"
  by (simp add: start_defs keyed_admin_def demo_admin_def keyed_config_def keyed_route_def route_op_defs Let_def)

theorem api_keys_never_loaded_witness:
  "\<exists>a. app_reach {keyed_admin} a \<and>
     fst (mux_ServeHTTP keyed_admin ((demo_request ''Bearer tok'' ''/a/x'')\<lparr>rq_Header := [(''X-Api-Key'', [''key''])]\<rparr>) a) = []"
proof -
  from keyed_start obtain a where a: "main_start keyed_admin (\<lambda>_. []) [''config.json'' \<mapsto> []] = Inr a" "routes (app_h a) = [keyed_route]" by blast
  then have r: "app_reach {keyed_admin} a" by (blast intro: app_reach.start)
  have "match_route ''/a/x'' (routes (app_h a)) = Some keyed_route" using a(2) by (simp add: match_route_def HasPrefix_def keyed_route_def)
  with r api_keys_never_loaded[OF r, of "(demo_request ''Bearer tok'' ''/a/x'')\<lparr>rq_Header := [(''X-Api-Key'', [''key''])]\<rparr>" keyed_route keyed_admin]
  show ?thesis by (auto simp: keyed_route_def)
qed

text \<open>The configuration the process starts with is checked against the secret in its environment, not
  against the one it then fetches from the secret service: with no secret in the environment any
  file is accepted, also one whose signature does not verify under the fetched secret.\<close>

theorem startup_config_unverified:
  assumes "standalone env" and "environ ''SERV_JWT_SECRET'' = []" and "environ ''SERV_SECRET_URL'' \<noteq> []"
    and "getSecretFromServSecret env environ ''jwt_secret'' = Some sec" and "sec \<noteq> []"
    and "fs ''config.json'' = Some d" and "decode_config (ae_provider env) d = Some cfg"
    and "NewGatewayHandler (ae_setup env) (cfg_Routes cfg) (cfg_AuthToken cfg) = Inr h"
    and "verifyConfigSignature (ae_provider env) cfg sec now = Some err"
  shows "\<exists>a. main_start env environ fs = Inr a \<and> app_cfg a = cfg \<and> app_h a = h \<and> jwt_secret a = sec \<and>
    LocalFileProvider_Load (ae_provider env) ''config.json'' (jwt_secret a) now (app_fs a) = Inl (VerificationFailed err)"
  using assms
  by (simp add: main_start_def boot_def choose_provider_def prov_Load_def LocalFileProvider_Load_def check_loaded_def jwt_secret_def
      fetch_jwt_secret_def uses_ServSecret_def Let_def)

theorem startup_config_unverified_witness:
  "\<exists>a. main_start keyed_admin ((\<lambda>_. [])(''SERV_SECRET_URL'' := ''u'')) [''config.json'' \<mapsto> []] = Inr a \<and> jwt_secret a = ''k'' \<and>
    LocalFileProvider_Load (ae_provider keyed_admin) ''config.json'' ''k'' 0 (app_fs a) = Inl (VerificationFailed MissingSignature)"
proof -
  have "getSecretFromServSecret keyed_admin ((\<lambda>_. [])(''SERV_SECRET_URL'' := ''u'')) ''jwt_secret'' = Some ''k''"
    by (simp add: getSecretFromServSecret_def keyed_admin_def demo_admin_def Let_def)
  moreover have "\<exists>h. NewGatewayHandler (ae_setup keyed_admin) (cfg_Routes keyed_config) (cfg_AuthToken keyed_config) = Inr h"
    by (simp add: keyed_admin_def demo_admin_def keyed_config_def keyed_route_def route_op_defs Let_def)
  moreover have "verifyConfigSignature (ae_provider keyed_admin) keyed_config ''k'' 0 = Some MissingSignature"
    by (simp add: verifyConfigSignature_def keyed_config_def example_config_def)
  ultimately show ?thesis
    using startup_config_unverified[of keyed_admin "(\<lambda>_. [])(''SERV_SECRET_URL'' := ''u'')" "''k''" "[''config.json'' \<mapsto> []]" "[]" keyed_config _ 0 MissingSignature]
    by (auto simp: keyed_admin_def demo_admin_def)
qed

text \<open>A console sync reports success whether or not the configuration could be stored: when loading or
  saving fails the routes are live but will be gone at the next start.\<close>

theorem console_sync_ignores_store:
  assumes "admin_jwt_ok env a r" and "rq_Method r = ''POST''" and "routes_of env (fst (ReadAll (rq_Body r))) = Some rs"
    and "app_prov a = LocalFile path" and "file_write env = OpenFails" and "handleConsoleSync env r a = (None, w, a')"
  shows "w_status w = Some 200 \<and> routes (app_h a') = rs \<and> app_fs a' = app_fs a"
proof -
  have save: "app_fs (snd (prov_Save env i c b)) = app_fs b" if "app_prov b = LocalFile path" for i c b
    using that assms(5) by (simp add: prov_Save_def LocalFileProvider_Save_def os_WriteFile_def split_beta Let_def split: sum.splits option.splits)
  obtain l where l: "prov_Load env 2 a = (l, a)" using assms(4) by (simp add: prov_Load_def)
  let ?b = "case l of Inl _ \<Rightarrow> a | Inr c \<Rightarrow> snd (prov_Save env 3 (c\<lparr>cfg_Routes := rs\<rparr>) a)"
  have fs: "app_fs ?b = app_fs a" using save[OF assms(4)] by (simp split: sum.splits)
  have "finish (app_UpdateRoutes env rs ?b) (json_reply ''{\"status\":\"success\",\"message\":\"Console sync updated configuration successfully\"}'') = (None, w, a')"
    using assms l by (simp add: handleConsoleSync_def)
  from finish_ok[OF this] fs show ?thesis
    by (simp add: UpdateRoutes_routes json_reply_def new_writer_def is_informational_def)
qed

theorem console_sync_ignores_store_witness:
  "\<exists>w a'. handleConsoleSync (demo_admin\<lparr>file_write := OpenFails\<rparr>) ((demo_request ''Bearer t'' [])\<lparr>rq_Method := ''POST'', rq_Body := Plain ''/b''\<rparr>) demo_app = (None, w, a') \<and>
     w_status w = Some 200 \<and> app_fs a' = app_fs demo_app"
proof -
  let ?e = "demo_admin\<lparr>file_write := OpenFails\<rparr>" and ?r = "(demo_request ''Bearer t'' [])\<lparr>rq_Method := ''POST'', rq_Body := Plain ''/b''\<rparr>"
  have ok: "admin_jwt_ok ?e demo_app ?r"
    by (simp add: admin_jwt_ok_def demo_app_def bearer_token_def Header_Get_def TrimPrefix_def HasPrefix_def)
  have rs: "routes_of ?e (fst (ReadAll (rq_Body ?r))) = Some [zero_route\<lparr>Prefix := ''/b''\<rparr>]" by (simp add: demo_admin_def ReadAll_def)
  have "fst (UpdateRoutes plain_setup [zero_route\<lparr>Prefix := ''/b''\<rparr>] h) = None" for h by (simp add: route_op_defs)
  then obtain w a' where h: "handleConsoleSync ?e ?r demo_app = (None, w, a')"
    using ok by (auto simp: handleConsoleSync_def finish_def app_UpdateRoutes_def split_beta Let_def demo_admin_def ReadAll_def split: option.splits prod.splits)
  have "rq_Method ?r = ''POST''" "app_prov demo_app = LocalFile ''config.json''" "file_write ?e = OpenFails" by (simp_all add: demo_app_def)
  from console_sync_ignores_store[OF ok this(1) rs this(2,3) h] h show ?thesis by blast
qed

end
