(* ===== verification/Launch.thy ===== *)
theory Launch
  imports Admin Metrics
begin

text \<open>
  The outside of main.go: the commands the program is started with, the replay command, and how
  the server listens (TLS certificates from ACME, from ServSecret, from files, or none).
\<close>

section \<open>Commands\<close>

datatype command = ReplayCommand | InstallCommand | PolicyCommand | GatewayCommand

definition main_command :: "string list \<Rightarrow> command" where
  "main_command args =
     (if length args > 1 \<and> args ! 1 = ''replay'' then ReplayCommand
      else if length args > 1 \<and> args ! 1 = ''install'' then InstallCommand
      else if length args > 1 \<and> args ! 1 = ''policy'' then PolicyCommand
      else GatewayCommand)"

section \<open>Replay\<close>

text \<open>
  The flags of \<^verbatim>\<open>servgate replay\<close>, parsed by the package \<^verbatim>\<open>flag\<close>; a failed step ends the process
  (\<^verbatim>\<open>log.Fatalf\<close>). \<open>read_lines\<close> gives the lines the scanner delivers and whether it stopped with an
  error, \<open>run wasm\<close> runs the middleware, \<open>compiles\<close> is whether it can be registered, \<open>report\<close>
  and \<open>show_dur\<close> are the indented JSON and \<^verbatim>\<open>%v\<close> of a duration.
\<close>

record replay_flags =
  rf_log :: string
  rf_middleware :: string
  rf_output :: string

record replay_env =
  read_lines :: "string \<Rightarrow> (string list \<times> bool) option"
  compiles :: "string \<Rightarrow> bool"
  run_wasm :: "string \<Rightarrow> string \<Rightarrow> duration option"
  line_body :: "string \<Rightarrow> string option"
  report :: "ReplayStats \<Rightarrow> string"
  show_dur :: "duration \<Rightarrow> string"
  show_int :: "int \<Rightarrow> string"
  out_writable :: "string \<Rightarrow> bool"

datatype replay_outcome =
    FlagsMissing | NoWasmFile | ReplayError | ReportNotWritten "string list"
  | Reported "string list" filesystem

definition replay_summary :: "replay_env \<Rightarrow> ReplayStats \<Rightarrow> string list" where
  "replay_summary env stats =
     [''--- Traffic Replay Summary Report ---'',
      ''Total Requests:  '' @ show_int env (rp_Total stats),
      ''Successes:       '' @ show_int env (rp_Successes stats),
      ''Failures:        '' @ show_int env (rp_Failures stats)] @
     (if rp_Successes stats > 0 then
        [''Min Latency:     '' @ show_dur env (rp_MinLatency stats),
         ''Max Latency:     '' @ show_dur env (rp_MaxLatency stats),
         ''Avg Latency:     '' @ show_dur env (rp_AvgLatency stats),
         ''P50 Latency:     '' @ show_dur env (rp_P50Latency stats),
         ''P90 Latency:     '' @ show_dur env (rp_P90Latency stats),
         ''P99 Latency:     '' @ show_dur env (rp_P99Latency stats)] else [])"

definition runReplayCommand :: "replay_env \<Rightarrow> replay_flags \<Rightarrow> filesystem \<Rightarrow> replay_outcome" where
  "runReplayCommand env fl fs =
     (if rf_log fl = [] \<or> rf_middleware fl = [] then FlagsMissing
      else (case fs (rf_middleware fl) of
        None \<Rightarrow> NoWasmFile
      | Some wasmBytes \<Rightarrow>
          (case read_lines env (rf_log fl) of
             None \<Rightarrow> ReplayError
           | Some (ls, scan_err) \<Rightarrow>
               if \<not> compiles env wasmBytes then ReplayError
               else (case ReplayTraffic (line_body env) (run_wasm env wasmBytes) scan_err ls of
                  None \<Rightarrow> ReplayError
                | Some stats \<Rightarrow>
                    if rf_output fl \<noteq> [] then
                      (if out_writable env (rf_output fl)
                       then Reported (replay_summary env stats @ [''Report saved to: '' @ rf_output fl]) (fs(rf_output fl \<mapsto> report env stats))
                       else ReportNotWritten (replay_summary env stats))
                    else Reported (replay_summary env stats) fs))))"

section \<open>Listening\<close>

text \<open>\<^verbatim>\<open>dynamicCertBytes\<close> and \<^verbatim>\<open>dynamicKeyBytes\<close>: both secrets or neither.\<close>

definition dynamic_cert :: "('ip, 'c) admin_env \<Rightarrow> (string \<Rightarrow> string) \<Rightarrow> string \<times> string" where
  "dynamic_cert env environ =
     (if uses_ServSecret environ then
        (case (getSecretFromServSecret env environ ''tls_cert'', getSecretFromServSecret env environ ''tls_key'') of
           (Some certPEM, Some keyPEM) \<Rightarrow> if certPEM \<noteq> [] \<and> keyPEM \<noteq> [] then (certPEM, keyPEM) else ([], [])
         | _ \<Rightarrow> ([], []))
      else ([], []))"

datatype listener =
    AutoTLS string
  | DynamicTLS string string
  | FileTLS string string string
  | PlainHTTP string
  | BadKeyPair

definition SetupSSLOffloading :: bool where
  "SetupSSLOffloading = False"

text \<open>\<open>key_pair_ok\<close> is \<^verbatim>\<open>tls.X509KeyPair\<close>; the hardware offloader is an enterprise feature.\<close>

definition choose_listener :: "(string \<Rightarrow> string \<Rightarrow> bool) \<Rightarrow> (string \<Rightarrow> string) \<Rightarrow> string \<times> string \<Rightarrow> GatewayConfig \<Rightarrow> listener option" where
  "choose_listener key_pair_ok environ dyn cfg =
     (let autoTLS = (environ ''SERV_AUTO_TLS'' = ''true''); autoTLSDomain = environ ''SERV_AUTO_TLS_DOMAIN''; (certBytes, keyBytes) = dyn in
      if SetupSSLOffloading then None
      else Some (
        if autoTLS \<and> autoTLSDomain \<noteq> [] then AutoTLS autoTLSDomain
        else if 0 < length certBytes \<and> 0 < length keyBytes then
          (if key_pair_ok certBytes keyBytes then DynamicTLS certBytes keyBytes else BadKeyPair)
        else if cfg_TlsCert cfg \<noteq> [] \<and> cfg_TlsKey cfg \<noteq> [] then FileTLS (cfg_Addr cfg) (cfg_TlsCert cfg) (cfg_TlsKey cfg)
        else PlainHTTP (cfg_Addr cfg)))"

definition listener_addr :: "listener \<Rightarrow> string option" where
  "listener_addr l = (case l of AutoTLS _ \<Rightarrow> Some '':443'' | DynamicTLS _ _ \<Rightarrow> Some '':443'' | FileTLS a _ _ \<Rightarrow> Some a
     | PlainHTTP a \<Rightarrow> Some a | BadKeyPair \<Rightarrow> None)"

section \<open>Properties\<close>

text \<open>
  The gateway speaks plain HTTP exactly when no source of certificates is complete. An operator who
  turns ACME on without a domain, or whose secret store is down, is served without TLS.
\<close>

theorem plain_http_iff:
  "choose_listener ok environ (dynamic_cert env environ) cfg = Some (PlainHTTP a) \<longleftrightarrow>
     a = cfg_Addr cfg \<and> (environ ''SERV_AUTO_TLS'' \<noteq> ''true'' \<or> environ ''SERV_AUTO_TLS_DOMAIN'' = []) \<and>
     (\<not> uses_ServSecret environ \<or> getSecretFromServSecret env environ ''tls_cert'' \<in> {None, Some []} \<or>
        getSecretFromServSecret env environ ''tls_key'' \<in> {None, Some []}) \<and>
     (cfg_TlsCert cfg = [] \<or> cfg_TlsKey cfg = [])"
  by (auto simp: choose_listener_def dynamic_cert_def SetupSSLOffloading_def Let_def split: option.split)

text \<open>A report that was written is the statistics of the whole log.\<close>

lemma replay_no_scan_error: "ReplayTraffic bb run scan_err ls = Some st \<Longrightarrow> \<not> scan_err"
  by (auto simp: ReplayTraffic_def split: prod.splits)

lemma replay_report_written:
  assumes "runReplayCommand env fl fs = Reported out fs'" and "rf_output fl \<noteq> []"
  shows "\<exists>stats ls scan_err wasmBytes. fs (rf_middleware fl) = Some wasmBytes \<and> read_lines env (rf_log fl) = Some (ls, scan_err) \<and> \<not> scan_err \<and>
     ReplayTraffic (line_body env) (run_wasm env wasmBytes) scan_err ls = Some stats \<and> fs' = fs(rf_output fl \<mapsto> report env stats)"
  using assms replay_no_scan_error by (fastforce simp: runReplayCommand_def split: if_splits option.splits)

end
