(* ===== verification/Policy_Compiler.thy ===== *)
theory Policy_Compiler
  imports Serve_Guarantees
begin

text \<open>
  The command line of main.go: \<^verbatim>\<open>servgate policy compile\<close>, which translates a policy file into
  the source of a Go program (compiled to WASM and run by the gateway as a middleware), and
  \<^verbatim>\<open>servgate install\<close>. The translation goes through the statements it generates: \<open>compile_line\<close>
  is the loop body, \<open>render_stmt\<close> the text it writes, \<open>run_stmts\<close> what the statements do when the
  generated program runs. \<open>quote\<close> is \<^verbatim>\<open>strconv.Quote\<close>, the verb \<^verbatim>\<open>%q\<close>.
\<close>

section \<open>Arguments\<close>

datatype 'a cli = Usage | CliPanic go_panic | Run 'a

definition policy_args :: "string list \<Rightarrow> (string \<times> string) cli" where
  "policy_args args =
     (if length args < 5 \<or> args ! 2 \<noteq> ''compile'' then Usage
      else if length args \<le> 5 then CliPanic IndexOutOfRange
      else Run (args ! 3, args ! 5))"

section \<open>Translation\<close>

record policy_stmt =
  st_method :: string
  st_path :: string
  st_header :: "(string \<times> string) option"
  st_action :: string

definition compile_line :: "string \<Rightarrow> policy_stmt option" where
  "compile_line line0 =
     (let line = TrimSpace line0 in
      if line = [] \<or> HasPrefix line ''#'' then None
      else (let parts = Fields line in
        if length parts < 3 then None
        else Some \<lparr>st_method = parts ! 1, st_path = parts ! 2,
            st_header = (if 6 \<le> length parts \<and> parts ! 3 = ''if'' \<and> HasPrefix (parts ! 4) ''header.'' \<and> parts ! 5 = ''==''
              then Some (ToLower (TrimPrefix (parts ! 4) ''header.''), Trim (Join (drop 6 parts) '' '') ''\"'') else None),
            st_action = parts ! 0\<rparr>))"

definition policy_stmts :: "string \<Rightarrow> policy_stmt list" where
  "policy_stmts content = List.map_filter compile_line (Split content CHR 0x0A)"

definition render_stmt :: "(string \<Rightarrow> string) \<Rightarrow> policy_stmt \<Rightarrow> string" where
  "render_stmt quote st =
     [CHR 0x09] @ ''if '' @ (if st_method st = ''*'' then ''true'' else ''req.Method == '' @ quote (st_method st)) @ '' && '' @
     (if st_path st = ''*'' then ''true'' else ''req.Path == '' @ quote (st_path st)) @
     (case st_header st of None \<Rightarrow> [] | Some (n, v) \<Rightarrow> '' && req.Headers['' @ quote n @ ''] == '' @ quote v) @ '' {'' @ [CHR 0x0A] @
     [CHR 0x09, CHR 0x09] @ ''fmt.Print('' @ quote (st_action st) @ '')'' @ [CHR 0x0A] @
     [CHR 0x09, CHR 0x09] @ ''return'' @ [CHR 0x0A] @ [CHR 0x09] @ ''}'' @ [CHR 0x0A]"

definition rulesCode :: "(string \<Rightarrow> string) \<Rightarrow> string \<Rightarrow> string" where
  "rulesCode quote content = concat (map (render_stmt quote) (policy_stmts content))"

section \<open>The generated program\<close>

record policy_request =
  req_Method :: string
  req_Path :: string
  req_Headers :: "string \<rightharpoonup> string"

definition stmt_fires :: "policy_request \<Rightarrow> policy_stmt \<Rightarrow> bool" where
  "stmt_fires req st \<longleftrightarrow> (st_method st = ''*'' \<or> req_Method req = st_method st) \<and> (st_path st = ''*'' \<or> req_Path req = st_path st) \<and>
     (case st_header st of None \<Rightarrow> True | Some (n, v) \<Rightarrow> mget [] (req_Headers req) n = v)"

fun run_stmts :: "policy_stmt list \<Rightarrow> policy_request \<Rightarrow> string" where
  "run_stmts [] req = ''deny''"
| "run_stmts (st # sts) req = (if stmt_fires req st then st_action st else run_stmts sts req)"

text \<open>
  Decoding the input into \<^verbatim>\<open>Request\<close>, as \<^verbatim>\<open>json.Unmarshal\<close> does: keys match a field up to case,
  other keys are skipped, \<^verbatim>\<open>null\<close> leaves a field alone, a value of another type is an error.
\<close>

fun decode_headers :: "(string \<times> json) list \<Rightarrow> (string \<rightharpoonup> string) \<Rightarrow> (string \<rightharpoonup> string) option" where
  "decode_headers [] m = Some m"
| "decode_headers ((k, JStr v) # kvs) m = decode_headers kvs (m(k \<mapsto> v))"
| "decode_headers ((k, JNull) # kvs) m = decode_headers kvs (m(k \<mapsto> []))"
| "decode_headers _ m = None"

definition decode_string :: "json \<Rightarrow> string \<Rightarrow> string option" where
  "decode_string v old = (case v of JStr t \<Rightarrow> Some t | JNull \<Rightarrow> Some old | _ \<Rightarrow> None)"

fun decode_fields :: "(string \<times> json) list \<Rightarrow> policy_request \<Rightarrow> policy_request option" where
  "decode_fields [] req = Some req"
| "decode_fields ((k, v) # kvs) req =
     (if EqualFold k ''method'' then Option.bind (decode_string v (req_Method req)) (\<lambda>x. decode_fields kvs (req\<lparr>req_Method := x\<rparr>))
      else if EqualFold k ''path'' then Option.bind (decode_string v (req_Path req)) (\<lambda>x. decode_fields kvs (req\<lparr>req_Path := x\<rparr>))
      else if EqualFold k ''headers'' then
        (case v of JObj hs \<Rightarrow> Option.bind (decode_headers hs (req_Headers req)) (\<lambda>x. decode_fields kvs (req\<lparr>req_Headers := x\<rparr>))
         | JNull \<Rightarrow> decode_fields kvs (req\<lparr>req_Headers := Map.empty\<rparr>)
         | _ \<Rightarrow> None)
      else decode_fields kvs req)"

definition decode_request :: "json option \<Rightarrow> policy_request option" where
  "decode_request body = (case body of
     Some (JObj kvs) \<Rightarrow> decode_fields kvs \<lparr>req_Method = [], req_Path = [], req_Headers = Map.empty\<rparr>
   | Some JNull \<Rightarrow> Some \<lparr>req_Method = [], req_Path = [], req_Headers = Map.empty\<rparr>
   | _ \<Rightarrow> None)"

text \<open>The program on a body, given what the body decodes to as JSON.\<close>

definition policy_main :: "policy_stmt list \<Rightarrow> json option \<Rightarrow> string" where
  "policy_main sts body = (case decode_request body of None \<Rightarrow> ''deny'' | Some req \<Rightarrow> run_stmts sts req)"

section \<open>Installing a middleware\<close>

definition install_url :: "(string \<Rightarrow> string) \<Rightarrow> string \<Rightarrow> string" where
  "install_url environ name =
     (let registry = environ ''SERV_REGISTRY''; registry = (if registry = [] then ''https://registry.serv-lang.org'' else registry)
      in TrimSuffix registry ''/'' @ ''/middlewares/'' @ name @ ''.wasm'')"

datatype install_outcome = InstallFailed | Installed "string \<rightharpoonup> string"

definition runInstallCommand ::
    "(string \<Rightarrow> string) \<Rightarrow> (string \<Rightarrow> (int \<times> string) option) \<Rightarrow> (string \<Rightarrow> string \<Rightarrow> string) \<Rightarrow> (string \<Rightarrow> bool) \<Rightarrow> string list \<Rightarrow>
     (string \<rightharpoonup> string) \<Rightarrow> install_outcome" where
  "runInstallCommand environ get path_join creatable args fs =
     (if length args < 3 then InstallFailed
      else (let name = args ! 2 in
        case get (install_url environ name) of
          None \<Rightarrow> InstallFailed
        | Some (status, b) \<Rightarrow>
            if status \<noteq> 200 then InstallFailed
            else (let destPath = path_join ''middlewares'' (name @ ''.wasm'') in
              if \<not> creatable destPath then InstallFailed else Installed (fs(destPath \<mapsto> b)))))"

section \<open>The policy language\<close>

text \<open>
  A policy as its author means it: rules in order, the first that applies decides, and nothing is
  allowed without a rule. \<open>print_policy\<close> writes it in the syntax of the file.
\<close>

record policy_line =
  pl_action :: string
  pl_method :: string
  pl_path :: string
  pl_cond :: "(string \<times> string list) option"

definition is_word :: "string \<Rightarrow> bool" where
  "is_word w \<longleftrightarrow> w \<noteq> [] \<and> (\<forall>c\<in>set w. \<not> is_space c \<and> c \<noteq> CHR ''\"'')"

definition wf_line :: "policy_line \<Rightarrow> bool" where
  "wf_line l \<longleftrightarrow> is_word (pl_action l) \<and> hd (pl_action l) \<noteq> CHR ''#'' \<and> is_word (pl_method l) \<and> is_word (pl_path l) \<and>
     (case pl_cond l of None \<Rightarrow> True | Some (n, ws) \<Rightarrow> (\<forall>c\<in>set n. \<not> is_space c) \<and> ws \<noteq> [] \<and> (\<forall>w\<in>set ws. is_word w))"

definition line_applies :: "policy_request \<Rightarrow> policy_line \<Rightarrow> bool" where
  "line_applies req l \<longleftrightarrow> (pl_method l = ''*'' \<or> pl_method l = req_Method req) \<and> (pl_path l = ''*'' \<or> pl_path l = req_Path req) \<and>
     (case pl_cond l of None \<Rightarrow> True | Some (n, ws) \<Rightarrow> mget [] (req_Headers req) (ToLower n) = Join ws '' '')"

definition policy_decision :: "policy_line list \<Rightarrow> policy_request \<Rightarrow> string" where
  "policy_decision ls req = (case find (line_applies req) ls of Some l \<Rightarrow> pl_action l | None \<Rightarrow> ''deny'')"

fun close_quote :: "string list \<Rightarrow> string list" where
  "close_quote [] = []"
| "close_quote [w] = [w @ ''\"'']"
| "close_quote (w # w' # ws) = w # close_quote (w' # ws)"

definition quote_words :: "string list \<Rightarrow> string list" where
  "quote_words ws = (case ws of [] \<Rightarrow> [] | w # ws' \<Rightarrow> close_quote ((CHR ''\"'' # w) # ws'))"

definition line_words :: "policy_line \<Rightarrow> string list" where
  "line_words l = [pl_action l, pl_method l, pl_path l] @
     (case pl_cond l of None \<Rightarrow> [] | Some (n, ws) \<Rightarrow> [''if'', ''header.'' @ n, ''==''] @ quote_words ws)"

definition print_policy :: "policy_line list \<Rightarrow> string" where
  "print_policy ls = Join (map (\<lambda>l. Join (line_words l) '' '') ls) [CHR 0x0A]"

section \<open>Words and lines\<close>

abbreviation spaceless :: "string \<Rightarrow> bool" where
  "spaceless w \<equiv> w \<noteq> [] \<and> (\<forall>c\<in>set w. \<not> is_space c)"

lemma space_chars [simp]: "is_space CHR '' ''" "is_space CHR 0x0A" "\<not> is_space CHR ''\"''" "\<not> is_space CHR ''#''"
  by (simp_all add: is_space_def)

lemma Fields_aux_word: "\<forall>c\<in>set w. \<not> is_space c \<Longrightarrow> Fields_aux u (w @ s) = Fields_aux (u @ w) s"
  by (induction w arbitrary: u) auto

lemma Fields_Join: "\<forall>w\<in>set ws. spaceless w \<Longrightarrow> Fields (Join ws '' '') = ws"
  unfolding Fields_def
proof (induction ws rule: induct_list012)
  case (2 w)
  then show ?case using Fields_aux_word[of w "[]" "[]"] by simp
next
  case (3 w w' ws)
  then have "Fields_aux [] (w @ CHR '' '' # Join (w' # ws) '' '') = w # Fields_aux [] (Join (w' # ws) '' '')"
    using Fields_aux_word[of w "[]" "CHR '' '' # Join (w' # ws) '' ''"] by simp
  with 3 show ?case by simp
qed simp

lemma Join_ends:
  assumes "ws \<noteq> []" "\<forall>w\<in>set ws. w \<noteq> []"
  shows "Join ws sep \<noteq> []" "hd (Join ws sep) = hd (hd ws)" "last (Join ws sep) = last (last ws)"
  using assms by (induction ws rule: induct_list012) auto

lemma dropWhile_hd: "s \<noteq> [] \<Longrightarrow> \<not> P (hd s) \<Longrightarrow> dropWhile P s = s"
  by (cases s) simp_all

lemma TrimSpace_id:
  assumes "s \<noteq> []" "\<not> is_space (hd s)" "\<not> is_space (last s)"
  shows "TrimSpace s = s"
  using dropWhile_hd[of s is_space] dropWhile_hd[of "rev s" is_space] assms by (simp add: TrimSpace_def hd_rev)

lemma Trim_quotes:
  assumes "s \<noteq> []" "hd s \<noteq> CHR ''\"''" "last s \<noteq> CHR ''\"''"
  shows "Trim (CHR ''\"'' # s @ ''\"'') ''\"'' = s"
proof -
  let ?P = "\<lambda>c. c = CHR ''\"''"
  have "dropWhile ?P (s @ ''\"'') = s @ ''\"''" "dropWhile ?P (rev s) = rev s"
    using assms by (simp_all add: dropWhile_eq_self_iff hd_rev)
  then show ?thesis by (simp add: Trim_def)
qed

lemma Join_Cons_char: "Join ((c # w) # ws) sep = c # Join (w # ws) sep"
  by (cases ws) simp_all

lemma Join_close: "ws \<noteq> [] \<Longrightarrow> Join (close_quote ws) sep = Join ws sep @ ''\"''"
proof (induction ws rule: close_quote.induct)
  case (3 w w' ws)
  obtain y ys where "close_quote (w' # ws) = y # ys" by (cases ws) auto
  with 3 show ?case by simp
qed simp_all

lemma Join_quote: "ws \<noteq> [] \<Longrightarrow> Join (quote_words ws) '' '' = CHR ''\"'' # Join ws '' '' @ ''\"''"
  by (cases ws) (simp_all add: quote_words_def Join_close Join_Cons_char)

lemma spaceless_close: "\<forall>w\<in>set ws. spaceless w \<Longrightarrow> \<forall>w\<in>set (close_quote ws). spaceless w"
  by (induction ws rule: close_quote.induct) auto

lemma spaceless_quote: "\<forall>w\<in>set ws. is_word w \<Longrightarrow> \<forall>w\<in>set (quote_words ws). spaceless w"
proof (cases ws)
  case (Cons v vs)
  assume "\<forall>w\<in>set ws. is_word w"
  with Cons have "\<forall>w\<in>set ((CHR ''\"'' # v) # vs). spaceless w" by (simp add: is_word_def)
  from spaceless_close[OF this] Cons show ?thesis by (simp add: quote_words_def)
qed (simp add: quote_words_def)

lemma keywords_spaceless: "spaceless ''if''" "spaceless ''==''" "\<forall>c\<in>set n. \<not> is_space c \<Longrightarrow> spaceless (''header.'' @ n)"
  by (auto simp: is_space_def)

lemma line_words_spaceless:
  assumes "wf_line l"
  shows "\<forall>w\<in>set (line_words l). spaceless w"
proof (cases "pl_cond l")
  case None
  with assms show ?thesis by (simp add: line_words_def wf_line_def is_word_def)
next
  case (Some c)
  obtain n ws where c: "c = (n, ws)" by (cases c)
  with assms Some have "\<forall>w\<in>set (quote_words ws). spaceless w" "spaceless (''header.'' @ n)"
    using spaceless_quote[of ws] keywords_spaceless(3)[of n] by (simp_all add: wf_line_def)
  moreover have sets: "set (line_words l) = {pl_action l, pl_method l, pl_path l, ''if'', ''header.'' @ n, ''==''} \<union> set (quote_words ws)"
    using Some c by (auto simp: line_words_def)
  moreover have "spaceless (pl_action l)" "spaceless (pl_method l)" "spaceless (pl_path l)"
    using assms by (simp_all add: wf_line_def is_word_def)
  ultimately show ?thesis unfolding sets ball_Un using keywords_spaceless(1,2)
    by (simp only: ball_simps simp_thms) (elim conjE, intro conjI; assumption)
qed

lemma value_back:
  assumes "ws \<noteq> []" "\<forall>w\<in>set ws. is_word w"
  shows "Trim (Join (quote_words ws) '' '') ''\"'' = Join ws '' ''"
proof -
  have ne: "\<forall>w\<in>set ws. w \<noteq> []" using assms(2) by (simp add: is_word_def)
  have "hd ws \<in> set ws" "last ws \<in> set ws" using assms(1) by simp_all
  then have "is_word (hd ws)" "is_word (last ws)" using assms(2) by blast+
  then have "hd (hd ws) \<noteq> CHR ''\"''" "last (last ws) \<noteq> CHR ''\"''"
    using hd_in_set[of "hd ws"] last_in_set[of "last ws"] by (fastforce simp: is_word_def)+
  with Join_ends[OF assms(1) ne, of "'' ''"] show ?thesis by (simp add: Join_quote[OF assms(1)] Trim_quotes)
qed

definition stmt_of :: "policy_line \<Rightarrow> policy_stmt" where
  "stmt_of l = \<lparr>st_method = pl_method l, st_path = pl_path l,
     st_header = map_option (\<lambda>(n, ws). (ToLower n, Join ws '' '')) (pl_cond l), st_action = pl_action l\<rparr>"

lemma compile_printed:
  assumes "wf_line l"
  shows "compile_line (Join (line_words l) '' '') = Some (stmt_of l)"
proof -
  let ?s = "Join (line_words l) '' ''"
  have w: "\<forall>w\<in>set (line_words l). spaceless w" using line_words_spaceless[OF assms] .
  have n: "line_words l \<noteq> []" "hd (line_words l) = pl_action l" by (simp_all add: line_words_def)
  have ends: "?s \<noteq> []" "hd ?s = hd (pl_action l)" "last ?s = last (last (line_words l))"
    using Join_ends[OF n(1), of "'' ''"] w n(2) by simp_all
  have sp: "\<not> is_space (hd u)" "\<not> is_space (last u)" if "u \<in> set (line_words l)" for u
    using w that hd_in_set[of u] last_in_set[of u] by blast+
  have t: "TrimSpace ?s = ?s"
    using TrimSpace_id[OF ends(1)] sp[OF hd_in_set[OF n(1)]] sp[OF last_in_set[OF n(1)]] ends(2,3) n(2) by simp
  have h: "\<not> HasPrefix ?s ''#''" if "hd ?s \<noteq> CHR ''#''" using that ends(1) by (cases ?s) (simp_all add: HasPrefix_def)
  have h: "\<not> HasPrefix ?s ''#''" using assms ends(2) h by (simp add: wf_line_def)
  let ?p = "line_words l"
  have "\<not> length ?p < 3" by (simp add: line_words_def)
  then have "compile_line ?s = Some \<lparr>st_method = ?p ! 1, st_path = ?p ! 2,
      st_header = (if 6 \<le> length ?p \<and> ?p ! 3 = ''if'' \<and> HasPrefix (?p ! 4) ''header.'' \<and> ?p ! 5 = ''==''
        then Some (ToLower (TrimPrefix (?p ! 4) ''header.''), Trim (Join (drop 6 ?p) '' '') ''\"'') else None), st_action = ?p ! 0\<rparr>"
    by (simp only: compile_line_def Let_def t ends(1) h Fields_Join[OF w] if_False simp_thms)
  also have "\<dots> = Some (stmt_of l)"
  proof (cases "pl_cond l")
    case None
    then show ?thesis by (simp add: line_words_def stmt_of_def)
  next
    case (Some c)
    obtain m ws where c: "c = (m, ws)" by (cases c)
    have "Trim (Join (quote_words ws) '' '') ''\"'' = Join ws '' ''" using assms Some c by (intro value_back) (simp_all add: wf_line_def)
    moreover have "HasPrefix (''header.'' @ m) ''header.''" "TrimPrefix (''header.'' @ m) ''header.'' = m"
      by (rule HasPrefix_append, rule TrimPrefix_append)
    ultimately show ?thesis using Some c by (simp add: line_words_def stmt_of_def)
  qed
  finally show ?thesis .
qed

lemma no_newline: "\<forall>w\<in>set ws. spaceless w \<Longrightarrow> CHR 0x0A \<notin> set (Join ws '' '')"
  by (induction ws rule: induct_list012) auto

lemma Split_Join_lines: "ls \<noteq> [] \<Longrightarrow> \<forall>l\<in>set ls. c \<notin> set l \<Longrightarrow> Split (Join ls [c]) c = ls"
  by (induction ls rule: induct_list012) (auto simp: Split_no_sep Split_append_sep)

lemma policy_stmts_printed:
  assumes "\<forall>l\<in>set ls. wf_line l"
  shows "policy_stmts (print_policy ls) = map stmt_of ls"
proof (cases "ls = []")
  case True
  then show ?thesis by (simp add: policy_stmts_def print_policy_def compile_line_def TrimSpace_def map_filter_simps)
next
  case False
  let ?ts = "map (\<lambda>l. Join (line_words l) '' '') ls"
  have "Split (print_policy ls) CHR 0x0A = ?ts"
    unfolding print_policy_def using False assms line_words_spaceless no_newline by (intro Split_Join_lines) auto
  moreover have "List.map_filter compile_line (map f ls) = map stmt_of ls" if "\<forall>l\<in>set ls. compile_line (f l) = Some (stmt_of l)" for f ls
    using that by (induction ls) (simp_all add: map_filter_simps)
  ultimately show ?thesis using assms compile_printed by (simp add: policy_stmts_def)
qed

lemma fires_applies: "stmt_fires req (stmt_of l) \<longleftrightarrow> line_applies req l"
  by (auto simp: stmt_fires_def line_applies_def stmt_of_def split: option.splits)

lemma stmt_of_action [simp]: "st_action (stmt_of l) = pl_action l"
  by (simp add: stmt_of_def)

lemma run_decides: "run_stmts (map stmt_of ls) req = policy_decision ls req"
  by (induction ls) (simp_all add: fires_applies policy_decision_def)

text \<open>C5: 
  The compiler is correct for every policy in the language: the program it generates decides each
  request as the policy says.
\<close>

theorem policy_compiler_correct:
  assumes "\<forall>l\<in>set ls. wf_line l"
  shows "run_stmts (policy_stmts (print_policy ls)) req = policy_decision ls req"
  using policy_stmts_printed[OF assms] run_decides by simp

definition demo_policy :: "policy_line list" where
  "demo_policy = [\<lparr>pl_action = ''deny'', pl_method = ''*'', pl_path = ''/a'', pl_cond = Some (''X-Env'', [''prod'', ''eu''])\<rparr>,
     \<lparr>pl_action = ''allow'', pl_method = ''GET'', pl_path = ''/a'', pl_cond = None\<rparr>]"

lemma demo_policy_wf: "\<forall>l\<in>set demo_policy. wf_line l"
  by (simp add: demo_policy_def wf_line_def is_word_def is_space_def)

theorem policy_compiler_correct_witness:
  "run_stmts (policy_stmts (print_policy demo_policy)) \<lparr>req_Method = ''GET'', req_Path = ''/a'', req_Headers = Map.empty\<rparr> = ''allow''"
  using policy_compiler_correct[OF demo_policy_wf, of "\<lparr>req_Method = ''GET'', req_Path = ''/a'', req_Headers = Map.empty\<rparr>"]
  by (simp add: policy_decision_def demo_policy_def line_applies_def mget_def)

section \<open>The policy inside the gateway\<close>

definition request_of :: "request \<Rightarrow> policy_request" where
  "request_of r = \<lparr>req_Method = rq_Method r, req_Path = rq_Path r, req_Headers = map_of (policy_headers (rq_Header r))\<rparr>"

lemma decode_headers_strings: "distinct (map fst kvs) \<Longrightarrow> decode_headers (map (\<lambda>(k, v). (k, JStr v)) kvs) m = Some (m ++ map_of kvs)"
proof (induction kvs arbitrary: m)
  case (Cons kv kvs)
  then have "fst kv \<notin> dom (map_of kvs)" by (simp add: dom_map_of_conv_image_fst)
  with Cons show ?case by (cases kv) (auto simp: map_add_def fun_eq_iff split: option.splits)
qed simp

lemma policy_headers_distinct: "distinct (map fst (policy_headers hdr))"
proof -
  have "distinct (map fst (fold (\<lambda>(k, vs) hdrs. case vs of [] \<Rightarrow> hdrs | v # _ \<Rightarrow> AList.update (ToLower k) v hdrs) hdr acc))"
    if "distinct (map fst acc)" for acc :: "(string \<times> string) list"
    using that by (induction hdr arbitrary: acc) (auto simp: distinct_update split: list.split)
  then show ?thesis unfolding policy_headers_def by simp
qed

lemma decode_meta: "decode_request (Some (policy_meta r)) = Some (request_of r)"
  by (simp add: decode_request_def policy_meta_def EqualFold_def ToLower_def lower_char_def Let_def decode_string_def
      decode_headers_strings[OF policy_headers_distinct] request_of_def)

lemma TrimSpace_word: "is_word w \<Longrightarrow> TrimSpace w = w"
  using TrimSpace_id[of w] hd_in_set[of w] last_in_set[of w] by (simp add: is_word_def)

lemma decision_word:
  assumes "\<forall>l\<in>set ls. wf_line l"
  shows "is_word (policy_decision ls req)"
proof (cases "find (line_applies req) ls")
  case None
  then show ?thesis by (simp add: policy_decision_def is_word_def is_space_def)
next
  case (Some l)
  then have "l \<in> set ls" by (metis find_Some_iff nth_mem)
  with assms have "wf_line l" by blast
  with Some show ?thesis by (simp add: policy_decision_def wf_line_def)
qed

text \<open>C8: 
  A compiled policy is enforced: on a route whose middleware is a policy, and with a runtime that
  runs the generated program on the request's metadata, a request the policy denies gets the 403
  and nothing else, and any other request goes on untouched.
\<close>

theorem compiled_policy_enforced:
  assumes "\<forall>l\<in>set ls. wf_line l"
    and "selectWASMMiddleware (intn env) (sv_route s) = m" and "Contains (ToLower m) ''policy''"
    and "\<And>t. wasm_run env m t = Inr (policy_main (policy_stmts (print_policy ls)) (json_of env t))"
    and "json_text env (policy_meta (sv_r s)) = Some t" and "json_of env t = Some (policy_meta (sv_r s))"
  shows "stage_wasm env s =
     (if policy_decision ls (request_of (sv_r s)) = ''deny''
      then Halt (error_response env ''Forbidden: Access Denied by Policy'' ''ERR_ACCESS_DENIED'' 403 s) else Cont s)"
proof -
  have "m \<noteq> []" using assms(3) by (cases m) (simp_all add: ToLower_def)
  moreover have "wasm_run env m (Marshal env (policy_meta (sv_r s))) = Inr (policy_decision ls (request_of (sv_r s)))"
    using assms(4)[of t] assms(5,6) policy_stmts_printed[OF assms(1)] run_decides
    by (simp add: Marshal_def policy_main_def decode_meta)
  ultimately show ?thesis using assms(2,3) TrimSpace_word[OF decision_word[OF assms(1)]]
    by (simp add: stage_wasm_def Let_def)
qed

definition demo_meta_env :: "request \<Rightarrow> string serve_env" where
  "demo_meta_env r = demo_env\<lparr>json_text := (\<lambda>_. Some ''m''), json_of := (\<lambda>_. Some (policy_meta r)),
     wasm_run := (\<lambda>_ _. Inr (policy_main (policy_stmts (print_policy demo_policy)) (Some (policy_meta r))))\<rparr>"

theorem compiled_policy_enforced_witness:
  "stage_wasm (demo_meta_env (demo_request [] ''/a'')) ((start_serve demo_handler (demo_request [] ''/a''))\<lparr>sv_route := demo_route\<lparr>Middleware := ''policy''\<rparr>\<rparr>) =
     Cont ((start_serve demo_handler (demo_request [] ''/a''))\<lparr>sv_route := demo_route\<lparr>Middleware := ''policy''\<rparr>\<rparr>)"
proof -
  let ?s = "(start_serve demo_handler (demo_request [] ''/a''))\<lparr>sv_route := demo_route\<lparr>Middleware := ''policy''\<rparr>\<rparr>"
  have m: "selectWASMMiddleware (intn (demo_meta_env (demo_request [] ''/a''))) (sv_route ?s) = ''policy''" "Contains (ToLower ''policy'') ''policy''"
    by (simp_all add: selectWASMMiddleware_def demo_route_def zero_route_def ToLower_def lower_char_def HasPrefix_def)
  have r: "sv_r ?s = demo_request [] ''/a''" by (simp add: start_serve_def)
  have d: "policy_decision demo_policy (request_of (demo_request [] ''/a'')) = ''allow''"
    by (simp add: policy_decision_def demo_policy_def line_applies_def request_of_def demo_request_def policy_headers_def mget_def)
  show ?thesis
    using compiled_policy_enforced[OF demo_policy_wf m, of "''m''"] unfolding r d
    by (simp add: demo_meta_env_def)
qed

section \<open>Edge cases\<close>

text \<open>
  A condition that is not of the exact form is dropped without a message and the rule applies to
  every request: here the closing clause has a single equals sign.
\<close>

lemma malformed_condition_ignored:
  "compile_line ''allow GET /admin if header.x-role = root'' =
     Some \<lparr>st_method = ''GET'', st_path = ''/admin'', st_header = None, st_action = ''allow''\<rparr>"
  by code_simp

text \<open>The argument check lets five arguments through, of which the sixth is read.\<close>

lemma policy_args_panic: "length args = 5 \<Longrightarrow> args ! 2 = ''compile'' \<Longrightarrow> policy_args args = CliPanic IndexOutOfRange"
  by (simp add: policy_args_def)

end
