(* ===== verification/Access_Log.thy ===== *)
theory Access_Log
  imports Upstream "HOL-Library.Sublist"
begin

text \<open>
  The files of the access log, pkg/proxy/access_log.go: a logger is a file opened for appending
  behind a \<^verbatim>\<open>bufio.Writer\<close> of 4096 bytes. The writer of the library is modelled with the loop of
  its \<^verbatim>\<open>Write\<close> and with its error, which is kept: after a failed write it writes nothing more.

  \<open>disk i n\<close> is how many of \<open>n\<close> bytes the \<open>i\<close>-th write to the file takes; \<^verbatim>\<open>os.File.Write\<close> fails when
  it takes fewer. The methods run under the logger's mutex, each is one step.
\<close>

section \<open>Files\<close>

record log_file =
  lf_content :: string
  lf_writes :: nat
  lf_open :: bool

definition file_Write :: "(nat \<Rightarrow> nat \<Rightarrow> nat) \<Rightarrow> string \<Rightarrow> log_file \<Rightarrow> nat \<times> bool \<times> log_file" where
  "file_Write disk p f =
     (if \<not> lf_open f then (0, False, f)
      else (let n = min (length p) (disk (lf_writes f) (length p)) in
        (n, n = length p, f\<lparr>lf_content := lf_content f @ take n p, lf_writes := lf_writes f + 1\<rparr>)))"

section \<open>The buffered writer\<close>

record AccessLogger =
  al_file :: log_file
  al_buf :: string
  al_err :: bool

abbreviation buffer_size :: nat where "buffer_size \<equiv> 4096"

definition bw_Flush :: "(nat \<Rightarrow> nat \<Rightarrow> nat) \<Rightarrow> AccessLogger \<Rightarrow> AccessLogger" where
  "bw_Flush disk al =
     (if al_err al \<or> al_buf al = [] then al
      else (let (n, ok, f) = file_Write disk (al_buf al) (al_file al) in
        if ok then al\<lparr>al_file := f, al_buf := []\<rparr> else al\<lparr>al_file := f, al_buf := drop n (al_buf al), al_err := True\<rparr>))"

lemma flush_empties: "\<not> al_err (bw_Flush disk al) \<Longrightarrow> al_buf (bw_Flush disk al) = []"
  by (auto simp: bw_Flush_def Let_def split: prod.splits if_splits)

text \<open>The loop of \<^verbatim>\<open>Write\<close>. Every turn ends it with an error, shortens the data or empties the buffer.\<close>

function bw_Write_loop :: "(nat \<Rightarrow> nat \<Rightarrow> nat) \<Rightarrow> string \<Rightarrow> AccessLogger \<Rightarrow> string \<times> AccessLogger" where
  "bw_Write_loop disk p al =
     (if buffer_size - length (al_buf al) < length p \<and> \<not> al_err al then
        (if al_buf al = [] then
           (let (n, ok, f) = file_Write disk p (al_file al) in bw_Write_loop disk (drop n p) (al\<lparr>al_file := f, al_err := \<not> ok\<rparr>))
         else
           (let n = min (length p) (buffer_size - length (al_buf al)) in
            bw_Write_loop disk (drop n p) (bw_Flush disk (al\<lparr>al_buf := al_buf al @ take n p\<rparr>))))
      else (p, al))"
  by auto

termination
proof (relation "measures [\<lambda>(_, _, al). if al_err al then 0 else 1, \<lambda>(_, p, al). length p + (if al_buf al = [] then 0 else 1)]", goal_cases)
  case (2 disk p al x n y ok f)
  then show ?case by (auto simp: file_Write_def Let_def split: if_splits)
next
  case (3 disk p al n)
  then show ?case using flush_empties[of disk "al\<lparr>al_buf := al_buf al @ take n p\<rparr>"] by auto
qed simp

declare bw_Write_loop.simps [simp del]

definition bw_Write :: "(nat \<Rightarrow> nat \<Rightarrow> nat) \<Rightarrow> string \<Rightarrow> AccessLogger \<Rightarrow> AccessLogger" where
  "bw_Write disk p al = (let (p, al) = bw_Write_loop disk p al in if al_err al then al else al\<lparr>al_buf := al_buf al @ p\<rparr>)"

definition bw_WriteByte :: "(nat \<Rightarrow> nat \<Rightarrow> nat) \<Rightarrow> char \<Rightarrow> AccessLogger \<Rightarrow> AccessLogger" where
  "bw_WriteByte disk c al =
     (if al_err al then al
      else (let al = (if buffer_size - length (al_buf al) \<le> 0 then bw_Flush disk al else al) in
        if al_err al then al else al\<lparr>al_buf := al_buf al @ [c]\<rparr>))"

section \<open>The logger\<close>

definition NewAccessLogger :: "(string \<Rightarrow> bool) \<Rightarrow> (string \<Rightarrow> bool) \<Rightarrow> (string \<rightharpoonup> string) \<Rightarrow> string \<Rightarrow> AccessLogger option" where
  "NewAccessLogger mkdir_ok open_ok files path =
     (if \<not> mkdir_ok path then None
      else if \<not> open_ok path then None
      else Some \<lparr>al_file = \<lparr>lf_content = (case files path of Some c \<Rightarrow> c | None \<Rightarrow> []), lf_writes = 0, lf_open = True\<rparr>, al_buf = [], al_err = False\<rparr>)"

definition Logger_Log :: "(nat \<Rightarrow> nat \<Rightarrow> nat) \<Rightarrow> (LogEntry \<Rightarrow> string option) \<Rightarrow> LogEntry \<Rightarrow> AccessLogger \<Rightarrow> AccessLogger" where
  "Logger_Log disk enc entry al = (case enc entry of
     None \<Rightarrow> al
   | Some data \<Rightarrow> bw_Flush disk (bw_WriteByte disk CHR 0x0A (bw_Write disk data al)))"

text \<open>\<^verbatim>\<open>Close\<close>: \<open>True\<close> for an error. When the flush fails the file stays open.\<close>

definition Logger_Close :: "(nat \<Rightarrow> nat \<Rightarrow> nat) \<Rightarrow> AccessLogger \<Rightarrow> bool \<times> AccessLogger" where
  "Logger_Close disk al = (let al = bw_Flush disk al in
     if al_err al then (True, al)
     else (\<not> lf_open (al_file al), al\<lparr>al_file := (al_file al)\<lparr>lf_open := False\<rparr>\<rparr>))"

section \<open>What has been written\<close>

text \<open>
  \<open>written w al\<close>: the bytes \<open>w\<close> have been handed to the logger. Without an error they are the file
  followed by the buffer; after one, the file holds a first part of them.
\<close>

definition written :: "string \<Rightarrow> AccessLogger \<Rightarrow> bool" where
  "written w al \<longleftrightarrow> (if al_err al then prefix (lf_content (al_file al)) w else lf_content (al_file al) @ al_buf al = w)"

lemma file_Write_content:
  "file_Write disk p f = (n, ok, f') \<Longrightarrow>
     lf_content f' = lf_content f @ take n p \<and> n \<le> length p \<and> (ok \<longleftrightarrow> n = length p \<and> lf_open f) \<and> lf_open f' = lf_open f"
  by (auto simp: file_Write_def Let_def split: if_splits)

lemma written_Flush: "written w al \<Longrightarrow> written w (bw_Flush disk al)"
proof (cases "al_err al \<or> al_buf al = []")
  case False
  assume w: "written w al"
  obtain n ok f where fw: "file_Write disk (al_buf al) (al_file al) = (n, ok, f)" by (cases "file_Write disk (al_buf al) (al_file al)") auto
  have "prefix (lf_content (al_file al) @ take n (al_buf al)) (lf_content (al_file al) @ al_buf al)"
    by (simp add: take_is_prefix)
  with w False file_Write_content[OF fw] show ?thesis by (auto simp: written_def bw_Flush_def fw)
qed (auto simp: bw_Flush_def)

lemma written_error: "written w al \<Longrightarrow> al_err al \<Longrightarrow> written (w @ d) al"
  by (simp add: written_def)

lemma written_loop:
  "written w al \<Longrightarrow> bw_Write_loop disk p al = (p', al') \<Longrightarrow>
     \<exists>d. p = d @ p' \<and> written (w @ d) al' \<and> (\<not> al_err al' \<longrightarrow> length p' \<le> buffer_size - length (al_buf al'))"
proof (induction disk p al arbitrary: w rule: bw_Write_loop.induct)
  case (1 disk p al)
  let ?go = "buffer_size - length (al_buf al) < length p \<and> \<not> al_err al"
  note step = bw_Write_loop.simps[of disk p al]
  consider "\<not> ?go" | "?go" "al_buf al = []" | "?go" "al_buf al \<noteq> []" by blast
  then show ?case
  proof cases
    case 1
    with step \<open>bw_Write_loop disk p al = (p', al')\<close> have "p' = p" "al' = al" by auto
    with 1 \<open>written w al\<close> show ?thesis by (intro exI[of _ "[]"]) auto
  next
    case 2
    obtain n ok f where fw: "file_Write disk p (al_file al) = (n, ok, f)" by (cases "file_Write disk p (al_file al)") auto
    have r: "bw_Write_loop disk (drop n p) (al\<lparr>al_file := f, al_err := \<not> ok\<rparr>) = (p', al')" using 1(4) 2 step fw by simp
    have "written (w @ take n p) (al\<lparr>al_file := f, al_err := \<not> ok\<rparr>)"
      using 1(3) 2 file_Write_content[OF fw] by (auto simp: written_def)
    from 1(1)[OF 2 fw[symmetric] refl refl this r] obtain d where
      "drop n p = d @ p'" "written (w @ take n p @ d) al'" "\<not> al_err al' \<longrightarrow> length p' \<le> buffer_size - length (al_buf al')" by auto
    then show ?thesis by (intro exI[of _ "take n p @ d"]) (metis append_assoc append_take_drop_id)
  next
    case 3
    let ?n = "min (length p) (buffer_size - length (al_buf al))"
    let ?al = "bw_Flush disk (al\<lparr>al_buf := al_buf al @ take ?n p\<rparr>)"
    have r: "bw_Write_loop disk (drop ?n p) ?al = (p', al')" using 1(4) 3 step by (simp add: Let_def)
    have "written (w @ take ?n p) (al\<lparr>al_buf := al_buf al @ take ?n p\<rparr>)" using 1(3) 3 by (auto simp: written_def)
    from 1(2)[OF 3 refl written_Flush[OF this] r] obtain d where
      "drop ?n p = d @ p'" "written (w @ take ?n p @ d) al'" "\<not> al_err al' \<longrightarrow> length p' \<le> buffer_size - length (al_buf al')" by auto
    then show ?thesis by (intro exI[of _ "take ?n p @ d"]) (metis append_assoc append_take_drop_id)
  qed
qed

lemma written_Write: "written w al \<Longrightarrow> written (w @ p) (bw_Write disk p al)"
proof -
  assume w: "written w al"
  obtain p' al' where l: "bw_Write_loop disk p al = (p', al')" by (cases "bw_Write_loop disk p al")
  from written_loop[OF w l] obtain d where "p = d @ p'" "written (w @ d) al'" by blast
  with l written_error[of "w @ d" al' p'] show ?thesis
    by (cases "al_err al'") (simp_all add: bw_Write_def, simp add: written_def)
qed

lemma written_WriteByte: "written w al \<Longrightarrow> written (w @ [c]) (bw_WriteByte disk c al)"
  using written_Flush[of w al disk] by (auto simp: bw_WriteByte_def Let_def written_def)

lemma written_Log: "written w al \<Longrightarrow> written (AccessLogger_Log enc e w) (Logger_Log disk enc e al)"
  using written_Flush[OF written_WriteByte[OF written_Write]] by (simp add: Logger_Log_def AccessLogger_Log_def split: option.split)

lemma written_Logs: "written w al \<Longrightarrow> written (fold (AccessLogger_Log enc) es w) (fold (Logger_Log disk enc) es al)"
  by (induction es arbitrary: w al) (simp_all add: written_Log)

section \<open>Errors\<close>

lemma error_Flush [simp]: "al_err al \<Longrightarrow> bw_Flush disk al = al"
  by (simp add: bw_Flush_def)

lemma error_Write [simp]: "al_err al \<Longrightarrow> bw_Write disk p al = al"
  by (simp add: bw_Write_def bw_Write_loop.simps)

lemma error_WriteByte [simp]: "al_err al \<Longrightarrow> bw_WriteByte disk c al = al"
  by (simp add: bw_WriteByte_def)

lemma error_Log [simp]: "al_err al \<Longrightarrow> Logger_Log disk enc e al = al"
  by (simp add: Logger_Log_def split: option.split)

text \<open>With a disk that takes everything, an open logger stays without an error.\<close>

definition healthy :: "AccessLogger \<Rightarrow> bool" where
  "healthy al \<longleftrightarrow> lf_open (al_file al) \<and> \<not> al_err al"

lemma healthy_file: "(\<And>i n. n \<le> disk i n) \<Longrightarrow> lf_open f \<Longrightarrow> \<exists>f'. file_Write disk p f = (length p, True, f') \<and> lf_open f'"
  by (simp add: file_Write_def Let_def min_absorb1)

lemma healthy_Flush: "(\<And>i n. n \<le> disk i n) \<Longrightarrow> healthy al \<Longrightarrow> healthy (bw_Flush disk al) \<and> al_buf (bw_Flush disk al) = []"
  using healthy_file[of disk "al_file al" "al_buf al"] by (auto simp: healthy_def bw_Flush_def)

lemma healthy_buf [simp]: "healthy (al\<lparr>al_buf := b\<rparr>) = healthy al"
  by (simp add: healthy_def)

lemma healthy_loop:
  "(\<And>i n. n \<le> disk i n) \<Longrightarrow> healthy al \<Longrightarrow> healthy (snd (bw_Write_loop disk p al))"
proof (induction disk p al rule: bw_Write_loop.induct)
  case (1 disk p al)
  note step = bw_Write_loop.simps[of disk p al]
  have ok: "n \<le> disk i n" for i n using 1(3) by blast
  consider "\<not> (buffer_size - length (al_buf al) < length p \<and> \<not> al_err al)"
    | "buffer_size - length (al_buf al) < length p \<and> \<not> al_err al" "al_buf al = []"
    | "buffer_size - length (al_buf al) < length p \<and> \<not> al_err al" "al_buf al \<noteq> []" by blast
  then show ?case
  proof cases
    case 1
    with step \<open>healthy al\<close> show ?thesis by auto
  next
    case 2
    obtain f where f: "file_Write disk p (al_file al) = (length p, True, f)" "lf_open f"
      using healthy_file[of disk "al_file al" p] ok 1(4) by (auto simp: healthy_def)
    have "healthy (al\<lparr>al_file := f, al_err := \<not> True\<rparr>)" using f by (simp add: healthy_def)
    from 1(1)[OF 2 f(1)[symmetric] refl refl ok this] show ?thesis using 2 step f by simp
  next
    case 3
    show ?thesis using 1(2)[OF 3 refl ok] healthy_Flush[of disk, OF ok] 1(4) 3 step by (simp add: Let_def)
  qed
qed

lemma healthy_Log:
  assumes "\<And>i n. n \<le> disk i n" and "healthy al" and "al_buf al = []"
  shows "healthy (Logger_Log disk enc e al) \<and> al_buf (Logger_Log disk enc e al) = []"
proof (cases "enc e")
  case (Some d)
  have "healthy (bw_Write disk d al)"
    using healthy_loop[where disk = disk and al = al and p = d] assms by (auto simp: bw_Write_def healthy_def split: prod.splits)
  then have "healthy (bw_WriteByte disk c (bw_Write disk d al))" for c
    using healthy_Flush[OF assms(1)] by (auto simp: bw_WriteByte_def Let_def healthy_def)
  with Some show ?thesis using healthy_Flush[OF assms(1)] by (simp add: Logger_Log_def)
qed (use assms in \<open>simp add: Logger_Log_def\<close>)

lemma healthy_Logs:
  assumes "\<And>i n. n \<le> disk i n"
  shows "healthy al \<Longrightarrow> al_buf al = [] \<Longrightarrow> healthy (fold (Logger_Log disk enc) es al) \<and> al_buf (fold (Logger_Log disk enc) es al) = []"
  using healthy_Log[of disk, OF assms] by (induction es arbitrary: al) simp_all

section \<open>Writes\<close>

text \<open>The loop writes to the file at most once with an empty buffer and at most twice otherwise.\<close>

definition loop_writes :: "AccessLogger \<Rightarrow> nat" where
  "loop_writes al = (if al_err al then 0 else if al_buf al = [] then 1 else 2)"

abbreviation writes :: "AccessLogger \<Rightarrow> nat" where
  "writes al \<equiv> lf_writes (al_file al)"

lemma writes_file: "file_Write disk p f = (n, ok, f') \<Longrightarrow> lf_writes f' \<le> lf_writes f + 1"
  by (auto simp: file_Write_def Let_def split: if_splits)

lemma writes_Flush: "writes (bw_Flush disk al) \<le> writes al + (if al_err al \<or> al_buf al = [] then 0 else 1)"
  using writes_file[of disk "al_buf al" "al_file al"] by (auto simp: bw_Flush_def split: prod.split)

lemma loop_ends:
  assumes "file_Write disk p (al_file al) = (n, ok, f)"
  shows "bw_Write_loop disk (drop n p) (al\<lparr>al_file := f, al_err := \<not> ok\<rparr>) = (drop n p, al\<lparr>al_file := f, al_err := \<not> ok\<rparr>)"
  using file_Write_content[OF assms] by (subst bw_Write_loop.simps) (cases ok, auto)

lemma writes_loop: "writes (snd (bw_Write_loop disk p al)) \<le> writes al + loop_writes al"
proof (induction disk p al rule: bw_Write_loop.induct)
  case (1 disk p al)
  note step = bw_Write_loop.simps[of disk p al]
  consider "\<not> (buffer_size - length (al_buf al) < length p \<and> \<not> al_err al)"
    | "buffer_size - length (al_buf al) < length p \<and> \<not> al_err al" "al_buf al = []"
    | "buffer_size - length (al_buf al) < length p \<and> \<not> al_err al" "al_buf al \<noteq> []" by blast
  then show ?case
  proof cases
    case 1
    with step show ?thesis by auto
  next
    case 2
    obtain n ok f where f: "file_Write disk p (al_file al) = (n, ok, f)" by (cases "file_Write disk p (al_file al)") auto
    from 2 step f writes_file[OF f] show ?thesis by (simp add: loop_writes_def loop_ends[OF f])
  next
    case 3
    let ?n = "min (length p) (buffer_size - length (al_buf al))"
    let ?al = "bw_Flush disk (al\<lparr>al_buf := al_buf al @ take ?n p\<rparr>)"
    have "writes ?al \<le> writes al + 1" using writes_Flush[of disk "al\<lparr>al_buf := al_buf al @ take ?n p\<rparr>"] by (simp split: if_splits)
    moreover have "loop_writes ?al \<le> 1" using flush_empties[of disk "al\<lparr>al_buf := al_buf al @ take ?n p\<rparr>"] by (simp add: loop_writes_def)
    ultimately show ?thesis using 1(2)[OF 3 refl] 3 step by (simp add: Let_def loop_writes_def)
  qed
qed

lemma loop_direct:
  assumes "al_buf al = []" "\<not> al_err al" "buffer_size < length p"
  shows "al_buf (snd (bw_Write_loop disk p al)) = [] \<and> (al_err (snd (bw_Write_loop disk p al)) \<or> fst (bw_Write_loop disk p al) = [])"
proof -
  obtain n ok f where f: "file_Write disk p (al_file al) = (n, ok, f)" by (cases "file_Write disk p (al_file al)") auto
  have "bw_Write_loop disk p al = (drop n p, al\<lparr>al_file := f, al_err := \<not> ok\<rparr>)"
    using assms f loop_ends[OF f] by (subst bw_Write_loop.simps) simp
  then show ?thesis using assms(1) file_Write_content[OF f] by auto
qed

section \<open>Properties\<close>

text \<open>Whatever the disk does, the log file holds a first part of the old content followed by
  the lines of the entries in order: nothing is reordered, repeated or torn out of the middle.\<close>

theorem access_log_prefix:
  assumes "NewAccessLogger mkdir_ok open_ok files path = Some al"
  shows "prefix (lf_content (al_file (fold (Logger_Log disk enc) es al)))
    (fold (AccessLogger_Log enc) es (case files path of Some c \<Rightarrow> c | None \<Rightarrow> []))"
proof -
  have "written (case files path of Some c \<Rightarrow> c | None \<Rightarrow> []) al"
    using assms by (auto simp: NewAccessLogger_def written_def split: if_splits)
  from written_Logs[OF this, of enc es disk] show ?thesis by (auto simp: written_def split: if_splits intro: prefixI[OF sym])
qed

definition example_entry :: "string \<Rightarrow> LogEntry" where
  "example_entry m = \<lparr>le_Timestamp = 0, le_Method = m, le_Path = [], le_Route = [], le_ClientIP = [], le_Status = 200, le_LatencyMs = 0,
     le_RequestSize = 0, le_ResponseSize = 0, le_UserAgent = [], le_TraceID = [], le_Target = [], le_Error = [], le_Tenant = []\<rparr>"

theorem access_log_prefix_witness:
  "prefix (lf_content (al_file (fold (Logger_Log (\<lambda>i n. if i = 0 then n else 0) (\<lambda>e. Some (le_Method e))) [example_entry ''GET'', example_entry ''PUT'']
     \<lparr>al_file = \<lparr>lf_content = [], lf_writes = 0, lf_open = True\<rparr>, al_buf = [], al_err = False\<rparr>)))
     (fold (AccessLogger_Log (\<lambda>e. Some (le_Method e))) [example_entry ''GET'', example_entry ''PUT''] [])"
  using access_log_prefix[of "\<lambda>_. True" "\<lambda>_. True" Map.empty "[]"
      "\<lparr>al_file = \<lparr>lf_content = [], lf_writes = 0, lf_open = True\<rparr>, al_buf = [], al_err = False\<rparr>"]
  by (simp only: NewAccessLogger_def if_False simp_thms option.case)

text \<open>C13: on a disk that takes every write, the buffered logger implements the log of the access
  handler: after any entries and \<^verbatim>\<open>Close\<close>, which reports no error, the file is the old content with
  one line for each entry.\<close>

theorem access_log_refines:
  assumes "\<And>i n. n \<le> disk i n" and "NewAccessLogger mkdir_ok open_ok files path = Some al"
    and "Logger_Close disk (fold (Logger_Log disk enc) es al) = (err, al')"
  shows "\<not> err \<and> lf_content (al_file al') = fold (AccessLogger_Log enc) es (case files path of Some c \<Rightarrow> c | None \<Rightarrow> [])"
proof -
  have w: "written (case files path of Some c \<Rightarrow> c | None \<Rightarrow> []) al" and h: "healthy al" "al_buf al = []"
    using assms(2) by (auto simp: NewAccessLogger_def written_def healthy_def split: if_splits)
  from healthy_Logs[of disk, OF assms(1) h] have "healthy (fold (Logger_Log disk enc) es al)" "al_buf (fold (Logger_Log disk enc) es al) = []"
    by simp_all
  with written_Logs[OF w, of enc es disk] assms(3) show ?thesis
    by (auto simp: Logger_Close_def Let_def bw_Flush_def healthy_def written_def)
qed

theorem access_log_refines_witness:
  "lf_content (al_file (snd (Logger_Close (\<lambda>_ n. n) (fold (Logger_Log (\<lambda>_ n. n) (\<lambda>e. Some (le_Method e))) [example_entry ''GET'', example_entry ''PUT'']
     \<lparr>al_file = \<lparr>lf_content = ''x'', lf_writes = 0, lf_open = True\<rparr>, al_buf = [], al_err = False\<rparr>)))) =
   ''x'' @ ''GET'' @ [CHR 0x0A] @ ''PUT'' @ [CHR 0x0A]"
  using access_log_refines[of "\<lambda>_ n. n" "\<lambda>_. True" "\<lambda>_. True" "\<lambda>_. Some ''x''" "[]"
      "\<lparr>al_file = \<lparr>lf_content = ''x'', lf_writes = 0, lf_open = True\<rparr>, al_buf = [], al_err = False\<rparr>"
      "\<lambda>e. Some (le_Method e)" "[example_entry ''GET'', example_entry ''PUT'']"]
  by (simp add: NewAccessLogger_def AccessLogger_Log_def example_entry_def prod_eq_iff)

text \<open>
  After one failed write nothing is logged any more, also when the disk takes writes again: the
  writer keeps its error, and \<^verbatim>\<open>Log\<close> looks at neither error nor file.
\<close>

lemma failed_write_stops_log: "al_err al \<Longrightarrow> fold (Logger_Log disk enc) es al = al"
  by (induction es) simp_all

text \<open>An entry costs at most two writes to the file, however long it is.\<close>

theorem log_two_writes:
  assumes "al_buf al = []"
  shows "lf_writes (al_file (Logger_Log disk enc e al)) \<le> lf_writes (al_file al) + 2"
proof (cases "enc e")
  case (Some d)
  show ?thesis
  proof (cases "al_err al")
    case False
    let ?w = "bw_Write disk d al" and ?b = "bw_WriteByte disk CHR 0x0A (bw_Write disk d al)"
    have b: "writes (bw_Flush disk ?b) \<le> writes ?b + 1" using writes_Flush[of disk ?b] by (simp split: if_splits)
    have "writes ?b \<le> writes al + 1"
    proof (cases "buffer_size < length d")
      case True
      have "writes ?w \<le> writes al + 1" "al_err ?w \<or> al_buf ?w = []"
        using writes_loop[of disk d al] loop_direct[OF assms False True, of disk] assms False
        by (auto simp: bw_Write_def loop_writes_def split: prod.splits)
      then show ?thesis by (auto simp: bw_WriteByte_def)
    next
      case short: False
      then have "?w = al\<lparr>al_buf := d\<rparr>" using assms False by (simp add: bw_Write_def bw_Write_loop.simps)
      then show ?thesis using writes_Flush[of disk "al\<lparr>al_buf := d\<rparr>"] by (simp add: bw_WriteByte_def Let_def split: if_splits)
    qed
    with b Some show ?thesis by (simp add: Logger_Log_def)
  qed simp
qed (simp add: Logger_Log_def)

theorem log_two_writes_witness:
  "lf_writes (al_file (Logger_Log (\<lambda>_ n. n) (\<lambda>e. Some (replicate 5000 CHR ''x'')) (example_entry [])
     \<lparr>al_file = \<lparr>lf_content = [], lf_writes = 0, lf_open = True\<rparr>, al_buf = [], al_err = False\<rparr>)) \<le> 2"
  using log_two_writes[of "\<lparr>al_file = \<lparr>lf_content = [], lf_writes = 0, lf_open = True\<rparr>, al_buf = [], al_err = False\<rparr>"
      "\<lambda>_ n. n" "\<lambda>e. Some (replicate 5000 CHR ''x'')" "example_entry []"] by simp

end
