(* ===== verification/Spec2Isabelle.thy ===== *)
theory Spec2Isabelle
  imports Admin_Guarantees Launch Policy_Compiler Access_Log
begin

text \<open>
  Verification of ServGate, an API gateway written in Go: a reverse proxy with authentication, rate
  and concurrency limits, load balancing, circuit breaking, response caching, request and response
  transformation, WASM and Go middlewares, AI extensions, an admin API and a small command line.

  \<^bold>\<open>The program.\<close> \<^verbatim>\<open>main.go\<close> loads a configuration through a provider (a local file or an object
  store), builds a \<^verbatim>\<open>GatewayHandler\<close> (\<^verbatim>\<open>pkg/proxy/handler.go\<close>) and serves a mux whose admin
  endpoints change the handler and the stored configuration; everything else goes to
  \<^verbatim>\<open>GatewayHandler.ServeHTTP\<close>, one long function that admits or refuses a request, picks a
  target, forwards the request and records the outcome. Two goroutines poll the object store and
  run the canary engine.

  \<^bold>\<open>Theories and sources.\<close> Go structs are records with the source's field names (a short prefix
  where names clash), methods are functions on the state they change, early returns and panics are
  constructors of the result.

  \<^item> \<open>Prelude\<close>: integers of 64 bits, durations, strings, maps, panics. \<open>Float64\<close>: rounding to
    double precision, for the arithmetic of the breaker, the canary engine and the cost estimates.
  \<^item> \<open>Rate_Limit\<close> (\<^verbatim>\<open>isRateLimited\<close>, \<^verbatim>\<open>adminRateLimiter\<close>): the sliding window of both
    limiters as the locale \<open>sliding_window\<close>, extended by \<open>keyed_limiter\<close>: of the requests the
    gateway decides itself (a positive limit, and no answer from Redis) no window of a minute holds
    more than the limit, and a refusal means the window is full; an answer of Redis decides alone.
  \<^item> \<open>Backpressure\<close> (\<^verbatim>\<open>BackpressureLimiter\<close>): channels and every interleaving of callers:
    bounds on running and queued calls, and progress.
  \<^item> \<open>Circuit_Breaker\<close> (\<^verbatim>\<open>CircuitBreaker\<close>): when it trips, cools down and recovers; the
    p99 it computes in floating point is the maximum of its window.
  \<^item> \<open>Config\<close> (the structs of the configuration), \<open>Balancer\<close> (\<^verbatim>\<open>selectTarget\<close> and the
    connection counters), \<open>Canary\<close> (\<^verbatim>\<open>canary.go\<close>).
  \<^item> \<open>Http\<close> (headers, bodies, the response writer, \<^verbatim>\<open>errors.go\<close>), \<open>Response_Cache\<close>
    (\<^verbatim>\<open>cache.go\<close>; a hit is what was stored last and has not expired, through the locale
    \<open>ttl_store\<close> and for interleaved critical sections), \<open>Upstream\<close> (retries, the recording writer,
    log entries) and \<open>Access_Log\<close> (\<^verbatim>\<open>access_log.go\<close>: the buffered file behind the entries).
  \<^item> \<open>Base64\<close>, \<open>Jwt\<close> (\<^verbatim>\<open>ValidateJWT\<close>, \<^verbatim>\<open>ValidateJWTWithPolicy\<close>, revocation) and
    \<open>Config_Provider\<close> (\<^verbatim>\<open>provider.go\<close>): both kinds of token are instances of the locale
    \<open>compact_token\<close>; the two providers are instances of \<open>config_provider\<close>, which speaks of what a
    save leaves behind and what a later load is shown of it: a file, or requests to an object store
    whose answers are a parameter.
  \<^item> \<open>Policy\<close> (the shared policy package, vendored, and \<^verbatim>\<open>checkIPAccess\<close>), \<open>Json\<close>
    (\<^verbatim>\<open>transformValue\<close>), \<open>Validation\<close> (\<^verbatim>\<open>validation.go\<close>), \<open>Openapi\<close>
    (\<^verbatim>\<open>serveOpenAPIDocs\<close>: the schemas in the document accept what the validator accepts), \<open>Framing\<close> (gRPC and
    WebSocket frames, \<^verbatim>\<open>websocket.go\<close>), \<open>AI\<close> (\<^verbatim>\<open>ai.go\<close> and the cost estimate), \<open>Metrics\<close> (the
    counters and \<^verbatim>\<open>replay.go\<close>), \<open>Wasm_Runner\<close> (\<^verbatim>\<open>pkg/wasm/runner.go\<close>, concurrent runs over
    instance pools).
  \<^item> \<open>Gateway\<close>: the state of the handler and the operations that configure it; its invariant says
    that every route has the resources its settings ask for.
  \<^item> \<open>Serve_Access\<close>, \<open>Serve_Proxy\<close>: \<^verbatim>\<open>ServeHTTP\<close> cut at its own section comments into stages
    composed in the order of the source. Everything they send out for a request is recorded: the
    question to the schema registry and what is forwarded to an upstream, a queue or a tunnel.
    \<open>Serve\<close> shows what each stage may change, \<open>Serve_Guarantees\<close> what holds of the whole function:
    for whom anything is sent out and who is forwarded, the answers of the refusals, the breaker, the
    connection counters, the cache, redaction.
  \<^item> \<open>Extensions\<close>: the plugin registry, the start of the WASM manager, tracing, and the answers of
    the open-source build where the enterprise build has code (locale \<open>name_registry\<close>).
  \<^item> \<open>Admin\<close>, \<open>Admin_Guarantees\<close>: the mux, every admin handler, start-up, polling, and the reachable
    states of the process (\<open>app_reach\<close>). \<open>Launch\<close>: the commands, \<^verbatim>\<open>servgate replay\<close>, the choice of
    the listener. \<open>Policy_Compiler\<close>: \<^verbatim>\<open>servgate policy compile\<close> and \<^verbatim>\<open>servgate install\<close>; the
    generated program decides as the policy says, also inside the gateway.

  The last section of this theory composes them: what the process forwards in any reachable state.

  \<^bold>\<open>Parameters.\<close> Outside the repository, and so fields of \<open>serve_env\<close>, \<open>admin_env\<close>, \<open>setup_env\<close>,
  \<open>jwt_env\<close> or \<open>provider_env\<close>: the clock, environment variables, Redis, SHA and HMAC,
  \<^verbatim>\<open>encoding/json\<close> between texts and values, \<^verbatim>\<open>net\<close> (addresses, URLs), regular expressions, the
  network, the object store, the disk, wazero, Go plugins, \<^verbatim>\<open>git\<close>. What a theorem needs of them is a
  hypothesis of that theorem and a witness shows that it can hold. Two parts of the repository also
  enter \<^verbatim>\<open>ServeHTTP\<close> as parameters: the verdict of the concurrency limiter (\<open>acquire\<close>) and the result
  of a WASM middleware (\<open>wasm_run\<close>). They are modelled with all their interleavings in \<open>Backpressure\<close>
  and \<open>Wasm_Runner\<close>, and those models are not composed with the sequential one of \<^verbatim>\<open>ServeHTTP\<close>, whose
  theorems hold for every verdict and every result.

  \<^bold>\<open>Bounds.\<close> Counters and sums that can overflow are 64-bit words or integers with the wrap-around
  written out; times are unbounded integers of nanoseconds. No model runs on fuel except the
  receiver of a WebSocket stream, where the number of messages is enough. The log writer's loop is a
  \<^theory_text>\<open>function\<close> with a termination proof. Strings are lists of bytes; white space is ASCII white
  space.

  \<^bold>\<open>Concurrency.\<close> The limiter, the cache and the WASM pools are modelled with every interleaving of
  their atomic steps. \<^verbatim>\<open>ServeHTTP\<close> and the admin handlers are one step each in \<open>app_reach\<close>; data
  races between two of them are not modelled.

  \<^bold>\<open>Not modelled.\<close> Commands to Redis in the record of what a request sends out (they are values in
  \<open>Rate_Limit\<close>); spans and log messages that are only printed; the bytes a tunnel copies in both
  directions after the upgrade; the ACME client, TLS itself and the graceful shutdown (\<open>Launch\<close>
  models which listener is chosen); the enterprise build; scripts and documentation.
  The slice of routes that \<^verbatim>\<open>cfg\<close> and the handler share before the first update is two values.
\<close>

section \<open>The whole process\<close>

definition open_config :: GatewayConfig where
  "open_config = example_config\<lparr>cfg_AuthToken := ''t'', cfg_Routes := [demo_route]\<rparr>"

definition open_admin :: "(string, nat) admin_env" where
  "open_admin = demo_admin\<lparr>ae_provider := example_penv\<lparr>decode_config := (\<lambda>_. Some open_config)\<rparr>\<rparr>"

definition open_app :: "nat app" where
  "open_app = \<lparr>app_cfg = open_config, app_h = demo_handler, app_prov = LocalFile ''config.json'', app_fs = [''config.json'' \<mapsto> []],
     app_sent = [], app_wasm = wasm_init, app_limits = (\<lambda>_. Map.empty), app_env = (\<lambda>_. [])\<rparr>"

lemma open_start: "main_start open_admin (\<lambda>_. []) [''config.json'' \<mapsto> []] = Inr open_app"
  by (simp add: start_defs open_admin_def demo_admin_def open_config_def open_app_def route_op_defs demo_handler_def demo_route_def plain_setup_def Let_def)

lemma open_env: "app_serve open_admin open_app = demo_env"
  by (simp add: app_serve_def open_admin_def demo_admin_def open_app_def demo_env_def)

lemma open_forwards: "forwards (fst (mux_ServeHTTP open_admin (demo_request ''Bearer t'' ''/a/x'') open_app)) \<noteq> []"
proof -
  have c: "clean_path open_admin = (\<lambda>p. p)" by (simp add: open_admin_def demo_admin_def)
  have "app_h open_app = demo_handler" by (simp add: open_app_def)
  then show ?thesis using demo_forwards
    by (simp add: mux_ServeHTTP_def c open_env Let_def metrics_ws_paths_def admin_pattern_defs pattern_matches_def HasPrefix_def HasSuffix_def demo_request_def)
qed

text \<open>C1: in every state the running process can reach (start, requests to the proxy and to the
  admin API, reloads from the object store and canary adjustments in any order), a request for
  which anything is sent out (to an upstream, a queue, a tunnel, or as a question to the schema
  registry) carries the token the process was started with or a token of a user that is valid and
  not revoked (unless the gateway was started without a token), the placement of its tenant does not
  forbid it, and its path begins with the prefix of a route that requires no API key. If it is
  forwarded to an upstream, a queue or a tunnel, its address also passes that route's lists and the
  policy in force does not forbid it; the schema registry is asked before these two checks. Commands
  to Redis are not counted as sent out.\<close>

theorem process_forwards_only_admitted:
  assumes "app_reach E a" and "fst (mux_ServeHTTP env r a) \<noteq> []"
  shows "(cfg_AuthToken (app_cfg a) = [] \<or> bearer_token r = cfg_AuthToken (app_cfg a) \<or> jwt_user (app_serve env a) (app_h a) r \<noteq> None) \<and>
    placement_ok (app_serve env a) (app_h a) r \<and>
    (\<exists>route. match_route (rq_Path r) (routes (app_h a)) = Some route \<and> \<not> RequireAPIKey route \<and>
       (forwards (fst (mux_ServeHTTP env r a)) \<noteq> [] \<longrightarrow> policy_allows (app_serve env a) (app_h a) r \<and>
          checkIPAccess (ip_lib (ae_serve env)) (client_ip (app_serve env a) r) (IPAllowlist route) (IPBlocklist route)))"
proof -
  let ?out = "sv_out (final (ServeHTTP (app_serve env a) r (app_h a)))"
  have out: "fst (mux_ServeHTTP env r a) = ?out" using assms(2) by (rule mux_forwards)
  have lib: "ip_lib (app_serve env a) = ip_lib (ae_serve env)" by (simp add: app_serve_def)
  have "identified (app_serve env a) (app_h a) r" using assms(2) out sent_identified by metis
  moreover have "forwards ?out \<noteq> [] \<longrightarrow> admitted (app_serve env a) (app_h a) r" using forwarded_admitted by blast
  ultimately show ?thesis
    using app_secrets[OF assms(1)] unfolding out identified_def admitted_def authenticated_def key_accepted_def lib by auto
qed

theorem process_forwards_only_admitted_witness:
  "\<exists>route. match_route ''/a/x'' (routes (app_h open_app)) = Some route \<and> \<not> RequireAPIKey route"
proof -
  have "fst (mux_ServeHTTP open_admin (demo_request ''Bearer t'' ''/a/x'') open_app) \<noteq> []"
    using open_forwards by (metis forwards_simps(1))
  from process_forwards_only_admitted[OF app_reach.start[of open_admin "{open_admin}", OF _ open_start] this]
  show ?thesis by (simp add: demo_request_def) blast
qed

end
